theory Spec2Isabelle
  imports Main "HOL-Library.Word" "HOL-Library.Multiset"
begin

section \<open>Python string operations used by the dashboard shell\<close>

text \<open>
  Strings are character lists, and a character is a code point below 256 (ASCII and the
  Latin-1 supplement); text with other characters is not covered. The operations below are
  the ones the host window and the widgets call on titles and identifiers: \<^verbatim>\<open>str.lower()\<close>,
  \<^verbatim>\<open>str.replace(' ', '_')\<close>, \<^verbatim>\<open>str.startswith\<close>, \<^verbatim>\<open>str.strip()\<close> (only its truth value is
  ever used) and the formatting of an integer inside an f-string.
\<close>

definition lower_char :: "char \<Rightarrow> char" where
  \<comment> \<open>\<^verbatim>\<open>str.lower()\<close> on one character: the letters A to Z, and the capital letters of the
      Latin-1 supplement (0xC0 to 0xDE without the multiplication sign 0xD7), whose small
      letters lie 32 code points higher\<close>
  "lower_char c =
     (case map_of (zip ''ABCDEFGHIJKLMNOPQRSTUVWXYZ'' ''abcdefghijklmnopqrstuvwxyz'') c of
        Some d \<Rightarrow> d
      | None \<Rightarrow>
          (if 192 \<le> (of_char c :: nat) \<and> (of_char c :: nat) \<le> 222 \<and> (of_char c :: nat) \<noteq> 215
           then char_of (of_char c + 32 :: nat)
           else c))"

definition lower :: "string \<Rightarrow> string" where
  "lower s = map lower_char s"

definition replace_space :: "string \<Rightarrow> string" where
  \<comment> \<open>\<^verbatim>\<open>s.replace(' ', '_')\<close>: only the space character is replaced.\<close>
  "replace_space s = map (\<lambda>c. if c = CHR '' '' then CHR ''_'' else c) s"

definition sanitize :: "string \<Rightarrow> string" where
  \<comment> \<open>\<^verbatim>\<open>title.lower().replace(' ', '_')\<close>\<close>
  "sanitize t = replace_space (lower t)"

definition startswith :: "string \<Rightarrow> string \<Rightarrow> bool" where
  \<comment> \<open>\<^verbatim>\<open>s.startswith(p)\<close>\<close>
  "startswith s p = (take (length p) s = p)"

definition is_space :: "char \<Rightarrow> bool" where
  \<comment> \<open>the characters \<^verbatim>\<open>str.strip()\<close> removes: space, tab, line feed, vertical tab, form feed,
      carriage return, the four separators 0x1c to 0x1f, next line (0x85) and the no-break
      space (0xa0)\<close>
  "is_space c = (of_char c \<in> {9, 10, 11, 12, 13, 28, 29, 30, 31, 32, 133, 160 :: nat})"

definition strip_nonempty :: "string \<Rightarrow> bool" where
  \<comment> \<open>the truth value of \<^verbatim>\<open>s.strip()\<close>\<close>
  "strip_nonempty s = (\<not> list_all is_space s)"

definition digit_char :: "nat \<Rightarrow> char" where
  "digit_char d = ''0123456789'' ! d"

fun str_of_nat :: "nat \<Rightarrow> string" where
  "str_of_nat n = (if n < 10 then [digit_char n] else str_of_nat (n div 10) @ [digit_char (n mod 10)])"

declare str_of_nat.simps [simp del]


definition numbered :: "string \<Rightarrow> nat \<Rightarrow> string" where
  \<comment> \<open>\<^verbatim>\<open>f"{base_name}_{counter}"\<close>\<close>
  "numbered base k = base @ ''_'' @ str_of_nat k"

definition digit_val :: "char \<Rightarrow> nat" where
  "digit_val c = (case map_of (zip ''0123456789'' [0..<10]) c of Some d \<Rightarrow> d | None \<Rightarrow> 0)"

definition nat_of_str :: "string \<Rightarrow> nat" where
  \<comment> \<open>reads a decimal numeral back; used to show that distinct counters give distinct names\<close>
  "nat_of_str s = foldl (\<lambda>a c. 10 * a + digit_val c) 0 s"

definition pending :: "string list \<Rightarrow> string \<Rightarrow> nat \<Rightarrow> nat set" where
  \<comment> \<open>the counters from \<open>c\<close> on whose numbered name is taken\<close>
  "pending existing base c = {k. c \<le> k \<and> numbered base k \<in> set existing}"

text \<open>
  The loop of \<^verbatim>\<open>add_widget\<close> that looks for a free object name:
  \<^verbatim>\<open>while dock_name in existing_names: dock_name = f"{base_name}_{counter}"; counter += 1\<close>.
  It stops because every round uses up one of the finitely many taken names.
\<close>

function next_dock_name :: "string list \<Rightarrow> string \<Rightarrow> string \<times> nat \<Rightarrow> string \<times> nat" where
  "next_dock_name existing base_name (dock_name, counter) =
     (if dock_name \<in> set existing
      then next_dock_name existing base_name (numbered base_name counter, counter + 1)
      else (dock_name, counter))"
  by pat_completeness auto
termination
proof (relation "measure (\<lambda>(existing, base, dock_name, c).
          card (pending existing base c) + (if dock_name \<in> set existing then 1 else 0))")
  show "wf (measure (\<lambda>(existing, base, dock_name, c).
          card (pending existing base c) + (if dock_name \<in> set existing then 1 else 0)))"
    by simp
next
  fix existing :: "string list" and base_name dock_name :: string and counter :: nat
  assume taken: "dock_name \<in> set existing"
  have digit: "digit_val (digit_char d) = d" if "d < 10" for d
  proof -
    from that have "d \<in> {0, 1, 2, 3, 4, 5, 6, 7, 8, 9}" by auto
    then show ?thesis
      by (auto simp: digit_val_def digit_char_def upt_conv_Cons)
  qed
  have decode: "nat_of_str (str_of_nat n) = n" for n
  proof (induction n rule: str_of_nat.induct)
    case (1 n)
    show ?case
    proof (cases "n < 10")
      case True
      then show ?thesis
        by (subst str_of_nat.simps) (simp add: nat_of_str_def digit)
    next
      case False
      with 1 have "nat_of_str (str_of_nat (n div 10)) = n div 10" by simp
      with False show ?thesis
        by (subst str_of_nat.simps) (simp add: nat_of_str_def digit)
    qed
  qed
  have "inj str_of_nat"
    by (rule inj_on_inverseI [where g = nat_of_str]) (rule decode)
  then have inj: "inj (numbered base_name)"
    by (auto simp: inj_def numbered_def)
  have fin: "finite (pending existing base_name c)" for c
  proof -
    have "pending existing base_name c \<subseteq> numbered base_name -` set existing"
      by (auto simp: pending_def)
    moreover have "finite (numbered base_name -` set existing)"
      by (rule finite_vimageI) (simp_all add: inj)
    ultimately show ?thesis by (rule finite_subset)
  qed
  have le: "card (pending existing base_name (Suc counter)) \<le> card (pending existing base_name counter)"
    by (rule card_mono [OF fin]) (auto simp: pending_def)
  have less: "card (pending existing base_name (Suc counter)) < card (pending existing base_name counter)"
    if a: "numbered base_name counter \<in> set existing"
  proof -
    have "counter \<in> pending existing base_name counter"
         "counter \<notin> pending existing base_name (Suc counter)"
      using a by (simp_all add: pending_def)
    moreover have "pending existing base_name (Suc counter) \<subseteq> pending existing base_name counter"
      by (auto simp: pending_def)
    ultimately have "pending existing base_name (Suc counter) \<subset> pending existing base_name counter"
      by blast
    then show ?thesis by (rule psubset_card_mono [OF fin])
  qed
  show "((existing, base_name, numbered base_name counter, counter + 1),
         (existing, base_name, dock_name, counter))
         \<in> measure (\<lambda>(existing, base, dock_name, c).
              card (pending existing base c) + (if dock_name \<in> set existing then 1 else 0))"
    using taken le less by auto
qed

declare next_dock_name.simps [simp del]

section \<open>Hex encoding of the opaque docking-state blob\<close>

text \<open>
  \<^verbatim>\<open>save_dashboard_layout\<close> writes \<^verbatim>\<open>state.data().hex()\<close> and \<^verbatim>\<open>restore_dashboard_layout\<close>
  reads it back with \<^verbatim>\<open>bytes.fromhex\<close>. \<^verbatim>\<open>hex\<close> writes two lower-case digits per byte;
  \<^verbatim>\<open>fromhex\<close> accepts both cases, skips ASCII whitespace in front of a pair of digits and
  raises \<^verbatim>\<open>ValueError\<close> (here \<open>None\<close>) on anything else.
\<close>

type_synonym byte = "8 word"

definition hexdigit :: "nat \<Rightarrow> char" where
  "hexdigit n = ''0123456789abcdef'' ! n"

definition hexval :: "char \<Rightarrow> nat option" where
  "hexval c = map_of (zip ''0123456789abcdefABCDEF''
                          [0, 1, 2, 3, 4, 5, 6, 7, 8, 9, 10, 11, 12, 13, 14, 15, 10, 11, 12, 13, 14, 15]) c"

definition is_ascii_space :: "char \<Rightarrow> bool" where
  "is_ascii_space c = (of_char c \<in> {9, 10, 11, 12, 13, 32 :: nat})"

definition hex_byte :: "byte \<Rightarrow> string" where
  "hex_byte b = [hexdigit (unat b div 16), hexdigit (unat b mod 16)]"

definition hex :: "byte list \<Rightarrow> string" where
  "hex bs = concat (map hex_byte bs)"

fun fromhex :: "string \<Rightarrow> byte list option" where
  "fromhex [] = Some []"
| "fromhex [c] = (if is_ascii_space c then Some [] else None)"
| "fromhex (c # d # cs) =
     (if is_ascii_space c then fromhex (d # cs)
      else case (hexval c, hexval d) of
             (Some hi, Some lo) \<Rightarrow>
               (case fromhex cs of
                  Some bs \<Rightarrow> Some (word_of_nat (16 * hi + lo) # bs)
                | None \<Rightarrow> None)
           | _ \<Rightarrow> None)"

section \<open>The persisted workspace document\<close>

text \<open>
  The document stored under \<^verbatim>\<open>("main_window", "dashboards")\<close> is a JSON list with one
  object per dashboard. A field the restore code reads with \<^verbatim>\<open>.get(key, default)\<close> or tests
  with \<^verbatim>\<open>key in\<close> is optional here (\<open>None\<close>: the key is absent); \<^verbatim>\<open>module_name\<close> and
  \<^verbatim>\<open>widgets\<close> are read with the defaults \<^verbatim>\<open>""\<close> and \<^verbatim>\<open>[]\<close>, which stand for the absent key.
  The JSON codec is the library's: a stored text is represented by the document it parses to.
  A geometry has its four numbers, and they are integers of any size, as JSON allows; documents
  with a geometry of another shape are not covered.
\<close>

record geometry_info =
  geom_x :: int
  geom_y :: int
  geom_width :: int
  geom_height :: int

record widget_info =
  wi_module_name :: string
  wi_dock_name :: "string option"
  wi_title :: "string option"
  wi_area :: "int option"
  wi_floating :: bool
  wi_visible :: bool
  wi_geometry :: "geometry_info option"

record dashboard_info =
  di_title :: "string option"
  di_state :: "string option"
  di_widgets :: "widget_info list"

datatype dashboard_entry =
    NotADict                      \<comment> \<open>a list element without \<^verbatim>\<open>.get\<close>: \<^verbatim>\<open>AttributeError\<close>\<close>
  | DashboardDict dashboard_info

datatype saved_dashboards =
    Undecodable                   \<comment> \<open>\<^verbatim>\<open>json.loads\<close> or \<^verbatim>\<open>len\<close> raises\<close>
  | Decoded "dashboard_entry list"

section \<open>Plugin descriptors and widget classes\<close>

datatype widget_class =
    ClockWidget | MarkdownViewerWidget | RestApiTableWidget | CustomListWidget
  | WebViewWidget | WeatherForecastWidget | StockMarketWidget | CodeViewerWidget
  | WysiwygEditorWidget | CalculatorWidget | ScientificCalculatorWidget
  | TreeListWidget | StatsWidget

record plugin_info =
  pi_name :: string
  pi_title :: "string option"
  pi_widget_class :: "widget_class option"
  pi_supports_multiple :: bool    \<comment> \<open>the key \<^verbatim>\<open>supports_multiple\<close>; absent means \<open>False\<close>\<close>

type_synonym registry = "(string \<times> plugin_info) list"

definition plugin :: "string \<Rightarrow> widget_class \<Rightarrow> bool \<Rightarrow> plugin_info" where
  "plugin n c m = \<lparr>pi_name = n, pi_title = Some n, pi_widget_class = Some c, pi_supports_multiple = m\<rparr>"

datatype exn = TypeError | AttributeError | ValueError | OverflowError | ImportError

definition builtin_plugins :: registry where
  \<comment> \<open>\<^verbatim>\<open>PluginManager.plugins\<close> as \<^verbatim>\<open>load_plugins\<close> leaves it. The scan of the module directories
      registers every directory whose \<^verbatim>\<open>widget.py\<close> can be imported and has \<^verbatim>\<open>register_plugin\<close>
      (the packages the modules import from outside the repository are taken as installed);
      that of \<^verbatim>\<open>stats\<close> cannot, because it loads a compiled library that is not part of the
      sources, and the \<^verbatim>\<open>except\<close> clause of \<^verbatim>\<open>_load_plugin\<close> drops it. \<^verbatim>\<open>_load_builtin_plugins\<close>
      registers the same keys again and adds the scientific calculator. A registry is looked
      up by key and its keys are distinct, so the order of its entries does not matter.\<close>
  "builtin_plugins =
     [(''calculator'', plugin ''Calculator'' CalculatorWidget False),
      (''clock'', plugin ''Clock'' ClockWidget False),
      (''code_viewer'', plugin ''Code Viewer'' CodeViewerWidget True),
      (''custom_list'', plugin ''Custom List'' CustomListWidget True),
      (''markdown_viewer'', plugin ''Markdown Viewer'' MarkdownViewerWidget False),
      (''rest_api_table'', plugin ''REST API Table'' RestApiTableWidget False),
      (''stock_market'', plugin ''Stock Market'' StockMarketWidget False),
      (''tree_list'', plugin ''Tree List'' TreeListWidget True),
      (''weather_forecast'', plugin ''Weather Forecast'' WeatherForecastWidget False),
      (''web_view'', plugin ''Web View'' WebViewWidget True),
      (''wysiwyg_editor'', plugin ''WYSIWYG Editor'' WysiwygEditorWidget True),
      (''scientific_calculator'', plugin ''Scientific Calculator'' ScientificCalculatorWidget False)]"

definition load_plugins :: "registry \<times> exn option" where
  \<comment> \<open>\<^verbatim>\<open>PluginManager.load_plugins\<close>: the registry it has filled when it returns or raises, and
      the exception it raises. The last statement of \<^verbatim>\<open>_load_builtin_plugins\<close> is
      \<^verbatim>\<open>from modules.tree_list import register_plugins\<close>; the package has no such name, and
      nothing catches the \<^verbatim>\<open>ImportError\<close>.\<close>
  "load_plugins = (builtin_plugins, Some ImportError)"


section \<open>Widgets, docks and dashboards\<close>

text \<open>
  What the host window reads and writes of a widget: its class, its attribute
  \<^verbatim>\<open>widget_id\<close> (\<open>None\<close> is Python's \<^verbatim>\<open>None\<close>) and, for a custom list, \<^verbatim>\<open>list_title\<close>.
  Every widget class of the repository has the attribute \<^verbatim>\<open>widget_id\<close>.
\<close>

record widget =
  w_class :: widget_class
  w_widget_id :: "string option"
  w_list_title :: "string option"

datatype ctor_args =
    NoKeywords                        \<comment> \<open>\<^verbatim>\<open>widget_class(db, ingest)\<close>\<close>
  | Title string                      \<comment> \<open>\<^verbatim>\<open>widget_class(db, ingest, title=...)\<close>\<close>
  | ListTitle string "string option"  \<comment> \<open>\<^verbatim>\<open>widget_class(db, ingest, list_title=..., widget_id=...)\<close>\<close>

text \<open>
  The toolkit keeps the geometry of a dock as a \<^verbatim>\<open>QRect\<close> of four C integers (32 bits, signed),
  where the persisted document holds Python integers. \<^verbatim>\<open>geometry.x()\<close> and its siblings read
  the four numbers; a call that passes a Python integer outside the range of a C integer
  raises \<^verbatim>\<open>OverflowError\<close>.
\<close>

type_synonym c_int = "32 word"

record qrect =
  rect_x :: c_int
  rect_y :: c_int
  rect_width :: c_int
  rect_height :: c_int

definition fits_c_int :: "int \<Rightarrow> bool" where
  "fits_c_int v = (- (2 ^ 31) \<le> v \<and> v < 2 ^ 31)"

definition geometry_of :: "qrect \<Rightarrow> geometry_info" where
  \<comment> \<open>\<^verbatim>\<open>{"x": geometry.x(), "y": geometry.y(), "width": geometry.width(), "height": geometry.height()}\<close>\<close>
  "geometry_of r =
     \<lparr>geom_x = sint (rect_x r), geom_y = sint (rect_y r),
      geom_width = sint (rect_width r), geom_height = sint (rect_height r)\<rparr>"

definition qrect_of :: "geometry_info \<Rightarrow> qrect" where
  \<comment> \<open>the rectangle of four numbers that fit\<close>
  "qrect_of g =
     \<lparr>rect_x = word_of_int (geom_x g), rect_y = word_of_int (geom_y g),
      rect_width = word_of_int (geom_width g), rect_height = word_of_int (geom_height g)\<rparr>"

record placement =
  pl_area :: int
  pl_floating :: bool
  pl_visible :: bool
  pl_geometry :: qrect

text \<open>
  The layout code holds on to dock objects (the list \<^verbatim>\<open>docks\<close> of \<^verbatim>\<open>restore_dashboard_layout\<close>)
  while the toolkit changes their order among the children of the dashboard. A dock therefore
  carries a reference, a number given at its creation that no other dock of the dashboard has,
  and the code names a dock by its reference.
\<close>

record dock =
  dock_ref :: nat
  objectName :: string
  windowTitle :: string
  dock_widget :: "widget option"    \<comment> \<open>the widget inside the wrapper; \<open>None\<close>: no wrapper was set\<close>
  place :: placement

datatype qt_call =
    AddDockWidget string
  | RestoreState "byte list"
  | SetGeometry nat geometry_info
  | SetVisible nat
  | Raise nat

record dashboard =
  tab_text :: string
  children :: "dock list"        \<comment> \<open>\<^verbatim>\<open>findChildren(QDockWidget)\<close>, in the order the toolkit keeps\<close>
  qt_log :: "qt_call list"       \<comment> \<open>the layout calls made on this dashboard, oldest first\<close>

definition new_ref :: "dashboard \<Rightarrow> nat" where
  \<comment> \<open>the reference of the next dock created on the dashboard: above every one in use\<close>
  "new_ref d = fold (\<lambda>dk n. max n (Suc (dock_ref dk))) (children d) 0"

definition the_dock :: "nat \<Rightarrow> dashboard \<Rightarrow> dock option" where
  "the_dock r d = find (\<lambda>dk. dock_ref dk = r) (children d)"

definition update_dock :: "nat \<Rightarrow> (dock \<Rightarrow> dock) \<Rightarrow> dashboard \<Rightarrow> dashboard" where
  \<comment> \<open>a change made to the dock object with reference \<open>r\<close>\<close>
  "update_dock r f d = d\<lparr>children := map (\<lambda>dk. if dock_ref dk = r then f dk else dk) (children d)\<rparr>"

record main_window =
  tabs :: "dashboard list"
  currentIndex :: nat

text \<open>
  Everything decided outside the layout code is an input: the plugin registry, whether the
  main window is on screen, the answers typed into dialogs, the identifier a constructor finds
  by probing the store, and the windowing toolkit (where it places a new dock, what
  \<^verbatim>\<open>saveState\<close> returns and where \<^verbatim>\<open>restoreState\<close> puts each dock).
\<close>

record env =
  plugins :: registry
  window_visible :: bool
  dashboard_dialog :: "string \<times> bool"
  title_dialog :: "string \<times> bool"
  probed_id :: "widget_class \<Rightarrow> string"
  qt_new_dock :: "string \<Rightarrow> placement"
  qt_saveState :: "dashboard \<Rightarrow> byte list"
  qt_restoreState :: "byte list \<Rightarrow> dock list \<Rightarrow> nat \<Rightarrow> placement"

subsection \<open>Widget constructors\<close>

definition fixed_id :: "widget_class \<Rightarrow> string option" where
  \<comment> \<open>the \<^verbatim>\<open>self.widget_id = ...\<close> of the constructors that take no title\<close>
  "fixed_id c =
     (case c of
        ClockWidget \<Rightarrow> Some ''clock''
      | MarkdownViewerWidget \<Rightarrow> Some ''markdown_viewer''
      | RestApiTableWidget \<Rightarrow> Some ''rest_api_table''
      | WeatherForecastWidget \<Rightarrow> Some ''weather_forecast''
      | StockMarketWidget \<Rightarrow> Some ''stock_market''
      | StatsWidget \<Rightarrow> Some ''stats''
      | _ \<Rightarrow> None)"

definition titled :: "widget_class \<Rightarrow> string \<Rightarrow> string \<Rightarrow> widget" where
  "titled c prefix t = \<lparr>w_class = c, w_widget_id = Some (prefix @ ''_'' @ sanitize t), w_list_title = None\<rparr>"

definition prompted :: "env \<Rightarrow> (string \<Rightarrow> widget) \<Rightarrow> exn + widget" where
  \<comment> \<open>a constructor called without a title asks for one; on a refused or blank answer it counts
      the siblings of \<^verbatim>\<open>self.parent()\<close>, which is \<^verbatim>\<open>None\<close> during construction\<close>
  "prompted e build =
     (case title_dialog e of (t, ok) \<Rightarrow>
        if \<not> ok \<or> \<not> strip_nonempty t then Inl AttributeError else Inr (build t))"

definition custom_list_widget :: "string \<Rightarrow> string option \<Rightarrow> widget" where
  "custom_list_widget t wid =
     \<lparr>w_class = CustomListWidget,
      w_widget_id = Some (case wid of
                            Some i \<Rightarrow> if i = [] then ''custom_list_'' @ sanitize t else i
                          | None \<Rightarrow> ''custom_list_'' @ sanitize t),
      w_list_title = Some t\<rparr>"

definition construct :: "env \<Rightarrow> widget_class \<Rightarrow> ctor_args \<Rightarrow> exn + widget" where
  "construct e c args =
     (case c of
        CustomListWidget \<Rightarrow>
          (case args of
             ListTitle t wid \<Rightarrow> Inr (custom_list_widget t wid)
           | NoKeywords \<Rightarrow> prompted e (\<lambda>t. custom_list_widget t None)
           | Title t \<Rightarrow> Inl TypeError)
      | CodeViewerWidget \<Rightarrow>
          (case args of
             Title t \<Rightarrow> Inr (titled c ''code_viewer'' t)
           | NoKeywords \<Rightarrow> prompted e (titled c ''code_viewer'')
           | ListTitle t wid \<Rightarrow> Inl TypeError)
      | WysiwygEditorWidget \<Rightarrow>
          (case args of
             Title t \<Rightarrow> Inr (titled c ''wysiwyg_editor'' t)
           | NoKeywords \<Rightarrow> prompted e (titled c ''wysiwyg_editor'')
           | ListTitle t wid \<Rightarrow> Inl TypeError)
      | TreeListWidget \<Rightarrow>
          (case args of
             Title t \<Rightarrow>
               Inr (if t \<noteq> [] \<and> t \<noteq> ''Tree List'' then titled c ''treelist'' t
                    else \<lparr>w_class = c, w_widget_id = Some (probed_id e c), w_list_title = None\<rparr>)
           | NoKeywords \<Rightarrow> Inr \<lparr>w_class = c, w_widget_id = Some (probed_id e c), w_list_title = None\<rparr>
           | ListTitle t wid \<Rightarrow> Inl TypeError)
      | WebViewWidget \<Rightarrow>
          (case args of
             NoKeywords \<Rightarrow> Inr \<lparr>w_class = c, w_widget_id = Some (probed_id e c), w_list_title = None\<rparr>
           | _ \<Rightarrow> Inl TypeError)
      | _ \<Rightarrow>
          (case args of
             NoKeywords \<Rightarrow> Inr \<lparr>w_class = c, w_widget_id = fixed_id c, w_list_title = None\<rparr>
           | _ \<Rightarrow> Inl TypeError))"

definition set_widget_id :: "string \<Rightarrow> widget \<Rightarrow> widget" where
  \<comment> \<open>the assignment \<^verbatim>\<open>widget.widget_id = v\<close>: a plain attribute, except for the property setters
      of the custom list (stores a non-empty value) and of the tree list (stores nothing)\<close>
  "set_widget_id v w =
     (if w_class w = CustomListWidget then (if v \<noteq> [] then w\<lparr>w_widget_id := Some v\<rparr> else w)
      else if w_class w = TreeListWidget then w
      else w\<lparr>w_widget_id := Some v\<rparr>)"

definition set_private_id :: "string \<Rightarrow> widget \<Rightarrow> widget" where
  \<comment> \<open>the assignment \<^verbatim>\<open>widget._widget_id = v\<close>, which \<^verbatim>\<open>widget_id\<close> reads back only in the two
      classes that define the property\<close>
  "set_private_id v w =
     (if w_class w = CustomListWidget \<or> w_class w = TreeListWidget then w\<lparr>w_widget_id := Some v\<rparr> else w)"

definition save_state_raises :: "widget \<Rightarrow> bool" where
  \<comment> \<open>\<^verbatim>\<open>save_state\<close> of the two calculators calls \<^verbatim>\<open>db_manager.set_widget_data\<close>, which
      \<^verbatim>\<open>DatabaseManager\<close> does not have, once \<^verbatim>\<open>widget_id\<close> is set\<close>
  "save_state_raises w =
     ((w_class w = CalculatorWidget \<or> w_class w = ScientificCalculatorWidget)
      \<and> w_widget_id w \<noteq> None \<and> w_widget_id w \<noteq> Some [])"


section \<open>The host window: \<^verbatim>\<open>MainWindow\<close>\<close>

subsection \<open>Dashboards\<close>

definition DashboardTab :: "string \<Rightarrow> dashboard" where
  "DashboardTab title = \<lparr>tab_text = title, children = [], qt_log = []\<rparr>"

definition addTab :: "dashboard \<Rightarrow> main_window \<Rightarrow> main_window" where
  \<comment> \<open>a tab added to an empty tab widget becomes the current one\<close>
  "addTab d mw =
     mw\<lparr>tabs := tabs mw @ [d], currentIndex := (if tabs mw = [] then 0 else currentIndex mw)\<rparr>"

definition new_dashboard_title :: "env \<Rightarrow> main_window \<Rightarrow> string" where
  "new_dashboard_title e mw =
     (let default_title = ''Dashboard '' @ str_of_nat (length (tabs mw) + 1)
      in if window_visible e
         then (case dashboard_dialog e of (title, ok) \<Rightarrow>
                 if \<not> ok \<or> \<not> strip_nonempty title then default_title else title)
         else default_title)"

definition add_dashboard :: "env \<Rightarrow> main_window \<Rightarrow> main_window" where
  "add_dashboard e mw =
     (addTab (DashboardTab (new_dashboard_title e mw)) mw)\<lparr>currentIndex := length (tabs mw)\<rparr>"

subsection \<open>\<^verbatim>\<open>add_widget\<close>\<close>

definition display_title_of :: "string \<Rightarrow> nat \<Rightarrow> string" where
  \<comment> \<open>\<^verbatim>\<open>widget_title if counter == 1 else f"{widget_title} {counter}"\<close>\<close>
  "display_title_of widget_title counter =
     (if counter = 1 then widget_title else widget_title @ '' '' @ str_of_nat counter)"

definition ctor_args_for :: "string \<Rightarrow> string \<Rightarrow> ctor_args" where
  "ctor_args_for widget_name display_title =
     (if widget_name = ''tree_list'' then Title display_title
      else if widget_name = ''custom_list'' then ListTitle display_title None
      else if widget_name = ''code_viewer'' then Title display_title
      else if widget_name = ''wysiwyg_editor'' then Title display_title
      else NoKeywords)"

definition allocate_widget_id :: "string \<Rightarrow> string \<Rightarrow> nat \<Rightarrow> nat \<Rightarrow> string" where
  \<comment> \<open>the local \<^verbatim>\<open>widget_id\<close> of \<^verbatim>\<open>add_widget\<close>\<close>
  "allocate_widget_id widget_name display_title dashboard_index counter =
     (if widget_name = ''tree_list''
        then ''treelist_d'' @ str_of_nat dashboard_index @ ''_'' @ str_of_nat counter
      else if widget_name = ''custom_list'' then ''custom_list_'' @ sanitize display_title
      else if widget_name = ''code_viewer'' then ''code_viewer_'' @ sanitize display_title
      else if widget_name = ''wysiwyg_editor'' then ''wysiwyg_editor_'' @ sanitize display_title
      else widget_name)"

definition allocate_dock_name :: "string list \<Rightarrow> string \<Rightarrow> string \<times> nat" where
  \<comment> \<open>the object name and the final value of \<^verbatim>\<open>counter\<close>\<close>
  "allocate_dock_name existing_names widget_name =
     next_dock_name existing_names (''dock_'' @ widget_name) (''dock_'' @ widget_name, 1)"

definition add_widget_in ::
  "env \<Rightarrow> nat \<Rightarrow> dashboard \<Rightarrow> widget_class \<Rightarrow> string \<Rightarrow> string \<Rightarrow> int \<Rightarrow> dashboard \<times> (exn + nat)" where
  \<comment> \<open>\<^verbatim>\<open>add_widget\<close> on the current dashboard, whose tab index is \<open>dashboard_index\<close>. The dock is a
      child of the dashboard from its construction on, so it stays one when a later step raises.
      The result is the raised exception or the reference of the returned dock.\<close>
  "add_widget_in e dashboard_index d widget_class widget_name widget_title widget_area =
     (case allocate_dock_name (map objectName (children d)) widget_name of
        (dock_name, counter) \<Rightarrow>
          let display_title = display_title_of widget_title counter;
              dock = \<lparr>dock_ref = new_ref d, objectName = dock_name, windowTitle = display_title,
                      dock_widget = None, place = qt_new_dock e dock_name\<rparr>
          in (case construct e widget_class (ctor_args_for widget_name display_title) of
                Inl err \<Rightarrow> (d\<lparr>children := children d @ [dock]\<rparr>, Inl err)
              | Inr widget0 \<Rightarrow>
                  (let widget_id = allocate_widget_id widget_name display_title dashboard_index counter;
                       widget = (if widget_name = ''tree_list'' then set_private_id widget_id widget0
                                 else set_widget_id widget_id widget0);
                       dock' = dock\<lparr>dock_widget := Some widget,
                                    place := (place dock)\<lparr>pl_area := widget_area\<rparr>\<rparr>;
                       d' = d\<lparr>children := children d @ [dock'],
                              qt_log := qt_log d @ [AddDockWidget dock_name]\<rparr>
                   in (if save_state_raises widget then (d', Inl AttributeError)
                       else (d', Inr (dock_ref dock))))))"

definition add_widget ::
  "env \<Rightarrow> main_window \<Rightarrow> widget_class \<Rightarrow> string \<Rightarrow> string \<Rightarrow> int \<Rightarrow> main_window \<times> (exn + nat)" where
  \<comment> \<open>\<^verbatim>\<open>add_widget\<close> itself: the current dashboard, or a new one when there is none\<close>
  "add_widget e mw widget_class widget_name widget_title widget_area =
     (let mw1 = (if currentIndex mw < length (tabs mw) then mw else add_dashboard e mw);
          i = currentIndex mw1
      in (case add_widget_in e i (tabs mw1 ! i) widget_class widget_name widget_title widget_area of
            (d', r) \<Rightarrow> (mw1\<lparr>tabs := (tabs mw1)[i := d']\<rparr>, r)))"

subsection \<open>\<^verbatim>\<open>save_layout\<close> and \<^verbatim>\<open>save_dashboard_layout\<close>\<close>

definition save_dock :: "dock \<Rightarrow> widget_info option" where
  \<comment> \<open>one round of the loop over the docks; \<open>None\<close>: the dock is skipped, because it has no
      widget or because \<^verbatim>\<open>module_name.startswith\<close> raises on \<^verbatim>\<open>None\<close>\<close>
  "save_dock dk =
     (case dock_widget dk of
        None \<Rightarrow> None
      | Some widget \<Rightarrow>
          (case w_widget_id widget of
             None \<Rightarrow> None
           | Some module_name \<Rightarrow>
               let title = (if startswith module_name ''custom_list''
                            then (case w_list_title widget of Some t \<Rightarrow> t | None \<Rightarrow> windowTitle dk)
                            else windowTitle dk)
               in Some \<lparr>wi_module_name = module_name,
                        wi_dock_name = Some (objectName dk),
                        wi_title = Some title,
                        wi_area = Some (pl_area (place dk)),
                        wi_floating = pl_floating (place dk),
                        wi_visible = True,
                        wi_geometry = Some (geometry_of (pl_geometry (place dk)))\<rparr>))"

definition save_dashboard_layout :: "env \<Rightarrow> dashboard \<Rightarrow> dashboard_info" where
  "save_dashboard_layout e dashboard =
     (let widget_instances = List.map_filter save_dock (children dashboard);
          state_hex = (if widget_instances \<noteq> [] then hex (qt_saveState e dashboard) else [])
      in \<lparr>di_title = None, di_state = Some state_hex, di_widgets = widget_instances\<rparr>)"

definition save_layout :: "env \<Rightarrow> main_window \<Rightarrow> saved_dashboards" where
  \<comment> \<open>the document written to \<^verbatim>\<open>("main_window", "dashboards")\<close>\<close>
  "save_layout e mw =
     Decoded (map (\<lambda>dashboard.
                DashboardDict ((save_dashboard_layout e dashboard)\<lparr>di_title := Some (tab_text dashboard)\<rparr>))
              (tabs mw))"


subsection \<open>Code that may raise\<close>

text \<open>
  A piece of code that may raise is a function from the state it starts in to the state it
  has reached and the exception, if any, that left it. A \<^verbatim>\<open>for\<close> loop ends with the first
  exception that leaves its body; a \<^verbatim>\<open>try\<close> whose \<^verbatim>\<open>except Exception\<close> clause only prints and
  goes on keeps the state reached and raises nothing.
\<close>

type_synonym 's raising = "'s \<times> exn option"

definition handled :: "('s \<Rightarrow> 's raising) \<Rightarrow> 's \<Rightarrow> 's raising" where
  \<comment> \<open>\<^verbatim>\<open>try: body\<close> \<^verbatim>\<open>except Exception as e: print(...)\<close>, followed or not by \<^verbatim>\<open>continue\<close>\<close>
  "handled body s = (fst (body s), None)"

fun for_each :: "('a \<Rightarrow> 's \<Rightarrow> 's raising) \<Rightarrow> 'a list \<Rightarrow> 's \<Rightarrow> 's raising" where
  "for_each body [] s = (s, None)"
| "for_each body (x # xs) s =
     (case body x s of
        (s', None) \<Rightarrow> for_each body xs s'
      | (s', Some err) \<Rightarrow> (s', Some err))"

subsection \<open>\<^verbatim>\<open>restore_dashboard_layout\<close>\<close>

definition base_module_of :: "string \<Rightarrow> string" where
  "base_module_of module_name =
     (if startswith module_name ''custom_list_'' then ''custom_list''
      else if startswith module_name ''code_viewer_'' then ''code_viewer''
      else if startswith module_name ''treelist_'' then ''tree_list''
      else if startswith module_name ''wysiwyg_editor_'' then ''wysiwyg_editor''
      else module_name)"

definition resolve :: "registry \<Rightarrow> string \<Rightarrow> (plugin_info \<times> widget_class) option" where
  \<comment> \<open>\<^verbatim>\<open>plugins.get(base_module)\<close>, refused when it has no \<^verbatim>\<open>widget_class\<close>\<close>
  "resolve reg base_module =
     (case map_of reg base_module of
        None \<Rightarrow> None
      | Some plugin_info \<Rightarrow>
          (case pi_widget_class plugin_info of
             None \<Rightarrow> None
           | Some widget_class \<Rightarrow> Some (plugin_info, widget_class)))"

definition RightDockWidgetArea :: int where
  "RightDockWidgetArea = 2"

definition attach_dock :: "env \<Rightarrow> string \<Rightarrow> string \<Rightarrow> widget \<Rightarrow> int \<Rightarrow> dashboard \<Rightarrow> dashboard" where
  \<comment> \<open>the dock the two special branches build by hand: \<^verbatim>\<open>QDockWidget(title, dashboard)\<close>,
      \<^verbatim>\<open>setObjectName\<close>, \<^verbatim>\<open>setWidget\<close>, \<^verbatim>\<open>addDockWidget\<close>\<close>
  "attach_dock e dock_name title widget area d =
     d\<lparr>children := children d @
          [\<lparr>dock_ref = new_ref d, objectName = dock_name, windowTitle = title,
            dock_widget = Some widget, place = (qt_new_dock e dock_name)\<lparr>pl_area := area\<rparr>\<rparr>],
       qt_log := qt_log d @ [AddDockWidget dock_name]\<rparr>"

definition assign_id_at :: "nat \<Rightarrow> string \<Rightarrow> dashboard \<Rightarrow> dashboard" where
  \<comment> \<open>\<^verbatim>\<open>widget.widget_id = module_name\<close> on the widget of the dock \<open>r\<close>\<close>
  "assign_id_at r module_name d =
     update_dock r (\<lambda>dk. dk\<lparr>dock_widget := map_option (set_widget_id module_name) (dock_widget dk)\<rparr>) d"

definition restore_instance_body ::
  "env \<Rightarrow> nat \<Rightarrow> widget_info \<Rightarrow> dashboard \<times> (nat \<times> widget_info) list
     \<Rightarrow> (dashboard \<times> (nat \<times> widget_info) list) raising" where
  \<comment> \<open>the body of the \<^verbatim>\<open>try\<close> in the loop that creates the widgets: the state is the dashboard
      and the list \<^verbatim>\<open>docks\<close>, which holds the references of the docks. A constructor that
      raises does so before the dock exists; \<^verbatim>\<open>add_widget\<close> raises with the dock in place.\<close>
  "restore_instance_body e dashboard_index instance s =
     (case s of (d, docks) \<Rightarrow>
        let module_name = wi_module_name instance in
        if module_name = [] then ((d, docks), None)
        else
          (let base_module = base_module_of module_name in
           case resolve (plugins e) base_module of
             None \<Rightarrow> ((d, docks), None)
           | Some (plugin_info, widget_class) \<Rightarrow>
               (let title = (case wi_title instance of
                               Some t \<Rightarrow> t
                             | None \<Rightarrow> (case pi_title plugin_info of Some t \<Rightarrow> t | None \<Rightarrow> ''Widget''));
                    area = (case wi_area instance of Some a \<Rightarrow> a | None \<Rightarrow> RightDockWidgetArea)
                in if base_module = ''custom_list'' then
                     (case construct e widget_class (ListTitle title (Some module_name)) of
                        Inl err \<Rightarrow> ((d, docks), Some err)
                      | Inr widget \<Rightarrow>
                          ((attach_dock e (case wi_dock_name instance of Some n \<Rightarrow> n | None \<Rightarrow> ''dock_custom_list'')
                              title widget area d,
                            docks @ [(new_ref d, instance)]), None))
                   else if base_module = ''tree_list'' then
                     (case construct e widget_class (Title title) of
                        Inl err \<Rightarrow> ((d, docks), Some err)
                      | Inr widget \<Rightarrow>
                          ((attach_dock e (case wi_dock_name instance of Some n \<Rightarrow> n | None \<Rightarrow> ''dock_tree_list'')
                              title (set_private_id module_name widget) area d,
                            docks @ [(new_ref d, instance)]), None))
                   else
                     (case add_widget_in e dashboard_index d widget_class base_module title area of
                        (d', Inl err) \<Rightarrow> ((d', docks), Some err)
                      | (d', Inr r) \<Rightarrow> ((assign_id_at r module_name d', docks @ [(r, instance)]), None)))))"

definition restore_instance ::
  "env \<Rightarrow> nat \<Rightarrow> widget_info \<Rightarrow> dashboard \<times> (nat \<times> widget_info) list
     \<Rightarrow> dashboard \<times> (nat \<times> widget_info) list" where
  \<comment> \<open>one round of that loop, \<^verbatim>\<open>try\<close> and \<^verbatim>\<open>except\<close>: the state it leaves\<close>
  "restore_instance e dashboard_index instance s =
     fst (handled (restore_instance_body e dashboard_index instance) s)"

definition create_widgets ::
  "env \<Rightarrow> nat \<Rightarrow> dashboard \<Rightarrow> widget_info list \<Rightarrow> dashboard \<times> (nat \<times> widget_info) list" where
  \<comment> \<open>the loop \<^verbatim>\<open>for instance in dashboard_info.get("widgets", [])\<close>: the state it leaves\<close>
  "create_widgets e dashboard_index d instances =
     fst (for_each (\<lambda>instance. handled (restore_instance_body e dashboard_index instance))
            instances (d, []))"

definition isVisible :: "nat \<Rightarrow> dashboard \<Rightarrow> bool" where
  \<comment> \<open>\<^verbatim>\<open>dock.isVisible()\<close>\<close>
  "isVisible r d = (case the_dock r d of Some dk \<Rightarrow> pl_visible (place dk) | None \<Rightarrow> False)"

definition show_dock :: "dock \<Rightarrow> dock" where
  "show_dock dk = dk\<lparr>place := (place dk)\<lparr>pl_visible := True\<rparr>\<rparr>"

definition setVisible :: "nat \<Rightarrow> dashboard \<Rightarrow> dashboard" where
  \<comment> \<open>\<^verbatim>\<open>dock.setVisible(True)\<close>\<close>
  "setVisible r d = (update_dock r show_dock d)\<lparr>qt_log := qt_log d @ [SetVisible r]\<rparr>"

definition setGeometry :: "nat \<Rightarrow> geometry_info \<Rightarrow> dashboard \<Rightarrow> exn + dashboard" where
  \<comment> \<open>\<^verbatim>\<open>dock.setGeometry(x, y, width, height)\<close>: the call raises when one of the four numbers
      is no C integer. Otherwise the toolkit is taken to grant the rectangle as asked; the
      size limits it may enforce on a dock are not modelled.\<close>
  "setGeometry r g d =
     (if fits_c_int (geom_x g) \<and> fits_c_int (geom_y g)
         \<and> fits_c_int (geom_width g) \<and> fits_c_int (geom_height g)
      then Inr ((update_dock r (\<lambda>dk. dk\<lparr>place := (place dk)\<lparr>pl_geometry := qrect_of g\<rparr>\<rparr>) d)
                  \<lparr>qt_log := qt_log d @ [SetGeometry r g]\<rparr>)
      else Inl OverflowError)"

definition raise_dock :: "nat \<Rightarrow> dashboard \<Rightarrow> dashboard" where
  \<comment> \<open>\<^verbatim>\<open>dock.raise_()\<close>: the toolkit moves a child widget that is raised to the end of the
      children of its parent, which is the list \<^verbatim>\<open>findChildren\<close> reads. Every dock is taken
      to be such a child of its dashboard.\<close>
  "raise_dock r d =
     d\<lparr>children := filter (\<lambda>dk. dock_ref dk \<noteq> r) (children d) @ filter (\<lambda>dk. dock_ref dk = r) (children d),
       qt_log := qt_log d @ [Raise r]\<rparr>"

definition restoreState :: "env \<Rightarrow> byte list \<Rightarrow> dashboard \<Rightarrow> dashboard" where
  \<comment> \<open>\<^verbatim>\<open>dashboard.restoreState(QByteArray(state_data))\<close>: the toolkit places every dock anew\<close>
  "restoreState e state_data d =
     d\<lparr>children := map (\<lambda>(i, dk). dk\<lparr>place := qt_restoreState e state_data (children d) i\<rparr>)
                       (enumerate 0 (children d)),
       qt_log := qt_log d @ [RestoreState state_data]\<rparr>"

definition reapply_visibility :: "(nat \<times> bool) list \<Rightarrow> dashboard \<Rightarrow> dashboard" where
  \<comment> \<open>\<^verbatim>\<open>for dock, was_visible in widget_states: if was_visible: dock.setVisible(True)\<close>\<close>
  "reapply_visibility widget_states d =
     fold (\<lambda>(r, was_visible) dd. if was_visible then setVisible r dd else dd) widget_states d"

definition restore_docking_state_body ::
  "env \<Rightarrow> string \<Rightarrow> (nat \<times> widget_info) list \<Rightarrow> dashboard \<Rightarrow> dashboard raising" where
  \<comment> \<open>the body of the \<^verbatim>\<open>try\<close> that applies the docking state: \<^verbatim>\<open>bytes.fromhex\<close> raises
      \<^verbatim>\<open>ValueError\<close> on a text that is no hex string\<close>
  "restore_docking_state_body e state_hex docks d =
     (case fromhex state_hex of
        None \<Rightarrow> (d, Some ValueError)
      | Some state_data \<Rightarrow>
          if state_data = [] then (d, None)
          else
            (let widget_states = map (\<lambda>(r, instance). (r, isVisible r d)) docks
             in (reapply_visibility widget_states (restoreState e state_data d), None)))"

definition restore_docking_state ::
  "env \<Rightarrow> dashboard_info \<Rightarrow> (nat \<times> widget_info) list \<Rightarrow> dashboard \<Rightarrow> dashboard" where
  \<comment> \<open>the block \<^verbatim>\<open>if docks and "state" in dashboard_info and dashboard_info["state"]\<close>, whose
      \<^verbatim>\<open>except\<close> clause only prints\<close>
  "restore_docking_state e dashboard_info docks d =
     (case di_state dashboard_info of
        None \<Rightarrow> d
      | Some state_hex \<Rightarrow>
          if docks = [] \<or> state_hex = [] then d
          else fst (handled (restore_docking_state_body e state_hex docks) d))"

definition normalize_geometry :: "geometry_info \<Rightarrow> geometry_info" where
  "normalize_geometry geom =
     \<lparr>geom_x = max 0 (geom_x geom),
      geom_y = max 0 (geom_y geom),
      geom_width = min (max 100 (geom_width geom)) 2000,
      geom_height = min (max 100 (geom_height geom)) 1200\<rparr>"

definition ensure_visible_body :: "nat \<times> widget_info \<Rightarrow> dashboard \<Rightarrow> dashboard raising" where
  \<comment> \<open>the body of the \<^verbatim>\<open>try\<close> in the last loop: normalise the geometry when the entry has
      one, show the dock and raise it. What follows (showing and refreshing the widget inside)
      changes nothing of the layout.\<close>
  "ensure_visible_body p d =
     (case p of (r, instance) \<Rightarrow>
        (case (case wi_geometry instance of
                 Some geom \<Rightarrow> setGeometry r (normalize_geometry geom) d
               | None \<Rightarrow> Inr d) of
           Inl err \<Rightarrow> (d, Some err)
         | Inr d1 \<Rightarrow> (raise_dock r (setVisible r d1), None)))"

definition ensure_visible :: "nat \<times> widget_info \<Rightarrow> dashboard \<Rightarrow> dashboard" where
  \<comment> \<open>one round of the last loop, \<^verbatim>\<open>try\<close> and \<^verbatim>\<open>except\<close>: the state it leaves\<close>
  "ensure_visible p d = fst (handled (ensure_visible_body p) d)"

definition restore_dashboard_layout_body ::
  "env \<Rightarrow> nat \<Rightarrow> dashboard \<Rightarrow> dashboard_info \<Rightarrow> dashboard raising" where
  \<comment> \<open>the body of the outermost \<^verbatim>\<open>try\<close> of \<^verbatim>\<open>restore_dashboard_layout\<close>; \<open>dashboard_index\<close> is the
      tab index of the dashboard, which the function makes the current one\<close>
  "restore_dashboard_layout_body e dashboard_index dashboard dashboard_info =
     (case for_each (\<lambda>instance. handled (restore_instance_body e dashboard_index instance))
             (di_widgets dashboard_info) (dashboard, []) of
        ((d, docks), Some err) \<Rightarrow> (d, Some err)
      | ((d, docks), None) \<Rightarrow>
          for_each (\<lambda>p. handled (ensure_visible_body p)) docks
            (restore_docking_state e dashboard_info docks d))"

definition restore_dashboard_layout :: "env \<Rightarrow> nat \<Rightarrow> dashboard \<Rightarrow> dashboard_info \<Rightarrow> dashboard" where
  \<comment> \<open>the dashboard \<^verbatim>\<open>restore_dashboard_layout\<close> leaves, with or without an exception caught by
      its outermost \<^verbatim>\<open>except\<close> clause\<close>
  "restore_dashboard_layout e dashboard_index dashboard dashboard_info =
     fst (restore_dashboard_layout_body e dashboard_index dashboard dashboard_info)"

definition restored_docks :: "env \<Rightarrow> nat \<Rightarrow> dashboard \<Rightarrow> dashboard_info \<Rightarrow> (nat \<times> widget_info) list" where
  \<comment> \<open>the list \<^verbatim>\<open>docks\<close> of \<^verbatim>\<open>restore_dashboard_layout\<close>; its length is the count the function prints\<close>
  "restored_docks e dashboard_index dashboard dashboard_info =
     snd (create_widgets e dashboard_index dashboard (di_widgets dashboard_info))"

subsection \<open>\<^verbatim>\<open>restore_layout\<close>\<close>

definition restore_entry :: "env \<Rightarrow> dashboard_entry \<Rightarrow> main_window \<times> nat \<Rightarrow> main_window \<times> nat" where
  \<comment> \<open>one round of the loop over the saved dashboards, with its \<^verbatim>\<open>try\<close>/\<^verbatim>\<open>except\<close>; the state is
      the window and \<^verbatim>\<open>restored_count\<close>\<close>
  "restore_entry e entry s =
     (case s of (mw, restored_count) \<Rightarrow>
        (case entry of
           NotADict \<Rightarrow> (mw, restored_count)
         | DashboardDict dashboard_info \<Rightarrow>
             (let title = (case di_title dashboard_info of Some t \<Rightarrow> t | None \<Rightarrow> ''Dashboard'');
                  dashboard = restore_dashboard_layout e (length (tabs mw)) (DashboardTab title) dashboard_info
              in (addTab dashboard mw, restored_count + 1))))"

definition show_all :: "dashboard \<Rightarrow> dashboard" where
  \<comment> \<open>\<^verbatim>\<open>for dock in current_dashboard.findChildren(QDockWidget): dock.setVisible(True)\<close>\<close>
  "show_all d = fold setVisible (map dock_ref (children d)) d"

definition restore_layout :: "env \<Rightarrow> saved_dashboards option \<Rightarrow> main_window \<Rightarrow> main_window" where
  \<comment> \<open>\<open>stored\<close> is the value under \<^verbatim>\<open>("main_window", "dashboards")\<close>; \<open>None\<close>: no such row, and
      \<^verbatim>\<open>get_widget_setting\<close> returns its default \<^verbatim>\<open>"[]"\<close>. The outermost \<^verbatim>\<open>except\<close> clause is
      never entered: whatever raises below is caught by a handler of its own.\<close>
  "restore_layout e stored mw =
     (case (case stored of None \<Rightarrow> Decoded [] | Some v \<Rightarrow> v) of
        Undecodable \<Rightarrow> add_dashboard e mw
      | Decoded dashboards \<Rightarrow>
          if dashboards = [] then add_dashboard e mw
          else
            (case fold (restore_entry e) dashboards (mw\<lparr>tabs := []\<rparr>, 0) of
               (mw1, restored_count) \<Rightarrow>
                 if restored_count = 0 then add_dashboard e mw1
                 else if tabs mw1 \<noteq> []
                   then mw1\<lparr>tabs := (tabs mw1)[0 := show_all (tabs mw1 ! 0)], currentIndex := 0\<rparr>
                   else mw1))"


section \<open>The custom list widget and its rows in the store\<close>

text \<open>
  \<^verbatim>\<open>DatabaseManager.get_widget_setting\<close> and \<^verbatim>\<open>set_widget_setting\<close> read and write one text per
  pair of widget id and key. The custom list keeps its columns and items there as JSON. A
  text that \<^verbatim>\<open>json.dumps\<close> wrote, or that parses as JSON, is represented by its document
  (\<open>Dumped\<close>; the literal \<^verbatim>\<open>"[]"\<close> is the empty list); any other text is \<open>Plain\<close>, and
  \<^verbatim>\<open>json.loads\<close> raises on it.
\<close>

datatype json =
    JNull | JBool bool | JInt int | JStr string
  | JList "json list" | JDict "(string \<times> json) list"

datatype stored_text = Dumped json | Plain string

type_synonym db = "string \<times> string \<Rightarrow> stored_text option"

definition get_widget_setting :: "db \<Rightarrow> string \<Rightarrow> string \<Rightarrow> stored_text option" where
  "get_widget_setting store widget_id key = store (widget_id, key)"

definition set_widget_setting :: "db \<Rightarrow> string \<Rightarrow> string \<Rightarrow> stored_text \<Rightarrow> db" where
  "set_widget_setting store widget_id key v = store((widget_id, key) \<mapsto> v)"

definition truthy :: "json \<Rightarrow> bool" where
  "truthy j =
     (case j of
        JNull \<Rightarrow> False
      | JBool b \<Rightarrow> b
      | JInt n \<Rightarrow> n \<noteq> 0
      | JStr s \<Rightarrow> s \<noteq> []
      | JList xs \<Rightarrow> xs \<noteq> []
      | JDict kvs \<Rightarrow> kvs \<noteq> [])"

definition nonempty_text :: "stored_text \<Rightarrow> bool" where
  \<comment> \<open>the truth value of a text read from the store; a JSON text is never empty\<close>
  "nonempty_text t = (case t of Dumped j \<Rightarrow> True | Plain s \<Rightarrow> s \<noteq> [])"

definition loads :: "stored_text \<Rightarrow> json option" where
  \<comment> \<open>\<^verbatim>\<open>json.loads\<close>; \<open>None\<close>: it raises\<close>
  "loads t = (case t of Dumped j \<Rightarrow> Some j | Plain s \<Rightarrow> None)"

record custom_list =
  base_widget_id :: string
  cl_widget_id :: string        \<comment> \<open>\<^verbatim>\<open>_widget_id\<close>\<close>
  list_title :: string
  default_column :: json
  columns :: json
  items :: json

definition load_columns :: "db \<Rightarrow> custom_list \<Rightarrow> custom_list" where
  "load_columns store w =
     (case get_widget_setting store (cl_widget_id w) ''columns'' of
        None \<Rightarrow> w\<lparr>columns := JList [default_column w]\<rparr>
      | Some saved_columns \<Rightarrow>
          if nonempty_text saved_columns
          then (case loads saved_columns of
                  None \<Rightarrow> w\<lparr>columns := JList [default_column w]\<rparr>
                | Some loaded_columns \<Rightarrow>
                    if truthy loaded_columns then w\<lparr>columns := loaded_columns\<rparr>
                    else w\<lparr>columns := JList [default_column w]\<rparr>)
          else w\<lparr>columns := JList [default_column w]\<rparr>)"

definition load_items :: "db \<Rightarrow> custom_list \<Rightarrow> custom_list" where
  "load_items store w =
     (case get_widget_setting store (cl_widget_id w) ''items'' of
        None \<Rightarrow> w
      | Some saved_items \<Rightarrow>
          if nonempty_text saved_items
          then (case loads saved_items of
                  None \<Rightarrow> w\<lparr>items := JList []\<rparr>
                | Some loaded_items \<Rightarrow> w\<lparr>items := loaded_items\<rparr>)
          else w)"

definition save_columns :: "db \<Rightarrow> custom_list \<Rightarrow> db" where
  "save_columns store w = set_widget_setting store (cl_widget_id w) ''columns'' (Dumped (columns w))"

definition save_items :: "db \<Rightarrow> custom_list \<Rightarrow> db" where
  "save_items store w = set_widget_setting store (cl_widget_id w) ''items'' (Dumped (items w))"

definition widget_id_setter :: "db \<Rightarrow> string \<Rightarrow> custom_list \<Rightarrow> custom_list" where
  \<comment> \<open>the property setter \<^verbatim>\<open>CustomListWidget.widget_id\<close>: it stores the new id and loads the
      state found under it\<close>
  "widget_id_setter store v w =
     (if v \<noteq> [] then load_items store (load_columns store (w\<lparr>cl_widget_id := v\<rparr>)) else w)"

definition edit_title :: "string \<times> bool \<Rightarrow> db \<times> custom_list \<Rightarrow> db \<times> custom_list" where
  \<comment> \<open>\<^verbatim>\<open>CustomListWidget.edit_title\<close>; the first argument is the answer of the title dialog\<close>
  "edit_title answer s =
     (case answer of (new_title, ok) \<Rightarrow>
      case s of (store, w) \<Rightarrow>
        if ok \<and> strip_nonempty new_title then
          (let old_widget_id = cl_widget_id w;
               w1 = w\<lparr>list_title := new_title\<rparr>;
               w2 = widget_id_setter store (base_widget_id w1 @ ''_'' @ sanitize (list_title w1)) w1;
               store1 = set_widget_setting store (base_widget_id w2) ''current_title'' (Plain (list_title w2))
           in if old_widget_id \<noteq> cl_widget_id w2
              then (let store2 = save_columns store1 w2;
                        store3 = save_items store2 w2;
                        store4 = set_widget_setting store3 old_widget_id ''columns'' (Dumped (JList []));
                        store5 = set_widget_setting store4 old_widget_id ''items'' (Dumped (JList []))
                    in (store5, w2))
              else (store1, w2))
        else (store, w))"


section \<open>Notions used to state the properties\<close>

definition longest_prefix_match :: "string list \<Rightarrow> string \<Rightarrow> string option" where
  \<comment> \<open>the rule the specification describes: among the registered module names that are a
      prefix of the persisted id, the longest one; \<open>None\<close> when there is none\<close>
  "longest_prefix_match registered widget_id =
     (case filter (startswith widget_id) registered of
        [] \<Rightarrow> None
      | n # ns \<Rightarrow> Some (fold (\<lambda>m best. if length best < length m then m else best) ns n))"

definition known_prefixes :: "string list" where
  \<comment> \<open>the four prefixes \<^verbatim>\<open>restore_dashboard_layout\<close> tests\<close>
  "known_prefixes = [''custom_list_'', ''code_viewer_'', ''treelist_'', ''wysiwyg_editor_'']"

definition is_creation :: "qt_call \<Rightarrow> bool" where
  "is_creation c = (case c of AddDockWidget n \<Rightarrow> True | _ \<Rightarrow> False)"

definition dock_class :: "dock \<Rightarrow> widget_class option" where
  "dock_class dk = map_option w_class (dock_widget dk)"

definition dock_id :: "dock \<Rightarrow> string option" where
  \<comment> \<open>the widget instance id a dock carries\<close>
  "dock_id dk = (case dock_widget dk of None \<Rightarrow> None | Some w \<Rightarrow> w_widget_id w)"

definition visible_at :: "nat \<Rightarrow> dashboard \<Rightarrow> bool" where
  \<comment> \<open>the dock \<open>r\<close> of the dashboard is visible\<close>
  "visible_at r d = isVisible r d"

definition resolvable :: "env \<Rightarrow> widget_info \<Rightarrow> bool" where
  \<comment> \<open>the entry passes the two \<^verbatim>\<open>continue\<close> tests of the creation loop\<close>
  "resolvable e instance =
     (wi_module_name instance \<noteq> []
      \<and> resolve (plugins e) (base_module_of (wi_module_name instance)) \<noteq> None)"

definition registered_class :: "env \<Rightarrow> widget_info \<Rightarrow> widget_class option" where
  "registered_class e instance =
     map_option snd (resolve (plugins e) (base_module_of (wi_module_name instance)))"

definition accepts :: "env \<Rightarrow> widget_class \<Rightarrow> string \<Rightarrow> bool" where
  \<comment> \<open>the constructor of the class takes the keywords the host passes for this module name\<close>
  "accepts e c widget_name =
     (case construct e c (ctor_args_for widget_name []) of Inl err \<Rightarrow> False | Inr w \<Rightarrow> True)"

definition consistent :: "env \<Rightarrow> bool" where
  \<comment> \<open>every registered class can be constructed the way the host constructs its module\<close>
  "consistent e =
     list_all (\<lambda>(name, info). case pi_widget_class info of None \<Rightarrow> True | Some c \<Rightarrow> accepts e c name)
       (plugins e)"

definition restorable :: "env \<Rightarrow> widget_info \<Rightarrow> bool" where
  \<comment> \<open>the entry resolves to a class whose construction and \<^verbatim>\<open>save_state\<close> go through and whose
      \<^verbatim>\<open>widget_id\<close> the host can set\<close>
  "restorable e instance =
     (let module_name = wi_module_name instance; base_module = base_module_of module_name in
      module_name \<noteq> [] \<and>
      (case resolve (plugins e) base_module of
         None \<Rightarrow> False
       | Some (plugin_info, c) \<Rightarrow>
           if base_module = ''custom_list'' then c = CustomListWidget
           else if base_module = ''tree_list'' then c = TreeListWidget
           else c \<noteq> TreeListWidget \<and> c \<noteq> CalculatorWidget \<and> c \<noteq> ScientificCalculatorWidget
                \<and> accepts e c base_module))"

definition applied_states :: "dashboard \<Rightarrow> byte list list" where
  \<comment> \<open>the blobs handed to \<^verbatim>\<open>restoreState\<close> on this dashboard\<close>
  "applied_states d =
     List.map_filter (\<lambda>c. case c of RestoreState b \<Rightarrow> Some b | _ \<Rightarrow> None) (qt_log d)"

definition layout_only :: "dashboard \<Rightarrow> dashboard \<Rightarrow> bool" where
  \<comment> \<open>from \<open>d\<close> to \<open>d'\<close> no dock was created, moved or given another widget: only layout calls
      were made\<close>
  "layout_only d d' =
     (tab_text d' = tab_text d
      \<and> map dock_ref (children d') = map dock_ref (children d)
      \<and> map dock_widget (children d') = map dock_widget (children d)
      \<and> list_all (\<lambda>c. \<not> is_creation c) (drop (length (qt_log d)) (qt_log d'))
      \<and> take (length (qt_log d)) (qt_log d') = qt_log d)"

definition place_at :: "geometry_info \<Rightarrow> dock \<Rightarrow> dock" where
  "place_at g dk = dk\<lparr>place := (place dk)\<lparr>pl_geometry := qrect_of g\<rparr>\<rparr>"

definition applies :: "widget_info \<Rightarrow> bool" where
  \<comment> \<open>the round of the last loop for this entry raises nothing: the entry has no geometry, or
      the normalised numbers fit\<close>
  "applies instance =
     (case wi_geometry instance of
        None \<Rightarrow> True
      | Some geom \<Rightarrow>
          (let g = normalize_geometry geom
           in fits_c_int (geom_x g) \<and> fits_c_int (geom_y g)
              \<and> fits_c_int (geom_width g) \<and> fits_c_int (geom_height g)))"

definition placed :: "widget_info \<Rightarrow> dock \<Rightarrow> dock" where
  \<comment> \<open>a dock after its round of the last loop of \<^verbatim>\<open>restore_dashboard_layout\<close>\<close>
  "placed instance dk =
     (if applies instance
      then show_dock (case wi_geometry instance of
                        Some geom \<Rightarrow> place_at (normalize_geometry geom) dk
                      | None \<Rightarrow> dk)
      else dk)"

definition round_calls :: "nat \<times> widget_info \<Rightarrow> qt_call list" where
  \<comment> \<open>the calls one round of the last loop of \<^verbatim>\<open>restore_dashboard_layout\<close> makes\<close>
  "round_calls p =
     (case p of (r, instance) \<Rightarrow>
        if applies instance
        then (case wi_geometry instance of
                Some geom \<Rightarrow> [SetGeometry r (normalize_geometry geom)]
              | None \<Rightarrow> []) @ [SetVisible r, Raise r]
        else [])"

definition calls_on :: "nat \<Rightarrow> qt_call list \<Rightarrow> qt_call list" where
  \<comment> \<open>the calls made on the dock \<open>r\<close>, in order\<close>
  "calls_on r cs =
     filter (\<lambda>c. case c of
                    SetGeometry r' g \<Rightarrow> r' = r
                  | SetVisible r' \<Rightarrow> r' = r
                  | Raise r' \<Rightarrow> r' = r
                  | _ \<Rightarrow> False) cs"

text \<open>
  What the specification calls the resolution of an entry, said without the code: a persisted
  id that begins with one of four prefixes is of the kind that prefix stands for, any other id
  is its own kind, and the entry is registered when the registry has a plugin with a widget
  class under its kind.
\<close>

definition known_kinds :: "(string \<times> string) list" where
  "known_kinds =
     [(''custom_list_'', ''custom_list''), (''code_viewer_'', ''code_viewer''),
      (''treelist_'', ''tree_list''), (''wysiwyg_editor_'', ''wysiwyg_editor'')]"

definition kind_of_id :: "string \<Rightarrow> string" where
  "kind_of_id module_name =
     (case find (\<lambda>(prefix, kind). startswith module_name prefix) known_kinds of
        Some (prefix, kind) \<Rightarrow> kind
      | None \<Rightarrow> module_name)"

definition registered_for :: "registry \<Rightarrow> string \<Rightarrow> widget_class option" where
  \<comment> \<open>the widget class registered for a persisted id; \<open>None\<close>: the entry is not registered\<close>
  "registered_for reg module_name =
     (if module_name = [] then None
      else (case map_of reg (kind_of_id module_name) of
              None \<Rightarrow> None
            | Some info \<Rightarrow> pi_widget_class info))"

definition registered :: "env \<Rightarrow> widget_info \<Rightarrow> bool" where
  "registered e instance = (registered_for (plugins e) (wi_module_name instance) \<noteq> None)"

definition counted :: "env \<Rightarrow> widget_info \<Rightarrow> bool" where
  \<comment> \<open>the registered entries, without those a calculator is registered for under a kind that
      goes through \<^verbatim>\<open>add_widget\<close>: the \<^verbatim>\<open>save_state\<close> of a calculator raises there\<close>
  "counted e instance =
     (case registered_for (plugins e) (wi_module_name instance) of
        None \<Rightarrow> False
      | Some c \<Rightarrow>
          kind_of_id (wi_module_name instance) = ''custom_list''
          \<or> kind_of_id (wi_module_name instance) = ''tree_list''
          \<or> (c \<noteq> CalculatorWidget \<and> c \<noteq> ScientificCalculatorWidget))"

definition restores :: "env \<Rightarrow> widget_info \<Rightarrow> bool" where
  \<comment> \<open>the entry is registered with a class the host can construct for its kind, whose
      \<^verbatim>\<open>widget_id\<close> the host can set and whose \<^verbatim>\<open>save_state\<close> goes through\<close>
  "restores e instance =
     (case registered_for (plugins e) (wi_module_name instance) of
        None \<Rightarrow> False
      | Some c \<Rightarrow>
          (let kind = kind_of_id (wi_module_name instance)
           in if kind = ''custom_list'' then c = CustomListWidget
              else if kind = ''tree_list'' then c = TreeListWidget
              else c \<noteq> TreeListWidget \<and> c \<noteq> CalculatorWidget \<and> c \<noteq> ScientificCalculatorWidget
                   \<and> accepts e c kind))"

section \<open>Sample data\<close>

definition sample_place :: placement where
  "sample_place =
     \<lparr>pl_area = 2, pl_floating = False, pl_visible = True,
      pl_geometry = \<lparr>rect_x = 0, rect_y = 0, rect_width = 100, rect_height = 30\<rparr>\<rparr>"

definition sample_env :: env where
  \<comment> \<open>the registry of the sources, a window not yet on screen, constructors that find their first
      identifier taken, and a toolkit that shows a new dock and whose \<^verbatim>\<open>restoreState\<close> hides
      every dock\<close>
  "sample_env =
     \<lparr>plugins = builtin_plugins, window_visible = False,
      dashboard_dialog = ([], False), title_dialog = ([], False),
      probed_id = (\<lambda>c. ''web_view_1''),
      qt_new_dock = (\<lambda>n. sample_place),
      qt_saveState = (\<lambda>d. [0x0a, 0x0b]),
      qt_restoreState = (\<lambda>blob ds i. (place (ds ! i))\<lparr>pl_visible := False\<rparr>)\<rparr>"

definition empty_window :: main_window where
  "empty_window = \<lparr>tabs = [], currentIndex = 0\<rparr>"

definition hidden_clock :: dock where
  \<comment> \<open>a clock the user has hidden\<close>
  "hidden_clock =
     \<lparr>dock_ref = 0, objectName = ''dock_clock'', windowTitle = ''Clock'',
      dock_widget = Some \<lparr>w_class = ClockWidget, w_widget_id = Some ''clock'', w_list_title = None\<rparr>,
      place = sample_place\<lparr>pl_visible := False\<rparr>\<rparr>"

definition groceries :: widget_info where
  "groceries =
     \<lparr>wi_module_name = ''custom_list_groceries'', wi_dock_name = Some ''dock_custom_list'',
      wi_title = Some ''Groceries'', wi_area = Some 2, wi_floating = False, wi_visible = True,
      wi_geometry = Some \<lparr>geom_x = - 5, geom_y = 10, geom_width = 5000, geom_height = 50\<rparr>\<rparr>"

definition ghost :: widget_info where
  \<comment> \<open>an entry whose module is not registered\<close>
  "ghost =
     \<lparr>wi_module_name = ''ghost'', wi_dock_name = Some ''dock_ghost'',
      wi_title = Some ''Ghost'', wi_area = Some 2, wi_floating = False, wi_visible = True,
      wi_geometry = Some \<lparr>geom_x = 0, geom_y = 0, geom_width = 300, geom_height = 200\<rparr>\<rparr>"

definition work_record :: dashboard_info where
  "work_record = \<lparr>di_title = Some ''Work'', di_state = Some ''0a0b'', di_widgets = [ghost, groceries]\<rparr>"

definition title_column :: json where
  \<comment> \<open>\<^verbatim>\<open>CustomListWidget.default_column\<close>\<close>
  "title_column = JDict [(''id'', JStr ''title''), (''name'', JStr ''Title''),
                         (''type'', JStr ''text''), (''sortable'', JBool True)]"

definition price_column :: json where
  "price_column = JDict [(''name'', JStr ''Price''), (''type'', JStr ''text''),
                         (''sortable'', JBool True), (''id'', JStr ''price'')]"

definition foo_columns :: json where
  "foo_columns = JList [title_column, price_column]"

definition foo_items :: json where
  "foo_items = JList [JDict [(''title'', JStr ''Milk''), (''price'', JStr ''2'')]]"

definition foo_list :: custom_list where
  \<comment> \<open>a custom list titled Foo with a second column and one item, as it stands in the store\<close>
  "foo_list = \<lparr>base_widget_id = ''custom_list'', cl_widget_id = ''custom_list_foo'',
               list_title = ''Foo'', default_column = title_column,
               columns = foo_columns, items = foo_items\<rparr>"

definition foo_store :: db where
  "foo_store = [(''custom_list_foo'', ''columns'') \<mapsto> Dumped foo_columns,
                (''custom_list_foo'', ''items'') \<mapsto> Dumped foo_items]"

section \<open>Further notions and sample data\<close>

definition saved_titles :: "dashboard_entry list \<Rightarrow> string list" where
  \<comment> \<open>the titles under which \<^verbatim>\<open>restore_layout\<close> opens the records of a document, in order\<close>
  "saved_titles es =
     List.map_filter
       (\<lambda>entry. case entry of
                   NotADict \<Rightarrow> None
                 | DashboardDict info \<Rightarrow> Some (case di_title info of Some t \<Rightarrow> t | None \<Rightarrow> ''Dashboard''))
       es"

definition ghost_record :: dashboard_info where
  \<comment> \<open>a record that is not empty and from which no widget can be restored\<close>
  "ghost_record = \<lparr>di_title = Some ''Work'', di_state = Some ''0a0b'', di_widgets = [ghost]\<rparr>"

definition one_list :: dashboard where
  \<comment> \<open>a dashboard after one custom list was added with the title of the plugin\<close>
  "one_list =
     \<lparr>tab_text = ''Main'',
      children = [\<lparr>dock_ref = 0, objectName = ''dock_custom_list'', windowTitle = ''Custom List'',
                   dock_widget = Some (custom_list_widget ''Custom List'' None),
                   place = sample_place\<rparr>],
      qt_log = [AddDockWidget ''dock_custom_list'']\<rparr>"

definition saved_record :: "env \<Rightarrow> dashboard \<Rightarrow> dashboard_info" where
  \<comment> \<open>the record \<^verbatim>\<open>save_layout\<close> writes for one dashboard\<close>
  "saved_record e d = (save_dashboard_layout e d)\<lparr>di_title := Some (tab_text d)\<rparr>"

definition restorable_dock :: "env \<Rightarrow> dock \<Rightarrow> bool" where
  \<comment> \<open>the dock is saved, and its saved entry is restorable\<close>
  "restorable_dock e dk =
     (case save_dock dk of None \<Rightarrow> False | Some instance \<Rightarrow> restorable e instance)"

definition well_formed :: "env \<Rightarrow> main_window \<Rightarrow> bool" where
  \<comment> \<open>a workspace with at least one dashboard, all of whose docks are restorable\<close>
  "well_formed e mw =
     (tabs mw \<noteq> [] \<and> list_all (\<lambda>d. list_all (restorable_dock e) (children d)) (tabs mw))"

definition observe_dock :: "dock \<Rightarrow> string option \<times> geometry_info" where
  "observe_dock dk = (dock_id dk, geometry_of (pl_geometry (place dk)))"

definition observe_dashboard :: "dashboard \<Rightarrow> string \<times> (string option \<times> geometry_info) list" where
  "observe_dashboard d = (tab_text d, map observe_dock (children d))"

definition observe :: "main_window \<Rightarrow> (string \<times> (string option \<times> geometry_info) list) list" where
  \<comment> \<open>what the round trip is asked to keep: the dashboards in order with their titles, and in
      each the widget instance ids in order with their geometry\<close>
  "observe mw = map observe_dashboard (tabs mw)"

definition clamped ::
  "string \<times> (string option \<times> geometry_info) list \<Rightarrow> string \<times> (string option \<times> geometry_info) list" where
  "clamped obs = (case obs of (t, ws) \<Rightarrow> (t, map (\<lambda>(i, g). (i, normalize_geometry g)) ws))"

definition blob_to_apply :: "env \<Rightarrow> dashboard \<Rightarrow> byte list list" where
  \<comment> \<open>the docking-state blob of a dashboard, when it has docks and the blob is not empty\<close>
  "blob_to_apply e d = (if children d = [] \<or> qt_saveState e d = [] then [] else [qt_saveState e d])"

definition wide_clock :: dock where
  \<comment> \<open>a floating clock 5000 pixels wide\<close>
  "wide_clock =
     \<lparr>dock_ref = 0, objectName = ''dock_clock'', windowTitle = ''Clock'',
      dock_widget = Some \<lparr>w_class = ClockWidget, w_widget_id = Some ''clock'', w_list_title = None\<rparr>,
      place = \<lparr>pl_area = 2, pl_floating = True, pl_visible = True,
               pl_geometry = \<lparr>rect_x = 10, rect_y = 20, rect_width = 5000, rect_height = 600\<rparr>\<rparr>\<rparr>"

definition wide_window :: main_window where
  "wide_window =
     \<lparr>tabs = [\<lparr>tab_text = ''Main'', children = [wide_clock], qt_log = [AddDockWidget ''dock_clock'']\<rparr>],
      currentIndex = 0\<rparr>"

definition calculator_entry :: widget_info where
  \<comment> \<open>a saved calculator\<close>
  "calculator_entry =
     \<lparr>wi_module_name = ''calculator'', wi_dock_name = Some ''dock_calculator'',
      wi_title = Some ''Calculator'', wi_area = Some 2, wi_floating = False, wi_visible = True,
      wi_geometry = Some \<lparr>geom_x = 0, geom_y = 0, geom_width = 300, geom_height = 400\<rparr>\<rparr>"

definition mixed_record :: dashboard_info where
  \<comment> \<open>a record with an entry that is not registered, a custom list and a calculator\<close>
  "mixed_record =
     \<lparr>di_title = Some ''Work'', di_state = Some ''0a0b'',
      di_widgets = [ghost, groceries, calculator_entry]\<rparr>"

definition startup_env :: env where
  \<comment> \<open>as \<open>sample_env\<close>, with a toolkit that does not show a new dock: the main window is not
      yet on screen\<close>
  "startup_env = sample_env\<lparr>qt_new_dock := (\<lambda>n. sample_place\<lparr>pl_visible := False\<rparr>)\<rparr>"

definition far_clock :: widget_info where
  \<comment> \<open>a saved clock whose x is one above the largest C integer\<close>
  "far_clock =
     \<lparr>wi_module_name = ''clock'', wi_dock_name = Some ''dock_clock'',
      wi_title = Some ''Clock'', wi_area = Some 2, wi_floating = False, wi_visible = True,
      wi_geometry = Some \<lparr>geom_x = 2147483648, geom_y = 0, geom_width = 300, geom_height = 200\<rparr>\<rparr>"

definition far_record :: dashboard_info where
  "far_record = \<lparr>di_title = Some ''Work'', di_state = Some [], di_widgets = [far_clock]\<rparr>"

section \<open>Properties\<close>

subsection \<open>Auxiliary facts: strings, hex, constructors\<close>

lemma set_map_filter: "set (List.map_filter f xs) = {y. \<exists>x\<in>set xs. f x = Some y}"
  by (induction xs) (auto simp: List.map_filter_def)

lemma save_dock_visible: "save_dock dk = Some info \<Longrightarrow> wi_visible info"
  by (auto simp: save_dock_def Let_def split: option.splits)

lemma sanitize_Bar: "sanitize ''Bar'' = ''bar''"
  by (simp add: sanitize_def replace_space_def lower_def lower_char_def)

lemma hexval_hexdigit: "n < 16 \<Longrightarrow> hexval (hexdigit n) = Some n"
proof -
  assume "n < 16"
  then have "n \<in> {0,1,2,3,4,5,6,7,8,9,10,11,12,13,14,15}" by simp arith
  then show ?thesis by (auto simp: hexval_def hexdigit_def)
qed

lemma hexdigit_not_space: "n < 16 \<Longrightarrow> \<not> is_ascii_space (hexdigit n)"
proof -
  assume "n < 16"
  then have "n \<in> {0,1,2,3,4,5,6,7,8,9,10,11,12,13,14,15}" by simp arith
  then show ?thesis by (auto simp: is_ascii_space_def hexdigit_def)
qed

lemma fromhex_hex: "fromhex (hex bs) = Some bs"
proof (induction bs)
  case Nil
  then show ?case by (simp add: hex_def)
next
  case (Cons b bs)
  have hi: "unat b div 16 < 16"
  proof -
    have "unat b < 256" using unsigned_less [of b] by simp
    then show ?thesis by simp
  qed
  have lo: "unat b mod 16 < 16" by simp
  from Cons have "fromhex (hex bs) = Some bs" .
  then show ?case
    using hexval_hexdigit [OF hi] hexval_hexdigit [OF lo] hexdigit_not_space [OF hi]
    by (simp add: hex_def hex_byte_def)
qed

lemma hex_empty: "hex bs = [] \<longleftrightarrow> bs = []"
  by (cases bs) (simp_all add: hex_def hex_byte_def)

lemma fromhex_0a0b: "fromhex ''0a0b'' = Some [0x0a, 0x0b]"
  by (simp add: hexval_def is_ascii_space_def)

lemma groceries_base: "base_module_of ''custom_list_groceries'' = ''custom_list''"
  by (simp add: base_module_of_def startswith_def)

lemma ghost_base: "base_module_of ''ghost'' = ''ghost''"
  by (simp add: base_module_of_def startswith_def)

lemma construct_class: "construct e c args = Inr w \<Longrightarrow> w_class w = c"
  by (cases c; cases args)
     (auto simp: construct_def prompted_def titled_def custom_list_widget_def split: if_splits prod.splits)

lemma set_widget_id_class [simp]: "w_class (set_widget_id v w) = w_class w"
  by (simp add: set_widget_id_def)

lemma set_private_id_class [simp]: "w_class (set_private_id v w) = w_class w"
  by (simp add: set_private_id_def)

lemma accepts_any_title:
  "accepts e c n \<Longrightarrow> \<exists>w. construct e c (ctor_args_for n t) = Inr w"
  by (cases c)
     (auto simp: accepts_def construct_def ctor_args_for_def prompted_def split: if_splits prod.splits sum.splits)

lemma accepts_custom_list:
  "accepts e c ''custom_list'' \<Longrightarrow> construct e c (ListTitle t wid) = Inr (custom_list_widget t wid)"
  by (cases c)
     (auto simp: accepts_def construct_def ctor_args_for_def prompted_def split: if_splits prod.splits sum.splits)

lemma accepts_tree_list:
  "accepts e c ''tree_list'' \<Longrightarrow> \<exists>w. construct e c (Title t) = Inr w"
  using accepts_any_title [of e c "''tree_list''" t] by (simp add: ctor_args_for_def)

lemma consistent_accepts:
  "consistent e \<Longrightarrow> resolve (plugins e) b = Some (info, c) \<Longrightarrow> accepts e c b"
proof -
  assume con: "consistent e" and res: "resolve (plugins e) b = Some (info, c)"
  from res have m: "map_of (plugins e) b = Some info" and cl: "pi_widget_class info = Some c"
    by (auto simp: resolve_def split: option.splits)
  from m have "(b, info) \<in> set (plugins e)" by (rule map_of_SomeD)
  with con cl show ?thesis
    by (auto simp: consistent_def list_all_iff)
qed

subsection \<open>Auxiliary facts: C integers, references, loops\<close>

lemma sint_fits: "fits_c_int (sint (w :: c_int))"
  using sint_ge [of w] sint_lt [of w] by (simp add: fits_c_int_def)

lemma fits_sint: "fits_c_int v \<Longrightarrow> sint (word_of_int v :: c_int) = v"
  by (simp add: fits_c_int_def sint_sbintrunc' signed_take_bit_int_eq_self)

lemma geometry_of_qrect_of:
  "fits_c_int (geom_x g) \<Longrightarrow> fits_c_int (geom_y g) \<Longrightarrow> fits_c_int (geom_width g)
   \<Longrightarrow> fits_c_int (geom_height g) \<Longrightarrow> geometry_of (qrect_of g) = g"
  by (simp add: geometry_of_def qrect_of_def fits_sint)

lemma normalize_fits:
  "fits_c_int (geom_width (normalize_geometry g))" "fits_c_int (geom_height (normalize_geometry g))"
  "fits_c_int (geom_x g) \<Longrightarrow> fits_c_int (geom_x (normalize_geometry g))"
  "fits_c_int (geom_y g) \<Longrightarrow> fits_c_int (geom_y (normalize_geometry g))"
  by (auto simp: normalize_geometry_def fits_c_int_def min_def max_def)

lemma applies_saved: "wi_geometry inst = Some (geometry_of q) \<Longrightarrow> applies inst"
  by (simp add: applies_def Let_def normalize_fits) (simp add: normalize_fits geometry_of_def sint_fits)

lemma find_filter_keep: "(\<And>x. P x \<Longrightarrow> Q x) \<Longrightarrow> find P (filter Q xs) = find P xs"
  by (induction xs) auto

lemma find_filter_none: "(\<And>x. P x \<Longrightarrow> \<not> Q x) \<Longrightarrow> find P (filter Q xs) = None"
  by (induction xs) auto

lemma find_append_case:
  "find P (xs @ ys) = (case find P xs of None \<Rightarrow> find P ys | Some x \<Rightarrow> Some x)"
  by (induction xs) auto

lemma find_map_same:
  "(\<And>x. P (f x) = P x) \<Longrightarrow> find P (map f xs) = map_option f (find P xs)"
  by (induction xs) auto

lemma find_None_set: "find P xs = None \<longleftrightarrow> (\<forall>x \<in> set xs. \<not> P x)"
  by (induction xs) auto

lemma find_Some_set: "find P xs = Some x \<Longrightarrow> x \<in> set xs \<and> P x"
  by (induction xs) (auto split: if_splits)

lemma for_each_handled:
  "for_each (\<lambda>x. handled (body x)) xs s = (fold (\<lambda>x s. fst (handled (body x) s)) xs s, None)"
  by (induction xs arbitrary: s) (simp_all add: handled_def)

lemma create_widgets_fold:
  "create_widgets e idx d ws = fold (restore_instance e idx) ws (d, [])"
proof -
  have "(\<lambda>x s. fst (handled (restore_instance_body e idx x) s)) = restore_instance e idx"
    by (intro ext) (simp add: restore_instance_def)
  then show ?thesis
    by (simp add: create_widgets_def for_each_handled)
qed

lemma restore_dashboard_layout_body_fold:
  "restore_dashboard_layout_body e idx d info
     = (case create_widgets e idx d (di_widgets info) of
          (d1, docks) \<Rightarrow> (fold ensure_visible docks (restore_docking_state e info docks d1), None))"
proof -
  have ev: "(\<lambda>x s. fst (handled (ensure_visible_body x) s)) = ensure_visible"
    by (intro ext) (simp add: ensure_visible_def)
  obtain d1 docks where cw: "create_widgets e idx d (di_widgets info) = (d1, docks)"
    by (cases "create_widgets e idx d (di_widgets info)")
  then have "for_each (\<lambda>instance. handled (restore_instance_body e idx instance)) (di_widgets info) (d, [])
               = ((d1, docks), None)"
    by (simp add: create_widgets_def for_each_handled)
  with cw show ?thesis
    by (simp add: restore_dashboard_layout_body_def for_each_handled ev)
qed

lemma restore_dashboard_layout_fold:
  "restore_dashboard_layout e idx d info
     = (case create_widgets e idx d (di_widgets info) of
          (d1, docks) \<Rightarrow> fold ensure_visible docks (restore_docking_state e info docks d1))"
  by (simp add: restore_dashboard_layout_def restore_dashboard_layout_body_fold split: prod.splits)

lemma restore_instance_unfold:
  "restore_instance e dashboard_index instance (d, docks) =
     (let module_name = wi_module_name instance in
        if module_name = [] then (d, docks)
        else
          (let base_module = base_module_of module_name in
           case resolve (plugins e) base_module of
             None \<Rightarrow> (d, docks)
           | Some (plugin_info, widget_class) \<Rightarrow>
               (let title = (case wi_title instance of
                               Some t \<Rightarrow> t
                             | None \<Rightarrow> (case pi_title plugin_info of Some t \<Rightarrow> t | None \<Rightarrow> ''Widget''));
                    area = (case wi_area instance of Some a \<Rightarrow> a | None \<Rightarrow> RightDockWidgetArea)
                in if base_module = ''custom_list'' then
                     (case construct e widget_class (ListTitle title (Some module_name)) of
                        Inl err \<Rightarrow> (d, docks)
                      | Inr widget \<Rightarrow>
                          (attach_dock e (case wi_dock_name instance of Some n \<Rightarrow> n | None \<Rightarrow> ''dock_custom_list'')
                             title widget area d,
                           docks @ [(new_ref d, instance)]))
                   else if base_module = ''tree_list'' then
                     (case construct e widget_class (Title title) of
                        Inl err \<Rightarrow> (d, docks)
                      | Inr widget \<Rightarrow>
                          (attach_dock e (case wi_dock_name instance of Some n \<Rightarrow> n | None \<Rightarrow> ''dock_tree_list'')
                             title (set_private_id module_name widget) area d,
                           docks @ [(new_ref d, instance)]))
                   else
                     (case add_widget_in e dashboard_index d widget_class base_module title area of
                        (d', Inl err) \<Rightarrow> (d', docks)
                      | (d', Inr r) \<Rightarrow> (assign_id_at r module_name d', docks @ [(r, instance)])))))"
  by (simp add: restore_instance_def restore_instance_body_def handled_def Let_def
           split: option.splits sum.splits prod.splits)

lemma new_ref_fold:
  "fold (\<lambda>dk n. max n (Suc (dock_ref dk))) xs m = max m (fold (\<lambda>dk n. max n (Suc (dock_ref dk))) xs 0)"
proof (induction xs arbitrary: m)
  case Nil
  then show ?case by simp
next
  case (Cons x xs)
  from Cons.IH [of "max m (Suc (dock_ref x))"] Cons.IH [of "Suc (dock_ref x)"]
  show ?case by simp
qed

lemma new_ref_above: "dk \<in> set (children d) \<Longrightarrow> dock_ref dk < new_ref d"
proof -
  have "dk \<in> set xs \<Longrightarrow> dock_ref dk < fold (\<lambda>dk n. max n (Suc (dock_ref dk))) xs m" for xs m
  proof (induction xs arbitrary: m)
    case Nil
    then show ?case by simp
  next
    case (Cons x xs)
    show ?case
    proof (cases "dk = x")
      case True
      from new_ref_fold [of xs "max m (Suc (dock_ref x))"] True show ?thesis by simp
    next
      case False
      with Cons.prems have "dk \<in> set xs" by simp
      from Cons.IH [OF this] show ?thesis by simp
    qed
  qed
  then show "dk \<in> set (children d) \<Longrightarrow> dock_ref dk < new_ref d"
    by (simp add: new_ref_def)
qed

lemma new_ref_append:
  "children d' = children d @ [dk] \<Longrightarrow> new_ref d' = max (new_ref d) (Suc (dock_ref dk))"
  by (simp add: new_ref_def)

lemma new_ref_fresh: "the_dock (new_ref d) d = None"
  by (force simp: the_dock_def find_None_set dest: new_ref_above)

lemma new_ref_same_refs:
  assumes "map dock_ref (children d') = map dock_ref (children d)"
  shows "new_ref d' = new_ref d"
proof -
  have eq: "fold (\<lambda>dk n. max n (Suc (dock_ref dk))) xs m = fold (\<lambda>r n. max n (Suc r)) (map dock_ref xs) m"
    for xs :: "dock list" and m
    by (induction xs arbitrary: m) simp_all
  have "new_ref d' = fold (\<lambda>r n. max n (Suc r)) (map dock_ref (children d')) 0"
    by (simp only: new_ref_def eq)
  also have "\<dots> = fold (\<lambda>r n. max n (Suc r)) (map dock_ref (children d)) 0"
    by (simp only: assms)
  also have "\<dots> = new_ref d"
    by (simp only: new_ref_def eq)
  finally show ?thesis .
qed

lemma update_dock_other [simp]:
  "tab_text (update_dock r f d) = tab_text d" "qt_log (update_dock r f d) = qt_log d"
  by (simp_all add: update_dock_def)

lemma update_dock_absent:
  "\<forall>dk \<in> set (children d). dock_ref dk \<noteq> r \<Longrightarrow> update_dock r f d = d"
proof -
  assume "\<forall>dk \<in> set (children d). dock_ref dk \<noteq> r"
  then have "map (\<lambda>dk. if dock_ref dk = r then f dk else dk) (children d) = children d"
    by (induction "children d") (auto intro: map_idI)
  then show ?thesis by (simp add: update_dock_def)
qed

lemma update_dock_last:
  "children d = xs @ [dk] \<Longrightarrow> dock_ref dk = r \<Longrightarrow> \<forall>x \<in> set xs. dock_ref x \<noteq> r
   \<Longrightarrow> children (update_dock r f d) = xs @ [f dk]"
proof -
  assume c: "children d = xs @ [dk]" and r: "dock_ref dk = r" and o: "\<forall>x \<in> set xs. dock_ref x \<noteq> r"
  from o have "map (\<lambda>dk. if dock_ref dk = r then f dk else dk) xs = xs"
    by (auto intro: map_idI)
  with c r show ?thesis by (simp add: update_dock_def)
qed

lemma the_dock_update:
  "(\<And>dk. dock_ref (f dk) = dock_ref dk) \<Longrightarrow>
   the_dock r' (update_dock r f d) = map_option (if r' = r then f else id) (the_dock r' d)"
proof -
  assume keep: "\<And>dk. dock_ref (f dk) = dock_ref dk"
  have "find (\<lambda>dk. dock_ref dk = r') (map (\<lambda>dk. if dock_ref dk = r then f dk else dk) xs)
          = map_option (if r' = r then f else id) (find (\<lambda>dk. dock_ref dk = r') xs)" for xs
    by (induction xs) (auto simp: keep)
  then show ?thesis by (simp add: the_dock_def update_dock_def)
qed

lemma the_dock_append:
  "children d' = children d @ new \<Longrightarrow> the_dock r d = Some dk \<Longrightarrow> the_dock r d' = Some dk"
  by (simp add: the_dock_def find_append_case)

lemma the_dock_same_children: "children d' = children d \<Longrightarrow> the_dock r d' = the_dock r d"
  by (simp add: the_dock_def)

subsection \<open>Auxiliary facts: the creation loop\<close>

lemma add_widget_in_shape:
  assumes "add_widget_in e idx d c n t a = (d', r)"
  shows "\<exists>dk cs. children d' = children d @ [dk] \<and> dock_ref dk = new_ref d \<and> tab_text d' = tab_text d
           \<and> qt_log d' = qt_log d @ cs \<and> list_all is_creation cs
           \<and> (\<forall>i. r = Inr i \<longrightarrow> i = new_ref d \<and> dock_class dk = Some c)"
  using assms
  by (auto simp: add_widget_in_def Let_def is_creation_def dock_class_def
           split: prod.splits sum.splits if_splits dest: construct_class)

lemma add_widget_in_accepted:
  assumes "add_widget_in e idx d c n t a = (d', r)" and "accepts e c n"
  shows "\<exists>dk. children d' = children d @ [dk] \<and> dock_ref dk = new_ref d \<and> dock_class dk = Some c"
proof -
  obtain dn cnt where al: "allocate_dock_name (map objectName (children d)) n = (dn, cnt)"
    by (cases "allocate_dock_name (map objectName (children d)) n")
  from accepts_any_title [OF assms(2), of "display_title_of t cnt"]
  obtain w where w: "construct e c (ctor_args_for n (display_title_of t cnt)) = Inr w" by blast
  from construct_class [OF w] have "w_class w = c" .
  with assms(1) al w show ?thesis
    by (auto simp: add_widget_in_def Let_def dock_class_def split: if_splits)
qed

lemma assign_id_at_new:
  assumes "children d1 = children d @ [dk]" and "dock_ref dk = new_ref d"
  shows "children (assign_id_at (new_ref d) m d1)
           = children d @ [dk\<lparr>dock_widget := map_option (set_widget_id m) (dock_widget dk)\<rparr>]"
proof -
  have "\<forall>x \<in> set (children d). dock_ref x \<noteq> new_ref d"
    using new_ref_above [of _ d] by fastforce
  from update_dock_last [OF assms this] show ?thesis
    by (simp add: assign_id_at_def)
qed

lemma assign_id_at_other [simp]:
  "tab_text (assign_id_at i m d) = tab_text d" "qt_log (assign_id_at i m d) = qt_log d"
  by (simp_all add: assign_id_at_def)

lemma dock_class_assign [simp]:
  "dock_class (dk\<lparr>dock_widget := map_option (set_widget_id m) (dock_widget dk)\<rparr>) = dock_class dk"
  by (cases "dock_widget dk") (simp_all add: dock_class_def)

lemma restore_instance_shape:
  assumes "restore_instance e idx inst (d, docks) = (d', docks')"
  shows "tab_text d' = tab_text d
         \<and> (\<exists>new cs. children d' = children d @ new \<and> length new \<le> 1
               \<and> (\<forall>dk \<in> set new. dock_ref dk = new_ref d)
               \<and> qt_log d' = qt_log d @ cs \<and> list_all is_creation cs
               \<and> (docks' = docks \<or> docks' = docks @ [(new_ref d, inst)] \<and> length new = 1))"
proof (cases "resolve (plugins e) (base_module_of (wi_module_name inst))")
  case None
  with assms show ?thesis
    by (auto simp: restore_instance_unfold Let_def split: if_splits)
next
  case (Some p)
  obtain info c where p: "p = (info, c)" by (cases p)
  let ?b = "base_module_of (wi_module_name inst)"
  show ?thesis
  proof (cases "wi_module_name inst = []")
    case True
    with assms show ?thesis by (auto simp: restore_instance_unfold Let_def)
  next
    case nonempty: False
    consider (cl) "?b = ''custom_list''" | (tl) "?b \<noteq> ''custom_list''" "?b = ''tree_list''"
      | (other) "?b \<noteq> ''custom_list''" "?b \<noteq> ''tree_list''" by blast
    then show ?thesis
    proof cases
      case cl
      with assms Some p nonempty show ?thesis
        by (auto simp: restore_instance_unfold Let_def attach_dock_def is_creation_def split: sum.splits)
    next
      case tl
      with assms Some p nonempty show ?thesis
        by (auto simp: restore_instance_unfold Let_def attach_dock_def is_creation_def split: sum.splits)
    next
      case other
      let ?title = "case wi_title inst of Some t \<Rightarrow> t
                    | None \<Rightarrow> (case pi_title info of Some t \<Rightarrow> t | None \<Rightarrow> ''Widget'')"
      let ?area = "case wi_area inst of Some a \<Rightarrow> a | None \<Rightarrow> RightDockWidgetArea"
      obtain d1 r where aw: "add_widget_in e idx d c ?b ?title ?area = (d1, r)"
        by (cases "add_widget_in e idx d c ?b ?title ?area")
      from add_widget_in_shape [OF aw] obtain dk cs where
        sh: "children d1 = children d @ [dk]" "dock_ref dk = new_ref d" "tab_text d1 = tab_text d"
            "qt_log d1 = qt_log d @ cs" "list_all is_creation cs"
            "\<forall>i. r = Inr i \<longrightarrow> i = new_ref d \<and> dock_class dk = Some c"
        by blast
      show ?thesis
      proof (cases r)
        case (Inl err)
        with assms Some p nonempty other aw have "d' = d1" "docks' = docks"
          by (auto simp: restore_instance_unfold Let_def)
        with sh show ?thesis by auto
      next
        case (Inr i)
        with sh have i: "i = new_ref d" by simp
        from assms Some p nonempty other aw Inr
        have "d' = assign_id_at i (wi_module_name inst) d1" "docks' = docks @ [(i, inst)]"
          by (auto simp: restore_instance_unfold Let_def)
        with sh i assign_id_at_new [OF sh(1) sh(2), of "wi_module_name inst"] show ?thesis
          by auto
      qed
    qed
  qed
qed

lemma restore_instance_unresolvable:
  "\<not> resolvable e inst \<Longrightarrow> restore_instance e idx inst s = s"
  by (cases s; cases "resolve (plugins e) (base_module_of (wi_module_name inst))")
     (auto simp: restore_instance_unfold resolvable_def Let_def)

lemma restore_instance_resolvable:
  assumes "restore_instance e idx inst (d, docks) = (d', docks')"
    and "consistent e" and "resolvable e inst"
  shows "\<exists>dk. children d' = children d @ [dk] \<and> dock_class dk = registered_class e inst"
proof -
  let ?b = "base_module_of (wi_module_name inst)"
  from assms(3) obtain info c where res: "resolve (plugins e) ?b = Some (info, c)"
    and nonempty: "wi_module_name inst \<noteq> []"
    by (auto simp: resolvable_def)
  from consistent_accepts [OF assms(2) res] have acc: "accepts e c ?b" .
  have rc: "registered_class e inst = Some c"
    using res by (simp add: registered_class_def)
  consider (cl) "?b = ''custom_list''" | (tl) "?b \<noteq> ''custom_list''" "?b = ''tree_list''"
    | (other) "?b \<noteq> ''custom_list''" "?b \<noteq> ''tree_list''" by blast
  then show ?thesis
  proof cases
    case cl
    with acc have con: "\<And>t wid. construct e c (ListTitle t wid) = Inr (custom_list_widget t wid)"
      by (simp add: accepts_custom_list)
    from construct_class [OF con] have "c = CustomListWidget"
      by (simp add: custom_list_widget_def)
    with assms(1) res nonempty cl con rc show ?thesis
      by (auto simp: restore_instance_unfold Let_def attach_dock_def dock_class_def custom_list_widget_def)
  next
    case tl
    let ?title = "case wi_title inst of Some t \<Rightarrow> t
                  | None \<Rightarrow> (case pi_title info of Some t \<Rightarrow> t | None \<Rightarrow> ''Widget'')"
    from tl acc accepts_tree_list [of e c ?title] obtain w where
      w: "construct e c (Title ?title) = Inr w" by auto
    from construct_class [OF w] have "w_class w = c" .
    with assms(1) res nonempty tl w rc show ?thesis
      by (auto simp: restore_instance_unfold Let_def attach_dock_def dock_class_def)
  next
    case other
    let ?title = "case wi_title inst of Some t \<Rightarrow> t
                  | None \<Rightarrow> (case pi_title info of Some t \<Rightarrow> t | None \<Rightarrow> ''Widget'')"
    let ?area = "case wi_area inst of Some a \<Rightarrow> a | None \<Rightarrow> RightDockWidgetArea"
    obtain d1 r where aw: "add_widget_in e idx d c ?b ?title ?area = (d1, r)"
      by (cases "add_widget_in e idx d c ?b ?title ?area")
    from add_widget_in_accepted [OF aw acc] obtain dk where
      dk: "children d1 = children d @ [dk]" "dock_ref dk = new_ref d" "dock_class dk = Some c" by blast
    from add_widget_in_shape [OF aw] have idx: "\<forall>i. r = Inr i \<longrightarrow> i = new_ref d"
      by blast
    show ?thesis
    proof (cases r)
      case (Inl err)
      with assms(1) res nonempty other aw have "d' = d1"
        by (auto simp: restore_instance_unfold Let_def)
      with dk rc show ?thesis by simp
    next
      case (Inr i)
      with idx have i: "i = new_ref d" by simp
      from assms(1) res nonempty other aw Inr
      have "d' = assign_id_at i (wi_module_name inst) d1"
        by (auto simp: restore_instance_unfold Let_def)
      with i assign_id_at_new [OF dk(1) dk(2), of "wi_module_name inst"] dk(3) rc show ?thesis
        by simp
    qed
  qed
qed

lemma restore_instance_restorable:
  assumes "restore_instance e idx inst (d, docks) = (d', docks')" and "restorable e inst"
  shows "\<exists>dk. children d' = children d @ [dk] \<and> dock_ref dk = new_ref d
           \<and> dock_id dk = Some (wi_module_name inst)
           \<and> dock_class dk = registered_class e inst
           \<and> docks' = docks @ [(new_ref d, inst)]"
proof -
  let ?m = "wi_module_name inst"
  let ?b = "base_module_of ?m"
  from assms(2) obtain info c where res: "resolve (plugins e) ?b = Some (info, c)"
    and nonempty: "?m \<noteq> []"
    by (auto simp: restorable_def Let_def split: option.splits)
  have rc: "registered_class e inst = Some c"
    using res by (simp add: registered_class_def)
  let ?title = "case wi_title inst of Some t \<Rightarrow> t
                | None \<Rightarrow> (case pi_title info of Some t \<Rightarrow> t | None \<Rightarrow> ''Widget'')"
  let ?area = "case wi_area inst of Some a \<Rightarrow> a | None \<Rightarrow> RightDockWidgetArea"
  consider (cl) "?b = ''custom_list''" | (tl) "?b \<noteq> ''custom_list''" "?b = ''tree_list''"
    | (other) "?b \<noteq> ''custom_list''" "?b \<noteq> ''tree_list''" by blast
  then show ?thesis
  proof cases
    case cl
    with assms(2) res have "c = CustomListWidget" by (simp add: restorable_def Let_def)
    with assms(1) res nonempty cl rc show ?thesis
      by (auto simp: restore_instance_unfold Let_def attach_dock_def dock_id_def dock_class_def
            construct_def custom_list_widget_def)
  next
    case tl
    with assms(2) res have "c = TreeListWidget" by (simp add: restorable_def Let_def)
    with assms(1) res nonempty tl rc show ?thesis
      by (auto simp: restore_instance_unfold Let_def attach_dock_def dock_id_def dock_class_def
            construct_def set_private_id_def titled_def)
  next
    case other
    with assms(2) res have c: "c \<noteq> TreeListWidget" "c \<noteq> CalculatorWidget"
      "c \<noteq> ScientificCalculatorWidget" and acc: "accepts e c ?b"
      by (simp_all add: restorable_def Let_def)
    obtain dn cnt where al: "allocate_dock_name (map objectName (children d)) ?b = (dn, cnt)"
      by (cases "allocate_dock_name (map objectName (children d)) ?b")
    from accepts_any_title [OF acc, of "display_title_of ?title cnt"]
    obtain w where w: "construct e c (ctor_args_for ?b (display_title_of ?title cnt)) = Inr w" by blast
    from construct_class [OF w] have wc: "w_class w = c" .
    let ?w1 = "set_widget_id (allocate_widget_id ?b (display_title_of ?title cnt) idx cnt) w"
    let ?dk = "\<lparr>dock_ref = new_ref d, objectName = dn, windowTitle = display_title_of ?title cnt,
                dock_widget = Some ?w1, place = (qt_new_dock e dn)\<lparr>pl_area := ?area\<rparr>\<rparr>"
    let ?d1 = "d\<lparr>children := children d @ [?dk], qt_log := qt_log d @ [AddDockWidget dn]\<rparr>"
    have nr: "\<not> save_state_raises ?w1"
      using wc c by (simp add: save_state_raises_def)
    have id: "w_widget_id (set_widget_id ?m ?w1) = Some ?m"
      using wc c nonempty by (simp add: set_widget_id_def)
    have aw: "add_widget_in e idx d c ?b ?title ?area = (?d1, Inr (new_ref d))"
      using al w nr other by (simp add: add_widget_in_def Let_def)
    have ch: "children ?d1 = children d @ [?dk]" "dock_ref ?dk = new_ref d" by simp_all
    from assms(1) res nonempty other aw
    have d': "d' = assign_id_at (new_ref d) ?m ?d1" and docks': "docks' = docks @ [(new_ref d, inst)]"
      by (simp_all add: restore_instance_unfold Let_def)
    from assign_id_at_new [OF ch, of ?m] d'
    have "children d' = children d @ [?dk\<lparr>dock_widget := map_option (set_widget_id ?m) (dock_widget ?dk)\<rparr>]"
      by simp
    moreover have "dock_id (?dk\<lparr>dock_widget := map_option (set_widget_id ?m) (dock_widget ?dk)\<rparr>) = Some ?m"
      using id by (simp add: dock_id_def)
    moreover have "dock_class (?dk\<lparr>dock_widget := map_option (set_widget_id ?m) (dock_widget ?dk)\<rparr>) = Some c"
      using wc by (simp add: dock_class_def)
    ultimately show ?thesis using docks' rc by simp
  qed
qed

lemma restore_instance_consistent:
  assumes "restore_instance e idx inst (d, docks) = (d', docks')"
    and "consistent e" and "resolve (plugins e) (base_module_of (wi_module_name inst)) = Some (info, c)"
    and "wi_module_name inst \<noteq> []"
  shows "docks' = docks @
           (if base_module_of (wi_module_name inst) = ''custom_list''
               \<or> base_module_of (wi_module_name inst) = ''tree_list''
               \<or> (c \<noteq> CalculatorWidget \<and> c \<noteq> ScientificCalculatorWidget)
            then [(new_ref d, inst)] else [])"
proof -
  let ?m = "wi_module_name inst"
  let ?b = "base_module_of ?m"
  note res = assms(3) and nonempty = assms(4)
  from consistent_accepts [OF assms(2) res] have acc: "accepts e c ?b" .
  let ?title = "case wi_title inst of Some t \<Rightarrow> t
                | None \<Rightarrow> (case pi_title info of Some t \<Rightarrow> t | None \<Rightarrow> ''Widget'')"
  let ?area = "case wi_area inst of Some a \<Rightarrow> a | None \<Rightarrow> RightDockWidgetArea"
  consider (cl) "?b = ''custom_list''" | (tl) "?b \<noteq> ''custom_list''" "?b = ''tree_list''"
    | (other) "?b \<noteq> ''custom_list''" "?b \<noteq> ''tree_list''" by blast
  then show ?thesis
  proof cases
    case cl
    with acc have con: "\<And>t wid. construct e c (ListTitle t wid) = Inr (custom_list_widget t wid)"
      by (simp add: accepts_custom_list)
    with assms(1) res nonempty cl show ?thesis
      by (simp add: restore_instance_unfold Let_def)
  next
    case tl
    from tl acc accepts_tree_list [of e c ?title] obtain w where
      w: "construct e c (Title ?title) = Inr w" by auto
    with assms(1) res nonempty tl show ?thesis
      by (simp add: restore_instance_unfold Let_def)
  next
    case other
    have bne: "?b \<noteq> []"
      using nonempty by (auto simp: base_module_of_def)
    obtain dn cnt where al: "allocate_dock_name (map objectName (children d)) ?b = (dn, cnt)"
      by (cases "allocate_dock_name (map objectName (children d)) ?b")
    from accepts_any_title [OF acc, of "display_title_of ?title cnt"]
    obtain w where w: "construct e c (ctor_args_for ?b (display_title_of ?title cnt)) = Inr w" by blast
    from construct_class [OF w] have wc: "w_class w = c" .
    let ?wid = "allocate_widget_id ?b (display_title_of ?title cnt) idx cnt"
    let ?w1 = "set_widget_id ?wid w"
    have widne: "?wid \<noteq> []"
      using bne by (simp add: allocate_widget_id_def)
    have raises: "save_state_raises ?w1 \<longleftrightarrow> (c = CalculatorWidget \<or> c = ScientificCalculatorWidget)"
      using wc widne by (auto simp: save_state_raises_def set_widget_id_def)
    from assms(1) res nonempty other al w raises show ?thesis
      by (auto simp: restore_instance_unfold add_widget_in_def Let_def)
  qed
qed

lemma create_shape:
  "fold (restore_instance e idx) ws (d, docks) = (d', docks') \<Longrightarrow>
     tab_text d' = tab_text d \<and> new_ref d \<le> new_ref d'
     \<and> (\<exists>new cs extra. children d' = children d @ new
           \<and> (\<forall>dk \<in> set new. new_ref d \<le> dock_ref dk)
           \<and> qt_log d' = qt_log d @ cs \<and> list_all is_creation cs
           \<and> docks' = docks @ extra \<and> sorted_wrt (<) (map fst extra)
           \<and> (\<forall>p \<in> set extra. new_ref d \<le> fst p \<and> fst p < new_ref d' \<and> snd p \<in> set ws
                  \<and> the_dock (fst p) d' \<noteq> None)
           \<and> length extra \<le> length (filter (resolvable e) ws))"
proof (induction ws arbitrary: d docks)
  case Nil
  then show ?case by simp
next
  case (Cons w ws)
  obtain d1 docks1 where step: "restore_instance e idx w (d, docks) = (d1, docks1)"
    by (cases "restore_instance e idx w (d, docks)")
  with Cons.prems have rest: "fold (restore_instance e idx) ws (d1, docks1) = (d', docks')"
    by simp
  from restore_instance_shape [OF step] obtain new1 cs1 where
    s1: "tab_text d1 = tab_text d" "children d1 = children d @ new1" "length new1 \<le> 1"
        "\<forall>dk \<in> set new1. dock_ref dk = new_ref d"
        "qt_log d1 = qt_log d @ cs1" "list_all is_creation cs1"
        "docks1 = docks \<or> docks1 = docks @ [(new_ref d, w)] \<and> length new1 = 1"
    by blast
  from Cons.IH [OF rest] obtain new2 cs2 extra2 where
    s2: "tab_text d' = tab_text d1" "new_ref d1 \<le> new_ref d'" "children d' = children d1 @ new2"
        "\<forall>dk \<in> set new2. new_ref d1 \<le> dock_ref dk"
        "qt_log d' = qt_log d1 @ cs2" "list_all is_creation cs2"
        "docks' = docks1 @ extra2" "sorted_wrt (<) (map fst extra2)"
        "\<forall>p \<in> set extra2. new_ref d1 \<le> fst p \<and> fst p < new_ref d' \<and> snd p \<in> set ws
            \<and> the_dock (fst p) d' \<noteq> None"
        "length extra2 \<le> length (filter (resolvable e) ws)"
    by blast
  have grow: "new_ref d \<le> new_ref d1" and grow1: "length new1 = 1 \<Longrightarrow> new_ref d1 = Suc (new_ref d)"
  proof -
    show "new_ref d \<le> new_ref d1"
    proof (cases new1)
      case Nil
      with s1(2) have "children d1 = children d" by simp
      then show ?thesis by (simp add: new_ref_def)
    next
      case (Cons dk rest)
      with s1(3) have "new1 = [dk]" by simp
      with s1(2) new_ref_append [of d1 d dk] show ?thesis by simp
    qed
    show "new_ref d1 = Suc (new_ref d)" if "length new1 = 1"
    proof -
      from that obtain dk where n: "new1 = [dk]" by (cases new1) auto
      with s1(4) have "dock_ref dk = new_ref d" by simp
      with n s1(2) new_ref_append [of d1 d dk] show ?thesis by simp
    qed
  qed
  have unres: "\<not> resolvable e w \<Longrightarrow> docks1 = docks"
    using step restore_instance_unresolvable [of e w idx "(d, docks)"] by simp
  define extra where "extra = (if docks1 = docks then [] else [(new_ref d, w)]) @ extra2"
  have a: "docks' = docks @ extra"
    using s1(7) s2(7) by (auto simp: extra_def)
  have b: "sorted_wrt (<) (map fst extra)"
  proof (cases "docks1 = docks")
    case True
    with s2(8) show ?thesis by (simp add: extra_def)
  next
    case False
    with s1(7) have "length new1 = 1" by auto
    from grow1 [OF this] have "new_ref d < new_ref d1" by simp
    with s2(9) have "\<forall>p \<in> set extra2. new_ref d < fst p" by fastforce
    with s2(8) False show ?thesis by (auto simp: extra_def)
  qed
  have c: "\<forall>p \<in> set extra. new_ref d \<le> fst p \<and> fst p < new_ref d' \<and> snd p \<in> set (w # ws)
              \<and> the_dock (fst p) d' \<noteq> None"
  proof
    fix p assume "p \<in> set extra"
    then consider "docks1 \<noteq> docks" "p = (new_ref d, w)" | "p \<in> set extra2"
      by (auto simp: extra_def split: if_splits)
    then show "new_ref d \<le> fst p \<and> fst p < new_ref d' \<and> snd p \<in> set (w # ws)
                \<and> the_dock (fst p) d' \<noteq> None"
    proof cases
      case 1
      with s1(7) have len: "length new1 = 1" by auto
      then obtain dk where n: "new1 = [dk]" by (cases new1) auto
      with s1(4) have r: "dock_ref dk = new_ref d" by simp
      have "the_dock (new_ref d) d1 = Some dk"
        using s1(2) n r new_ref_fresh [of d] by (simp add: the_dock_def find_append_case)
      from the_dock_append [OF s2(3) this] have "the_dock (new_ref d) d' = Some dk" .
      with 1 grow1 [OF len] s2(2) show ?thesis by simp
    next
      case 2
      with s2(9) have "new_ref d1 \<le> fst p \<and> fst p < new_ref d' \<and> snd p \<in> set ws
            \<and> the_dock (fst p) d' \<noteq> None"
        by blast
      with grow show ?thesis by simp
    qed
  qed
  have e: "length extra \<le> length (filter (resolvable e) (w # ws))"
    using unres s2(10) by (auto simp: extra_def)
  have f: "\<forall>dk \<in> set (new1 @ new2). new_ref d \<le> dock_ref dk"
    using s1(4) s2(4) grow by fastforce
  from s1 s2 have "tab_text d' = tab_text d" "children d' = children d @ (new1 @ new2)"
    "qt_log d' = qt_log d @ (cs1 @ cs2)" "list_all is_creation (cs1 @ cs2)"
    by simp_all
  moreover from grow s2(2) have "new_ref d \<le> new_ref d'" by simp
  ultimately show ?case using a b c e f by blast
qed

lemma create_classes:
  "fold (restore_instance e idx) ws (d, docks) = (d', docks') \<Longrightarrow> consistent e \<Longrightarrow>
     \<exists>new. children d' = children d @ new
        \<and> map dock_class new = map (registered_class e) (filter (resolvable e) ws)"
proof (induction ws arbitrary: d docks)
  case Nil
  then show ?case by simp
next
  case (Cons w ws)
  obtain d1 docks1 where step: "restore_instance e idx w (d, docks) = (d1, docks1)"
    by (cases "restore_instance e idx w (d, docks)")
  with Cons.prems have rest: "fold (restore_instance e idx) ws (d1, docks1) = (d', docks')"
    by simp
  from Cons.IH [OF rest Cons.prems(2)] obtain new2 where
    n2: "children d' = children d1 @ new2"
        "map dock_class new2 = map (registered_class e) (filter (resolvable e) ws)"
    by blast
  show ?case
  proof (cases "resolvable e w")
    case True
    from restore_instance_resolvable [OF step Cons.prems(2) True] obtain dk where
      "children d1 = children d @ [dk]" "dock_class dk = registered_class e w" by blast
    with n2 True have "children d' = children d @ (dk # new2)"
      "map dock_class (dk # new2) = map (registered_class e) (filter (resolvable e) (w # ws))"
      by simp_all
    then show ?thesis by blast
  next
    case False
    with step restore_instance_unresolvable [of e w idx "(d, docks)"] have "d1 = d" by simp
    with n2 False show ?thesis by simp
  qed
qed

lemma create_counted:
  "fold (restore_instance e idx) ws (d, docks) = (d', docks') \<Longrightarrow> consistent e \<Longrightarrow>
     map snd docks' = map snd docks @
       filter (\<lambda>inst. resolvable e inst
                 \<and> (base_module_of (wi_module_name inst) = ''custom_list''
                    \<or> base_module_of (wi_module_name inst) = ''tree_list''
                    \<or> (registered_class e inst \<noteq> Some CalculatorWidget
                        \<and> registered_class e inst \<noteq> Some ScientificCalculatorWidget))) ws"
proof (induction ws arbitrary: d docks)
  case Nil
  then show ?case by simp
next
  case (Cons w ws)
  obtain d1 docks1 where step: "restore_instance e idx w (d, docks) = (d1, docks1)"
    by (cases "restore_instance e idx w (d, docks)")
  with Cons.prems have rest: "fold (restore_instance e idx) ws (d1, docks1) = (d', docks')"
    by simp
  note ih = Cons.IH [OF rest Cons.prems(2)]
  show ?case
  proof (cases "resolvable e w")
    case False
    with step restore_instance_unresolvable [of e w idx "(d, docks)"] have "docks1 = docks" by simp
    with ih False show ?thesis by simp
  next
    case True
    then obtain info c where res: "resolve (plugins e) (base_module_of (wi_module_name w)) = Some (info, c)"
      and nonempty: "wi_module_name w \<noteq> []"
      by (auto simp: resolvable_def)
    have rc: "registered_class e w = Some c"
      using res by (simp add: registered_class_def)
    from restore_instance_consistent [OF step Cons.prems(2) res nonempty] ih True rc
    show ?thesis by simp
  qed
qed

lemma create_restorable:
  "fold (restore_instance e idx) ws (d, docks) = (d', docks') \<Longrightarrow> list_all (restorable e) ws \<Longrightarrow>
     \<exists>new. children d' = children d @ new
        \<and> map dock_id new = map (\<lambda>inst. Some (wi_module_name inst)) ws
        \<and> map dock_ref new = [new_ref d ..< new_ref d + length ws]
        \<and> docks' = docks @ zip [new_ref d ..< new_ref d + length ws] ws"
proof (induction ws arbitrary: d docks)
  case Nil
  then show ?case by simp
next
  case (Cons w ws)
  obtain d1 docks1 where step: "restore_instance e idx w (d, docks) = (d1, docks1)"
    by (cases "restore_instance e idx w (d, docks)")
  with Cons.prems have rest: "fold (restore_instance e idx) ws (d1, docks1) = (d', docks')"
    by simp
  from Cons.prems(2) have rw: "restorable e w" and rws: "list_all (restorable e) ws" by simp_all
  from restore_instance_restorable [OF step rw] obtain dk where
    s1: "children d1 = children d @ [dk]" "dock_ref dk = new_ref d" "dock_id dk = Some (wi_module_name w)"
        "docks1 = docks @ [(new_ref d, w)]" by blast
  from Cons.IH [OF rest rws] obtain new2 where
    s2: "children d' = children d1 @ new2"
        "map dock_id new2 = map (\<lambda>inst. Some (wi_module_name inst)) ws"
        "map dock_ref new2 = [new_ref d1 ..< new_ref d1 + length ws]"
        "docks' = docks1 @ zip [new_ref d1 ..< new_ref d1 + length ws] ws"
    by blast
  have len: "new_ref d1 = Suc (new_ref d)"
    using new_ref_append [OF s1(1)] s1(2) by simp
  have "[n ..< n + Suc k] = n # [Suc n ..< Suc n + k]" for n k :: nat
    by (subst upt_conv_Cons) simp_all
  then have "[new_ref d ..< new_ref d + length (w # ws)]
        = new_ref d # [new_ref d1 ..< new_ref d1 + length ws]"
    by (simp only: len list.size(4)) simp
  with s1 s2 have "children d' = children d @ (dk # new2)"
    "map dock_id (dk # new2) = map (\<lambda>inst. Some (wi_module_name inst)) (w # ws)"
    "map dock_ref (dk # new2) = [new_ref d ..< new_ref d + length (w # ws)]"
    "docks' = docks @ zip [new_ref d ..< new_ref d + length (w # ws)] (w # ws)"
    by simp_all
  then show ?case by blast
qed

lemma create_restores_each:
  "fold (restore_instance e idx) ws (d, docks) = (d', docks') \<Longrightarrow> inst \<in> set ws \<Longrightarrow> restorable e inst
   \<Longrightarrow> \<exists>r dk. (r, inst) \<in> set docks' \<and> new_ref d \<le> r \<and> the_dock r d' = Some dk
          \<and> dock_id dk = Some (wi_module_name inst) \<and> dock_class dk = registered_class e inst"
proof (induction ws arbitrary: d docks)
  case Nil
  then show ?case by simp
next
  case (Cons w ws)
  obtain d1 docks1 where step: "restore_instance e idx w (d, docks) = (d1, docks1)"
    by (cases "restore_instance e idx w (d, docks)")
  with Cons.prems have rest: "fold (restore_instance e idx) ws (d1, docks1) = (d', docks')"
    by simp
  from create_shape [OF rest] obtain new2 extra2 where
    s2: "children d' = children d1 @ new2" "docks' = docks1 @ extra2" by blast
  from restore_instance_shape [OF step] obtain new1 where
    s1: "children d1 = children d @ new1" "length new1 \<le> 1" by blast
  have grow: "new_ref d \<le> new_ref d1"
  proof (cases new1)
    case Nil
    with s1(1) have "children d1 = children d" by simp
    then show ?thesis by (simp add: new_ref_def)
  next
    case (Cons dk rest)
    with s1(2) have "new1 = [dk]" by simp
    with s1(1) new_ref_append [of d1 d dk] show ?thesis by simp
  qed
  show ?case
  proof (cases "inst \<in> set ws")
    case True
    from Cons.IH [OF rest True Cons.prems(3)] grow show ?thesis by fastforce
  next
    case False
    with Cons.prems(2) have w: "w = inst" by simp
    from restore_instance_restorable [OF step [unfolded w] Cons.prems(3)] obtain dk where
      dk: "children d1 = children d @ [dk]" "dock_ref dk = new_ref d"
          "dock_id dk = Some (wi_module_name inst)" "dock_class dk = registered_class e inst"
          "docks1 = docks @ [(new_ref d, inst)]" by blast
    have "the_dock (new_ref d) d1 = Some dk"
      using dk(1,2) new_ref_fresh [of d] by (simp add: the_dock_def find_append_case)
    from the_dock_append [OF s2(1) this] have "the_dock (new_ref d) d' = Some dk" .
    with dk s2(2) show ?thesis by auto
  qed
qed

lemma create_restored_resolvable:
  "fold (restore_instance e idx) ws (d, docks) = (d', docks') \<Longrightarrow> \<forall>p \<in> set docks. resolvable e (snd p)
   \<Longrightarrow> \<forall>p \<in> set docks'. resolvable e (snd p)"
proof (induction ws arbitrary: d docks)
  case Nil
  then show ?case by simp
next
  case (Cons w ws)
  obtain d1 docks1 where step: "restore_instance e idx w (d, docks) = (d1, docks1)"
    by (cases "restore_instance e idx w (d, docks)")
  with Cons.prems have rest: "fold (restore_instance e idx) ws (d1, docks1) = (d', docks')"
    by simp
  from restore_instance_shape [OF step] have
    "docks1 = docks \<or> docks1 = docks @ [(new_ref d, w)]" by blast
  moreover have "\<not> resolvable e w \<Longrightarrow> docks1 = docks"
    using step restore_instance_unresolvable [of e w idx "(d, docks)"] by simp
  ultimately have "\<forall>p \<in> set docks1. resolvable e (snd p)"
    using Cons.prems(2) by (cases "resolvable e w") auto
  from Cons.IH [OF rest this] show ?case .
qed

subsection \<open>Auxiliary facts: the layout phases\<close>

lemma layout_only_refl [simp]: "layout_only d d"
  by (simp add: layout_only_def)

lemma layout_only_logI:
  "tab_text d' = tab_text d \<Longrightarrow> map dock_ref (children d') = map dock_ref (children d)
   \<Longrightarrow> map dock_widget (children d') = map dock_widget (children d)
   \<Longrightarrow> qt_log d' = qt_log d @ ns \<Longrightarrow> list_all (\<lambda>c. \<not> is_creation c) ns \<Longrightarrow> layout_only d d'"
  by (simp add: layout_only_def)

lemma layout_only_logD:
  assumes "layout_only d d'"
  shows "\<exists>ns. qt_log d' = qt_log d @ ns \<and> list_all (\<lambda>c. \<not> is_creation c) ns"
proof -
  from assms have "qt_log d' = qt_log d @ drop (length (qt_log d)) (qt_log d')"
    by (metis append_take_drop_id layout_only_def)
  with assms show ?thesis unfolding layout_only_def by blast
qed

lemma layout_only_trans:
  assumes "layout_only a b" and "layout_only b c"
  shows "layout_only a c"
proof -
  from layout_only_logD [OF assms(1)] obtain n1 where
    n1: "qt_log b = qt_log a @ n1" "list_all (\<lambda>c. \<not> is_creation c) n1" by blast
  from layout_only_logD [OF assms(2)] obtain n2 where
    n2: "qt_log c = qt_log b @ n2" "list_all (\<lambda>c. \<not> is_creation c) n2" by blast
  from n1 n2 have "qt_log c = qt_log a @ (n1 @ n2)" "list_all (\<lambda>c. \<not> is_creation c) (n1 @ n2)"
    by simp_all
  moreover from assms have "tab_text c = tab_text a"
    "map dock_ref (children c) = map dock_ref (children a)"
    "map dock_widget (children c) = map dock_widget (children a)"
    by (simp_all add: layout_only_def)
  ultimately show ?thesis by (rule layout_only_logI [rotated 3])
qed

lemma layout_only_length: "layout_only d d' \<Longrightarrow> length (children d') = length (children d)"
  by (metis layout_only_def length_map)

lemma map_update_same:
  "f y = f (xs ! i) \<Longrightarrow> map f (xs[i := y]) = map f xs"
  by (metis list_update_id map_update)

lemma the_dock_refs: "the_dock r d \<noteq> None \<longleftrightarrow> r \<in> set (map dock_ref (children d))"
  by (auto simp: the_dock_def find_None_set)

lemma layout_only_present:
  "layout_only d d' \<Longrightarrow> the_dock r d' \<noteq> None \<longleftrightarrow> the_dock r d \<noteq> None"
  by (simp only: the_dock_refs) (simp add: layout_only_def)

lemma update_dock_maps:
  "(\<And>dk. g (f dk) = g dk) \<Longrightarrow> map g (children (update_dock r f d)) = map g (children d)"
  by (simp add: update_dock_def comp_def cong: map_cong)

lemma setVisible_layout: "layout_only d (setVisible r d)"
proof (rule layout_only_logI [where ns = "[SetVisible r]"])
  show "map dock_ref (children (setVisible r d)) = map dock_ref (children d)"
    using update_dock_maps [of dock_ref show_dock r d] by (simp add: setVisible_def show_dock_def)
  show "map dock_widget (children (setVisible r d)) = map dock_widget (children d)"
    using update_dock_maps [of dock_widget show_dock r d] by (simp add: setVisible_def show_dock_def)
qed (simp_all add: setVisible_def is_creation_def)

lemma setGeometry_Inr:
  "setGeometry r g d = Inr d1 \<longleftrightarrow>
     fits_c_int (geom_x g) \<and> fits_c_int (geom_y g) \<and> fits_c_int (geom_width g) \<and> fits_c_int (geom_height g)
     \<and> d1 = (update_dock r (place_at g) d)\<lparr>qt_log := qt_log d @ [SetGeometry r g]\<rparr>"
  by (auto simp: setGeometry_def place_at_def [abs_def])

lemma place_at_layout:
  "layout_only d ((update_dock r (place_at g) d)\<lparr>qt_log := qt_log d @ [SetGeometry r g]\<rparr>)"
proof (rule layout_only_logI [where ns = "[SetGeometry r g]"])
  show "map dock_ref (children ((update_dock r (place_at g) d)\<lparr>qt_log := qt_log d @ [SetGeometry r g]\<rparr>))
          = map dock_ref (children d)"
    using update_dock_maps [of dock_ref "place_at g" r d] by (simp add: place_at_def)
  show "map dock_widget (children ((update_dock r (place_at g) d)\<lparr>qt_log := qt_log d @ [SetGeometry r g]\<rparr>))
          = map dock_widget (children d)"
    using update_dock_maps [of dock_widget "place_at g" r d] by (simp add: place_at_def)
qed (simp_all add: is_creation_def)

lemma restoreState_layout: "layout_only d (restoreState e b d)"
proof (rule layout_only_logI [where ns = "[RestoreState b]"])
  have "map dock_widget (map (\<lambda>(i, dk). dk\<lparr>place := qt_restoreState e b (children d) i\<rparr>) ps)
        = map dock_widget (map snd ps)" for ps
    by (induction ps) auto
  from this [of "enumerate 0 (children d)"]
  show "map dock_widget (children (restoreState e b d)) = map dock_widget (children d)"
    by (simp add: restoreState_def)
  have "map dock_ref (map (\<lambda>(i, dk). dk\<lparr>place := qt_restoreState e b (children d) i\<rparr>) ps)
        = map dock_ref (map snd ps)" for ps
    by (induction ps) auto
  from this [of "enumerate 0 (children d)"]
  show "map dock_ref (children (restoreState e b d)) = map dock_ref (children d)"
    by (simp add: restoreState_def)
qed (simp_all add: restoreState_def is_creation_def)

lemma reapply_layout: "layout_only d (reapply_visibility ws d)"
proof (induction ws arbitrary: d)
  case Nil
  then show ?case by (simp add: reapply_visibility_def)
next
  case (Cons p ws)
  obtain i v where p: "p = (i, v)" by (cases p)
  have "layout_only d (if v then setVisible i d else d)"
    by (simp add: setVisible_layout)
  moreover have "layout_only (if v then setVisible i d else d)
                   (reapply_visibility ws (if v then setVisible i d else d))"
    by (rule Cons.IH)
  ultimately show ?case
    using p by (auto simp: reapply_visibility_def intro: layout_only_trans)
qed

lemma restore_docking_state_layout: "layout_only d (restore_docking_state e info docks d)"
  by (auto simp: restore_docking_state_def restore_docking_state_body_def handled_def Let_def
           split: option.splits
           intro: layout_only_trans [OF restoreState_layout reapply_layout])

lemma show_all_layout: "layout_only d (show_all d)"
proof -
  have "layout_only d (fold setVisible is d)" for "is"
  proof (induction "is" arbitrary: d)
    case Nil
    then show ?case by simp
  next
    case (Cons i "is")
    from setVisible_layout [of d i] Cons.IH [of "setVisible i d"]
    show ?case by (auto intro: layout_only_trans)
  qed
  then show ?thesis by (simp add: show_all_def)
qed

lemma the_dock_setVisible:
  "the_dock r (setVisible r' d) = map_option (if r = r' then show_dock else id) (the_dock r d)"
proof -
  have "the_dock r (setVisible r' d) = the_dock r (update_dock r' show_dock d)"
    by (simp add: the_dock_def setVisible_def)
  also have "\<dots> = map_option (if r = r' then show_dock else id) (the_dock r d)"
    by (rule the_dock_update) (simp add: show_dock_def)
  finally show ?thesis .
qed

lemma setVisible_keeps: "visible_at r d \<Longrightarrow> visible_at r (setVisible r' d)"
  by (auto simp: visible_at_def isVisible_def the_dock_setVisible show_dock_def split: option.splits)

lemma setVisible_shows: "the_dock r d \<noteq> None \<Longrightarrow> visible_at r (setVisible r d)"
  by (auto simp: visible_at_def isVisible_def the_dock_setVisible show_dock_def split: option.splits)

lemma visible_present: "visible_at r d \<Longrightarrow> the_dock r d \<noteq> None"
  by (auto simp: visible_at_def isVisible_def split: option.splits)

lemma reapply_visible:
  "the_dock r d \<noteq> None \<Longrightarrow> visible_at r d \<or> (r, True) \<in> set ws
     \<Longrightarrow> visible_at r (reapply_visibility ws d)"
proof (induction ws arbitrary: d)
  case Nil
  then show ?case by (simp add: reapply_visibility_def)
next
  case (Cons p ws)
  obtain j v where p: "p = (j, v)" by (cases p)
  let ?d1 = "if v then setVisible j d else d"
  have step: "reapply_visibility (p # ws) d = reapply_visibility ws ?d1"
    using p by (simp add: reapply_visibility_def)
  have len: "the_dock r ?d1 \<noteq> None"
    using Cons.prems(1) layout_only_present [where r = r, OF setVisible_layout [of d j]] by simp
  have "visible_at r ?d1 \<or> (r, True) \<in> set ws"
  proof (cases "visible_at r d")
    case True
    then show ?thesis by (simp add: setVisible_keeps)
  next
    case False
    with Cons.prems(2) p consider "j = r" "v" | "(r, True) \<in> set ws" by auto
    then show ?thesis
    proof cases
      case 1
      with Cons.prems(1) show ?thesis by (simp add: setVisible_shows)
    next
      case 2
      then show ?thesis by simp
    qed
  qed
  from Cons.IH [OF len this] step show ?case by simp
qed

lemma restore_docking_state_visible:
  assumes "(r, inst) \<in> set docks" and "visible_at r d"
  shows "visible_at r (restore_docking_state e info docks d)"
proof -
  let ?states = "map (\<lambda>(r, instance). (r, isVisible r d)) docks"
  have mem: "(r, True) \<in> set ?states"
    using assms by (force simp: visible_at_def)
  have "visible_at r (reapply_visibility ?states (restoreState e b d))" for b
  proof (rule reapply_visible)
    show "the_dock r (restoreState e b d) \<noteq> None"
      using visible_present [OF assms(2)]
        layout_only_present [where r = r, OF restoreState_layout [of d e b]]
      by simp
    show "visible_at r (restoreState e b d) \<or> (r, True) \<in> set ?states"
      using mem by blast
  qed
  with assms(2) show ?thesis
    by (auto simp: restore_docking_state_def restore_docking_state_body_def handled_def Let_def
             split: option.splits)
qed

text \<open>The last loop.\<close>

lemma ensure_visible_unfold:
  "ensure_visible (r, inst) d =
     (if applies inst
      then raise_dock r (setVisible r
             (case wi_geometry inst of
                None \<Rightarrow> d
              | Some geom \<Rightarrow>
                  (update_dock r (place_at (normalize_geometry geom)) d)
                    \<lparr>qt_log := qt_log d @ [SetGeometry r (normalize_geometry geom)]\<rparr>))
      else d)"
  by (auto simp: ensure_visible_def ensure_visible_body_def handled_def applies_def Let_def
        setGeometry_def place_at_def [abs_def] split: option.splits)

lemma ensure_visible_title [simp]: "tab_text (ensure_visible p d) = tab_text d"
  by (cases p)
     (simp add: ensure_visible_unfold raise_dock_def setVisible_def split: option.splits)

lemma fold_ensure_visible_title [simp]: "tab_text (fold ensure_visible docks d) = tab_text d"
  by (induction docks arbitrary: d) simp_all

lemma ensure_visible_log: "qt_log (ensure_visible p d) = qt_log d @ round_calls p"
  by (cases p)
     (simp add: ensure_visible_unfold round_calls_def raise_dock_def setVisible_def split: option.splits)

lemma fold_ensure_visible_log:
  "qt_log (fold ensure_visible docks d) = qt_log d @ concat (map round_calls docks)"
  by (induction docks arbitrary: d) (simp_all add: ensure_visible_log)

lemma round_calls_layout: "list_all (\<lambda>c. \<not> is_creation c) (concat (map round_calls docks))"
  by (induction docks)
     (auto simp: round_calls_def is_creation_def split: option.splits)

lemma calls_on_round:
  "calls_on r (round_calls (r', inst)) = (if r = r' then round_calls (r', inst) else [])"
  by (auto simp: calls_on_def round_calls_def split: option.splits)

lemma calls_on_rounds_other:
  "r \<notin> fst ` set docks \<Longrightarrow> calls_on r (concat (map round_calls docks)) = []"
proof (induction docks)
  case Nil
  then show ?case by (simp add: calls_on_def)
next
  case (Cons p docks)
  obtain r' inst' where p: "p = (r', inst')" by (cases p)
  with Cons.prems have "r \<noteq> r'" "r \<notin> fst ` set docks" by auto
  with Cons.IH p calls_on_round [of r r' inst'] show ?case
    by (simp add: calls_on_def)
qed

lemma calls_on_rounds:
  "distinct (map fst docks) \<Longrightarrow> (r, inst) \<in> set docks
     \<Longrightarrow> calls_on r (concat (map round_calls docks)) = round_calls (r, inst)"
proof (induction docks)
  case Nil
  then show ?case by simp
next
  case (Cons p docks)
  obtain r' inst' where p: "p = (r', inst')" by (cases p)
  have app: "calls_on r (concat (map round_calls (p # docks)))
               = calls_on r (round_calls p) @ calls_on r (concat (map round_calls docks))"
    by (simp add: calls_on_def)
  show ?case
  proof (cases "(r, inst) = p")
    case True
    with Cons.prems(1) have "r \<notin> fst ` set docks" by force
    from calls_on_rounds_other [OF this] True app calls_on_round [of r r inst] show ?thesis by simp
  next
    case False
    with Cons.prems(2) have mem: "(r, inst) \<in> set docks" by simp
    with Cons.prems(1) p have "r \<noteq> r'" by force
    moreover from Cons.prems(1) have "distinct (map fst docks)" by simp
    ultimately show ?thesis
      using Cons.IH mem app p calls_on_round [of r r' inst'] by simp
  qed
qed

lemma the_dock_raise: "the_dock r (raise_dock r' d) = the_dock r d"
proof (cases "r = r'")
  case True
  have "find (\<lambda>dk. dock_ref dk = r) (filter (\<lambda>dk. dock_ref dk \<noteq> r) (children d)) = None"
    by (rule find_filter_none) simp
  moreover have "find (\<lambda>dk. dock_ref dk = r) (filter (\<lambda>dk. dock_ref dk = r) (children d))
                   = find (\<lambda>dk. dock_ref dk = r) (children d)"
    by (rule find_filter_keep) simp
  ultimately show ?thesis
    using True by (simp add: the_dock_def raise_dock_def find_append_case)
next
  case False
  have keep: "find (\<lambda>dk. dock_ref dk = r) (filter (\<lambda>dk. dock_ref dk \<noteq> r') (children d))
                = find (\<lambda>dk. dock_ref dk = r) (children d)"
    by (rule find_filter_keep) (use False in simp)
  have none: "find (\<lambda>dk. dock_ref dk = r) (filter (\<lambda>dk. dock_ref dk = r') (children d)) = None"
    by (rule find_filter_none) (use False in simp)
  show ?thesis
    by (simp add: the_dock_def raise_dock_def find_append_case keep none split: option.splits)
qed

lemma the_dock_place_at:
  "the_dock r ((update_dock r' (place_at g) d)\<lparr>qt_log := l\<rparr>)
     = map_option (if r = r' then place_at g else id) (the_dock r d)"
proof -
  have "the_dock r ((update_dock r' (place_at g) d)\<lparr>qt_log := l\<rparr>) = the_dock r (update_dock r' (place_at g) d)"
    by (simp add: the_dock_def)
  also have "\<dots> = map_option (if r = r' then place_at g else id) (the_dock r d)"
    by (rule the_dock_update) (simp add: place_at_def)
  finally show ?thesis .
qed

lemma the_dock_ensure_visible:
  "the_dock r (ensure_visible (r', inst) d)
     = (if r = r' then map_option (placed inst) (the_dock r d) else the_dock r d)"
  by (cases "the_dock r d")
     (auto simp: ensure_visible_unfold the_dock_raise the_dock_setVisible the_dock_place_at placed_def
           split: option.splits)

lemma fold_ensure_visible_other:
  "r \<notin> fst ` set docks \<Longrightarrow> the_dock r (fold ensure_visible docks d) = the_dock r d"
proof (induction docks arbitrary: d)
  case Nil
  then show ?case by simp
next
  case (Cons p docks)
  obtain j inst where p: "p = (j, inst)" by (cases p)
  with Cons.prems have "r \<noteq> j" "r \<notin> fst ` set docks" by auto
  with Cons.IH [of "ensure_visible p d"] p show ?case
    by (simp add: the_dock_ensure_visible)
qed

lemma fold_ensure_visible_the_dock:
  "distinct (map fst docks) \<Longrightarrow> (r, inst) \<in> set docks
     \<Longrightarrow> the_dock r (fold ensure_visible docks d) = map_option (placed inst) (the_dock r d)"
proof (induction docks arbitrary: d)
  case Nil
  then show ?case by simp
next
  case (Cons p docks)
  obtain j inst' where p: "p = (j, inst')" by (cases p)
  show ?case
  proof (cases "(r, inst) = p")
    case True
    with Cons.prems(1) p have "r \<notin> fst ` set docks" by force
    from fold_ensure_visible_other [OF this, of "ensure_visible p d"] True p
    show ?thesis by (simp add: the_dock_ensure_visible)
  next
    case False
    with Cons.prems(2) have mem: "(r, inst) \<in> set docks" by simp
    with Cons.prems(1) p have "r \<noteq> j" by force
    moreover from Cons.prems(1) have "distinct (map fst docks)" by simp
    ultimately show ?thesis
      using Cons.IH [of "ensure_visible p d"] mem p by (simp add: the_dock_ensure_visible)
  qed
qed

lemma map_eq_image_mset: "map f xs = map f ys \<Longrightarrow> image_mset f (mset xs) = image_mset f (mset ys)"
  by (metis mset_map)

lemma raise_dock_widgets:
  "image_mset dock_widget (mset (children (raise_dock r d))) = image_mset dock_widget (mset (children d))"
proof -
  have "mset (filter (\<lambda>dk. dock_ref dk \<noteq> r) xs @ filter (\<lambda>dk. dock_ref dk = r) xs) = mset xs"
    for xs :: "dock list"
    by (induction xs) simp_all
  then have "mset (children (raise_dock r d)) = mset (children d)"
    by (simp add: raise_dock_def)
  then show ?thesis by simp
qed

lemma ensure_visible_widgets:
  "image_mset dock_widget (mset (children (ensure_visible p d))) = image_mset dock_widget (mset (children d))"
proof -
  obtain r inst where p: "p = (r, inst)" by (cases p)
  have sv: "image_mset dock_widget (mset (children (setVisible r d0)))
              = image_mset dock_widget (mset (children d0))" for d0
    using setVisible_layout [of d0 r] by (intro map_eq_image_mset) (simp add: layout_only_def)
  have pa: "image_mset dock_widget (mset (children (update_dock r (place_at g) d)))
              = image_mset dock_widget (mset (children d))" for g
    using update_dock_maps [of dock_widget "place_at g" r d]
    by (intro map_eq_image_mset) (simp add: place_at_def)
  show ?thesis
    using p by (simp add: ensure_visible_unfold raise_dock_widgets sv pa split: option.splits)
qed

lemma fold_ensure_visible_widgets:
  "image_mset dock_widget (mset (children (fold ensure_visible docks d)))
     = image_mset dock_widget (mset (children d))"
  by (induction docks arbitrary: d) (simp_all add: ensure_visible_widgets)

lemma raise_dock_head:
  assumes "children d = dk # rest @ finished" and "dock_ref dk = r"
    and "\<forall>x \<in> set (rest @ finished). dock_ref x \<noteq> r"
  shows "children (raise_dock r d) = rest @ finished @ [dk]"
proof -
  from assms(3) have "filter (\<lambda>dk. dock_ref dk \<noteq> r) (rest @ finished) = rest @ finished"
    "filter (\<lambda>dk. dock_ref dk = r) (rest @ finished) = []"
    by (auto simp: filter_empty_conv)
  with assms(1,2) show ?thesis
    by (simp add: raise_dock_def)
qed

lemma ensure_visible_head:
  assumes "children d = dk # rest @ finished" and "dock_ref dk = r"
    and "\<forall>x \<in> set (rest @ finished). dock_ref x \<noteq> r"
  shows "children (ensure_visible (r, inst) d) = (if applies inst then rest @ finished @ [placed inst dk]
                                                  else dk # rest @ finished)"
proof (cases "applies inst")
  case False
  with assms(1) show ?thesis by (simp add: ensure_visible_unfold)
next
  case True
  have other: "map (\<lambda>x. if dock_ref x = r then f x else x) (rest @ finished) = rest @ finished" for f
    using assms(3) by (auto intro: map_idI)
  let ?d1 = "case wi_geometry inst of
               None \<Rightarrow> d
             | Some geom \<Rightarrow>
                 (update_dock r (place_at (normalize_geometry geom)) d)
                   \<lparr>qt_log := qt_log d @ [SetGeometry r (normalize_geometry geom)]\<rparr>"
  let ?dk1 = "case wi_geometry inst of None \<Rightarrow> dk | Some geom \<Rightarrow> place_at (normalize_geometry geom) dk"
  have c1: "children ?d1 = ?dk1 # rest @ finished"
    using assms(1,2) other by (simp add: update_dock_def split: option.splits)
  have r1: "dock_ref ?dk1 = r"
    using assms(2) by (simp add: place_at_def split: option.splits)
  have c2: "children (setVisible r ?d1) = show_dock ?dk1 # rest @ finished"
    using c1 r1 other [of show_dock] by (simp add: setVisible_def update_dock_def)
  have r2: "dock_ref (show_dock ?dk1) = r"
    using r1 by (simp add: show_dock_def)
  from raise_dock_head [OF c2 r2 assms(3)] True show ?thesis
    by (simp add: ensure_visible_unfold placed_def)
qed

lemma fold_ensure_visible_all:
  "children d = rest @ finished \<Longrightarrow> distinct (map dock_ref (rest @ finished))
   \<Longrightarrow> length ws = length rest \<Longrightarrow> list_all applies ws
   \<Longrightarrow> children (fold ensure_visible (zip (map dock_ref rest) ws) d)
         = finished @ map (\<lambda>(dk, inst). placed inst dk) (zip rest ws)"
proof (induction rest arbitrary: ws finished d)
  case Nil
  then show ?case by simp
next
  case (Cons dk rest)
  from Cons.prems(3) obtain w ws' where ws: "ws = w # ws'" by (cases ws) auto
  from Cons.prems(2) have other: "\<forall>x \<in> set (rest @ finished). dock_ref x \<noteq> dock_ref dk"
    by (auto simp: image_iff)
  from Cons.prems(4) ws have ap: "applies w" and aps: "list_all applies ws'" by simp_all
  from Cons.prems(1) have c: "children d = dk # rest @ finished" by simp
  from ensure_visible_head [OF c refl other, of w] ap
  have c1: "children (ensure_visible (dock_ref dk, w) d) = rest @ (finished @ [placed w dk])"
    by simp
  have r: "dock_ref (placed w dk) = dock_ref dk"
    by (simp add: placed_def show_dock_def place_at_def split: option.splits)
  have d1: "distinct (map dock_ref (rest @ (finished @ [placed w dk])))"
    using Cons.prems(2) r by auto
  from Cons.prems(3) ws have len: "length ws' = length rest" by simp
  from Cons.IH [OF c1 d1 len aps] ws show ?case by simp
qed

lemma sorted_wrt_less_distinct: "sorted_wrt (<) (xs :: nat list) \<Longrightarrow> distinct xs"
  by (induction xs) auto

lemma restored_dock_final:
  assumes "(r, inst) \<in> set (restored_docks e idx d info)"
  shows "the_dock r (restore_docking_state e info (restored_docks e idx d info)
                       (fst (create_widgets e idx d (di_widgets info)))) \<noteq> None
         \<and> the_dock r (restore_dashboard_layout e idx d info)
             = map_option (placed inst)
                 (the_dock r (restore_docking_state e info (restored_docks e idx d info)
                                (fst (create_widgets e idx d (di_widgets info)))))
         \<and> calls_on r (drop (length (qt_log (restore_docking_state e info (restored_docks e idx d info)
                                               (fst (create_widgets e idx d (di_widgets info))))))
                          (qt_log (restore_dashboard_layout e idx d info)))
             = round_calls (r, inst)"
proof -
  obtain d1 docks where cw: "create_widgets e idx d (di_widgets info) = (d1, docks)"
    by (cases "create_widgets e idx d (di_widgets info)")
  then have f: "fold (restore_instance e idx) (di_widgets info) (d, []) = (d1, docks)"
    by (simp add: create_widgets_fold)
  from create_shape [OF f] have
    srt: "sorted_wrt (<) (map fst docks)" and rng: "\<forall>p \<in> set docks. the_dock (fst p) d1 \<noteq> None"
    by auto
  from assms cw have mem: "(r, inst) \<in> set docks" by (simp add: restored_docks_def)
  with rng have i: "the_dock r d1 \<noteq> None" by force
  let ?d2 = "restore_docking_state e info docks d1"
  have p2: "the_dock r ?d2 \<noteq> None"
    using i layout_only_present [where r = r, OF restore_docking_state_layout [of d1 e info docks]]
    by simp
  note dist = sorted_wrt_less_distinct [OF srt]
  from fold_ensure_visible_the_dock [OF dist mem, of ?d2]
  have "the_dock r (fold ensure_visible docks ?d2) = map_option (placed inst) (the_dock r ?d2)" .
  moreover have "calls_on r (drop (length (qt_log ?d2)) (qt_log (fold ensure_visible docks ?d2)))
                   = round_calls (r, inst)"
    by (simp add: fold_ensure_visible_log calls_on_rounds [OF dist mem])
  ultimately show ?thesis
    using cw p2 by (simp add: restore_dashboard_layout_fold restored_docks_def)
qed

lemma layout_only_classes:
  "layout_only d d' \<Longrightarrow> map dock_class (children d') = map dock_class (children d)"
proof -
  assume "layout_only d d'"
  then have "map dock_widget (children d') = map dock_widget (children d)"
    by (simp add: layout_only_def)
  then have "map (map_option w_class) (map dock_widget (children d'))
             = map (map_option w_class) (map dock_widget (children d))" by simp
  then show ?thesis by (simp add: dock_class_def [abs_def] comp_def)
qed

lemma restore_dashboard_layout_log:
  "\<exists>later. qt_log (restore_dashboard_layout e idx d info)
              = qt_log (fst (create_widgets e idx d (di_widgets info))) @ later
          \<and> list_all (\<lambda>c. \<not> is_creation c) later"
proof -
  obtain d1 docks where cw: "create_widgets e idx d (di_widgets info) = (d1, docks)"
    by (cases "create_widgets e idx d (di_widgets info)")
  from layout_only_logD [OF restore_docking_state_layout [of d1 e info docks]] obtain ns where
    ns: "qt_log (restore_docking_state e info docks d1) = qt_log d1 @ ns"
        "list_all (\<lambda>c. \<not> is_creation c) ns" by blast
  have "qt_log (restore_dashboard_layout e idx d info)
          = qt_log d1 @ (ns @ concat (map round_calls docks))"
    using cw ns by (simp add: restore_dashboard_layout_fold fold_ensure_visible_log)
  moreover have "list_all (\<lambda>c. \<not> is_creation c) (ns @ concat (map round_calls docks))"
    using ns(2) round_calls_layout [of docks] by simp
  ultimately show ?thesis using cw by auto
qed

lemma restore_dashboard_layout_widgets:
  "image_mset dock_widget (mset (children (restore_dashboard_layout e idx d info)))
     = image_mset dock_widget (mset (children (fst (create_widgets e idx d (di_widgets info)))))"
proof -
  obtain d1 docks where cw: "create_widgets e idx d (di_widgets info) = (d1, docks)"
    by (cases "create_widgets e idx d (di_widgets info)")
  have "image_mset dock_widget (mset (children (restore_docking_state e info docks d1)))
          = image_mset dock_widget (mset (children d1))"
    using restore_docking_state_layout [of d1 e info docks]
    by (intro map_eq_image_mset) (simp add: layout_only_def)
  with cw show ?thesis
    by (simp add: restore_dashboard_layout_fold fold_ensure_visible_widgets)
qed

subsection \<open>Auxiliary facts: registered entries\<close>

lemma kind_of_id_base: "kind_of_id m = base_module_of m"
  by (simp add: kind_of_id_def known_kinds_def base_module_of_def)

lemma registered_for_resolve:
  "m \<noteq> [] \<Longrightarrow> registered_for reg m = map_option snd (resolve reg (base_module_of m))"
  by (simp add: registered_for_def resolve_def kind_of_id_base split: option.splits)

lemma registered_resolvable: "registered e inst \<longleftrightarrow> resolvable e inst"
  by (cases "wi_module_name inst = []")
     (simp_all add: registered_def resolvable_def registered_for_resolve, simp add: registered_for_def)

lemma registered_for_class:
  "resolvable e inst \<Longrightarrow> registered_for (plugins e) (wi_module_name inst) = registered_class e inst"
  by (simp add: resolvable_def registered_class_def registered_for_resolve)

lemma registered_for_unresolvable:
  "\<not> resolvable e inst \<Longrightarrow> registered_for (plugins e) (wi_module_name inst) = None"
  using registered_resolvable [of e inst] by (simp add: registered_def)

lemma restores_restorable: "restores e inst \<longleftrightarrow> restorable e inst"
proof (cases "wi_module_name inst = []")
  case True
  then show ?thesis by (simp add: restores_def restorable_def registered_for_def)
next
  case False
  then show ?thesis
    by (auto simp: restores_def restorable_def registered_for_resolve kind_of_id_base Let_def
             split: option.splits)
qed

lemma counted_resolvable:
  "counted e inst \<longleftrightarrow>
     resolvable e inst
     \<and> (base_module_of (wi_module_name inst) = ''custom_list''
        \<or> base_module_of (wi_module_name inst) = ''tree_list''
        \<or> (registered_class e inst \<noteq> Some CalculatorWidget
            \<and> registered_class e inst \<noteq> Some ScientificCalculatorWidget))"
proof (cases "resolvable e inst")
  case False
  then show ?thesis by (simp add: counted_def registered_for_unresolvable)
next
  case True
  then obtain c where "registered_class e inst = Some c"
    by (auto simp: resolvable_def registered_class_def)
  with True show ?thesis
    by (auto simp: counted_def registered_for_class kind_of_id_base)
qed

subsection \<open>Auxiliary facts: the sample data\<close>

lemma consistent_sample: "consistent sample_env"
  by (simp add: consistent_def sample_env_def builtin_plugins_def plugin_def accepts_def
        construct_def ctor_args_for_def)

lemma ghost_unresolvable: "\<not> resolvable sample_env ghost"
  by (simp add: resolvable_def sample_env_def builtin_plugins_def ghost_def base_module_of_def
        startswith_def resolve_def)

lemma new_ref_empty: "new_ref (DashboardTab t) = 0"
  by (simp add: new_ref_def DashboardTab_def)

lemma work_created:
  "create_widgets sample_env 0 (DashboardTab ''Work'') (di_widgets work_record)
     = (\<lparr>tab_text = ''Work'',
         children = [\<lparr>dock_ref = 0, objectName = ''dock_custom_list'', windowTitle = ''Groceries'',
                      dock_widget = Some \<lparr>w_class = CustomListWidget,
                                           w_widget_id = Some ''custom_list_groceries'',
                                           w_list_title = Some ''Groceries''\<rparr>,
                      place = sample_place\<rparr>],
         qt_log = [AddDockWidget ''dock_custom_list'']\<rparr>,
        [(0, groceries)])"
  by (simp add: create_widgets_fold work_record_def restore_instance_unfold ghost_def groceries_def
        groceries_base ghost_base resolve_def sample_env_def builtin_plugins_def plugin_def
        construct_def custom_list_widget_def attach_dock_def new_ref_empty Let_def)
     (simp add: sample_place_def DashboardTab_def)

subsection \<open>Auxiliary facts: names and the loop over the saved dashboards\<close>

lemma next_dock_name_spec:
  "next_dock_name existing base (dock_name, counter) = (n', c') \<Longrightarrow>
     n' \<notin> set existing \<and> counter \<le> c'
     \<and> (c' = counter \<longrightarrow> n' = dock_name)
     \<and> (c' \<noteq> counter \<longrightarrow> n' = numbered base (c' - 1) \<and> dock_name \<in> set existing
           \<and> (\<forall>k. counter \<le> k \<and> k < c' - 1 \<longrightarrow> numbered base k \<in> set existing))"
proof (induction existing base "(dock_name, counter)" arbitrary: dock_name counter rule: next_dock_name.induct)
  case (1 existing base_name dock_name counter)
  show ?case
  proof (cases "dock_name \<in> set existing")
    case False
    with "1.prems" show ?thesis by (simp add: next_dock_name.simps)
  next
    case True
    with "1.prems" have rec: "next_dock_name existing base_name (numbered base_name counter, counter + 1) = (n', c')"
      by (simp add: next_dock_name.simps)
    from "1.hyps" [OF True rec] have
      a: "n' \<notin> set existing" and b: "counter + 1 \<le> c'"
      and c: "c' = counter + 1 \<longrightarrow> n' = numbered base_name counter"
      and d: "c' \<noteq> counter + 1 \<longrightarrow> n' = numbered base_name (c' - 1) \<and> numbered base_name counter \<in> set existing
           \<and> (\<forall>k. counter + 1 \<le> k \<and> k < c' - 1 \<longrightarrow> numbered base_name k \<in> set existing)"
      by auto
    have "\<forall>k. counter \<le> k \<and> k < c' - 1 \<longrightarrow> numbered base_name k \<in> set existing"
    proof (intro allI impI)
      fix k assume k: "counter \<le> k \<and> k < c' - 1"
      show "numbered base_name k \<in> set existing"
      proof (cases "k = counter")
        case True
        with k have "c' \<noteq> counter + 1" by auto
        with d True show ?thesis by simp
      next
        case False
        with k have "counter + 1 \<le> k \<and> k < c' - 1" by auto
        moreover from k have "c' \<noteq> counter + 1" by auto
        ultimately show ?thesis using d by blast
      qed
    qed
    moreover have "n' = numbered base_name (c' - 1)"
      using c d by (cases "c' = counter + 1") auto
    ultimately show ?thesis using a b True by auto
  qed
qed

lemma allocate_dock_name_spec:
  assumes "allocate_dock_name existing B = (dock_name, counter)"
  shows "dock_name \<notin> set existing \<and> 1 \<le> counter
         \<and> (counter = 1 \<longrightarrow> dock_name = ''dock_'' @ B)
         \<and> (counter \<noteq> 1 \<longrightarrow> dock_name = numbered (''dock_'' @ B) (counter - 1)
               \<and> ''dock_'' @ B \<in> set existing
               \<and> (\<forall>k. 1 \<le> k \<and> k < counter - 1 \<longrightarrow> numbered (''dock_'' @ B) k \<in> set existing))"
  using next_dock_name_spec [of existing "''dock_'' @ B" "''dock_'' @ B" 1 dock_name counter] assms
  by (simp add: allocate_dock_name_def)

lemma add_widget_in_names:
  assumes "add_widget_in e i d c B T a = (d', r)"
    and "allocate_dock_name (map objectName (children d)) B = (dock_name, counter)"
  shows "objectName (last (children d')) = dock_name
         \<and> windowTitle (last (children d')) = display_title_of T counter
         \<and> (B \<noteq> [] \<and> (B = ''tree_list'' \<longleftrightarrow> c = TreeListWidget) \<and> dock_widget (last (children d')) \<noteq> None
              \<longrightarrow> dock_id (last (children d'))
                    = Some (allocate_widget_id B (display_title_of T counter) i counter))"
proof -
  have nonempty: "B \<noteq> [] \<Longrightarrow> allocate_widget_id B t i k \<noteq> []" for t k
    by (simp add: allocate_widget_id_def)
  show ?thesis
  proof (cases "construct e c (ctor_args_for B (display_title_of T counter))")
    case (Inl err)
    with assms show ?thesis by (auto simp: add_widget_in_def Let_def)
  next
    case (Inr w)
    from construct_class [OF Inr] have "w_class w = c" .
    with assms Inr nonempty [of "display_title_of T counter" counter] show ?thesis
      by (auto simp: add_widget_in_def Let_def dock_id_def set_widget_id_def set_private_id_def
               split: if_splits)
  qed
qed

lemma allocate_second_list:
  "allocate_dock_name (map objectName (children one_list)) ''custom_list'' = (''dock_custom_list_1'', 2)"
  by (simp add: allocate_dock_name_def one_list_def next_dock_name.simps numbered_def
        str_of_nat.simps digit_char_def)

lemma sanitize_Custom_List_2: "sanitize ''Custom List 2'' = ''custom_list_2''"
  by (simp add: sanitize_def replace_space_def lower_def lower_char_def)

lemma add_second_list:
  "add_widget_in sample_env 0 one_list CustomListWidget ''custom_list'' ''Custom List'' 2
     = (one_list\<lparr>children := children one_list @
                     [\<lparr>dock_ref = 1, objectName = ''dock_custom_list_1'', windowTitle = ''Custom List 2'',
                       dock_widget = Some (custom_list_widget ''Custom List 2'' None),
                       place = sample_place\<rparr>],
                  qt_log := qt_log one_list @ [AddDockWidget ''dock_custom_list_1'']\<rparr>,
        Inr 1)"
  by (simp add: add_widget_in_def allocate_second_list display_title_of_def str_of_nat.simps
        digit_char_def ctor_args_for_def construct_def allocate_widget_id_def set_widget_id_def
        custom_list_widget_def save_state_raises_def sample_env_def sanitize_Custom_List_2 Let_def)
     (simp add: one_list_def sample_place_def new_ref_def)

lemma sanitize_My_Page: "sanitize ''My Page'' = ''my_page''"
  by (simp add: sanitize_def replace_space_def lower_def lower_char_def)

lemma restore_dashboard_layout_title:
  "tab_text (restore_dashboard_layout e idx d info) = tab_text d"
proof -
  obtain d1 docks where cw: "create_widgets e idx d (di_widgets info) = (d1, docks)"
    by (cases "create_widgets e idx d (di_widgets info)")
  then have f: "fold (restore_instance e idx) (di_widgets info) (d, []) = (d1, docks)"
    by (simp add: create_widgets_fold)
  from create_shape [OF f] have "tab_text d1 = tab_text d" by blast
  moreover have "tab_text (restore_docking_state e info docks d1) = tab_text d1"
    using restore_docking_state_layout [of d1 e info docks] by (simp add: layout_only_def)
  ultimately show ?thesis
    using cw by (simp add: restore_dashboard_layout_fold)
qed

lemma saved_titles_Cons:
  "saved_titles (NotADict # es) = saved_titles es"
  "saved_titles (DashboardDict info # es)
     = (case di_title info of Some t \<Rightarrow> t | None \<Rightarrow> ''Dashboard'') # saved_titles es"
  by (simp_all add: saved_titles_def List.map_filter_def)

lemma restore_entry_NotADict: "restore_entry e NotADict (mw, n) = (mw, n)"
  by (simp add: restore_entry_def)

lemma restore_entry_Dict:
  "restore_entry e (DashboardDict info) (mw, n)
     = (addTab (restore_dashboard_layout e (length (tabs mw))
                  (DashboardTab (case di_title info of Some t \<Rightarrow> t | None \<Rightarrow> ''Dashboard'')) info) mw,
        n + 1)"
  by (simp add: restore_entry_def Let_def)

lemma fold_restore_entry_titles:
  "fold (restore_entry e) es (mw, n) = (mw', n') \<Longrightarrow>
     map tab_text (tabs mw') = map tab_text (tabs mw) @ saved_titles es
     \<and> n' = n + length (saved_titles es)"
proof (induction es arbitrary: mw n)
  case Nil
  then show ?case by (simp add: saved_titles_def List.map_filter_def)
next
  case (Cons entry es)
  show ?case
  proof (cases entry)
    case NotADict
    with Cons.prems have "fold (restore_entry e) es (mw, n) = (mw', n')"
      by (simp add: restore_entry_NotADict)
    from Cons.IH [OF this] NotADict show ?thesis by (simp add: saved_titles_Cons)
  next
    case (DashboardDict info)
    let ?t = "case di_title info of Some t \<Rightarrow> t | None \<Rightarrow> ''Dashboard''"
    let ?mw1 = "addTab (restore_dashboard_layout e (length (tabs mw)) (DashboardTab ?t) info) mw"
    from Cons.prems DashboardDict have "fold (restore_entry e) es (?mw1, n + 1) = (mw', n')"
      by (simp add: restore_entry_Dict)
    from Cons.IH [OF this] DashboardDict show ?thesis
      by (simp add: saved_titles_Cons addTab_def restore_dashboard_layout_title DashboardTab_def)
  qed
qed

lemma show_all_title: "tab_text (show_all d) = tab_text d"
  using show_all_layout [of d] by (simp add: layout_only_def)

lemma ghost_record_restored:
  "restore_dashboard_layout sample_env 0 (DashboardTab ''Work'') ghost_record = DashboardTab ''Work''"
  by (simp add: restore_dashboard_layout_fold create_widgets_fold ghost_record_def
        restore_instance_unresolvable [OF ghost_unresolvable] restore_docking_state_def)

subsection \<open>Auxiliary facts: saving and restoring a whole workspace\<close>

lemma restorable_dock_saved:
  assumes "restorable_dock e dk"
  shows "\<exists>inst. save_dock dk = Some inst \<and> restorable e inst
           \<and> dock_id dk = Some (wi_module_name inst)
           \<and> wi_geometry inst = Some (geometry_of (pl_geometry (place dk)))"
  using assms
  by (auto simp: restorable_dock_def save_dock_def dock_id_def Let_def split: option.splits)

lemma map_filter_all_Some:
  "list_all (\<lambda>x. f x \<noteq> None) xs \<Longrightarrow> List.map_filter f xs = map (\<lambda>x. the (f x)) xs"
  by (induction xs) (auto simp: List.map_filter_def)

lemma saved_widgets:
  assumes "list_all (restorable_dock e) (children d)"
  shows "di_widgets (saved_record e d) = map (\<lambda>dk. the (save_dock dk)) (children d)"
proof -
  from assms have "list_all (\<lambda>dk. save_dock dk \<noteq> None) (children d)"
    by (auto simp: list_all_iff dest: restorable_dock_saved)
  from map_filter_all_Some [OF this] show ?thesis
    by (simp add: saved_record_def save_dashboard_layout_def Let_def)
qed

lemma saved_state:
  "di_state (saved_record e d)
     = Some (if di_widgets (saved_record e d) \<noteq> [] then hex (qt_saveState e d) else [])"
  by (simp add: saved_record_def save_dashboard_layout_def Let_def)

lemma saved_title: "di_title (saved_record e d) = Some (tab_text d)"
  by (simp add: saved_record_def)

lemma saved_widgets_facts:
  assumes "list_all (restorable_dock e) (children d)"
  shows "list_all (restorable e) (di_widgets (saved_record e d))"
    and "map (\<lambda>w. (Some (wi_module_name w), normalize_geometry (the (wi_geometry w))))
           (di_widgets (saved_record e d))
         = map (\<lambda>(i, g). (i, normalize_geometry g)) (map observe_dock (children d))"
    and "list_all (\<lambda>w. wi_geometry w \<noteq> None) (di_widgets (saved_record e d))"
    and "length (di_widgets (saved_record e d)) = length (children d)"
    and "list_all applies (di_widgets (saved_record e d))"
proof -
  have each: "\<forall>dk \<in> set (children d).
                restorable e (the (save_dock dk))
                \<and> dock_id dk = Some (wi_module_name (the (save_dock dk)))
                \<and> wi_geometry (the (save_dock dk)) = Some (geometry_of (pl_geometry (place dk)))"
    using assms by (auto simp: list_all_iff dest!: restorable_dock_saved)
  show "list_all (restorable e) (di_widgets (saved_record e d))"
    using each by (simp add: saved_widgets [OF assms] list_all_iff)
  show "map (\<lambda>w. (Some (wi_module_name w), normalize_geometry (the (wi_geometry w))))
           (di_widgets (saved_record e d))
         = map (\<lambda>(i, g). (i, normalize_geometry g)) (map observe_dock (children d))"
    using each by (simp add: saved_widgets [OF assms] observe_dock_def)
  show "list_all (\<lambda>w. wi_geometry w \<noteq> None) (di_widgets (saved_record e d))"
    using each by (simp add: saved_widgets [OF assms] list_all_iff)
  show "length (di_widgets (saved_record e d)) = length (children d)"
    by (simp add: saved_widgets [OF assms])
  show "list_all applies (di_widgets (saved_record e d))"
    using each by (auto simp: saved_widgets [OF assms] list_all_iff intro: applies_saved)
qed

lemma applied_states_append:
  "qt_log d' = qt_log d @ cs \<Longrightarrow>
   applied_states d' = applied_states d
      @ List.map_filter (\<lambda>c. case c of RestoreState b \<Rightarrow> Some b | _ \<Rightarrow> None) cs"
  by (simp add: applied_states_def List.map_filter_def)

lemma applied_creation:
  "list_all is_creation cs \<Longrightarrow>
   List.map_filter (\<lambda>c. case c of RestoreState b \<Rightarrow> Some b | _ \<Rightarrow> None) cs = []"
  by (induction cs) (auto simp: List.map_filter_def is_creation_def split: qt_call.splits)

lemma applied_setVisible [simp]: "applied_states (setVisible i d) = applied_states d"
  by (simp add: applied_states_def setVisible_def List.map_filter_def)

lemma applied_restoreState [simp]: "applied_states (restoreState e b d) = applied_states d @ [b]"
  by (simp add: applied_states_def restoreState_def List.map_filter_def)

lemma applied_reapply [simp]: "applied_states (reapply_visibility ws d) = applied_states d"
proof (induction ws arbitrary: d)
  case Nil
  then show ?case by (simp add: reapply_visibility_def)
next
  case (Cons p ws)
  obtain i v where p: "p = (i, v)" by (cases p)
  have "reapply_visibility (p # ws) d = reapply_visibility ws (if v then setVisible i d else d)"
    using p by (simp add: reapply_visibility_def)
  with Cons.IH [of "if v then setVisible i d else d"] show ?case by simp
qed

lemma applied_fold_ensure_visible [simp]:
  "applied_states (fold ensure_visible docks d) = applied_states d"
proof -
  have "List.map_filter (\<lambda>c. case c of RestoreState b \<Rightarrow> Some b | _ \<Rightarrow> None)
          (concat (map round_calls docks)) = []"
    by (induction docks)
       (auto simp: List.map_filter_def round_calls_def split: option.splits)
  with applied_states_append [OF fold_ensure_visible_log, of docks d] show ?thesis by simp
qed

lemma applied_show_all [simp]: "applied_states (show_all d) = applied_states d"
proof -
  have "applied_states (fold setVisible is d) = applied_states d" for "is"
    by (induction "is" arbitrary: d) simp_all
  then show ?thesis by (simp add: show_all_def)
qed

lemma applied_restore_docking_state:
  "applied_states (restore_docking_state e info docks d)
     = applied_states d @
       (case di_state info of
          None \<Rightarrow> []
        | Some h \<Rightarrow>
            if docks = [] \<or> h = [] then []
            else (case fromhex h of None \<Rightarrow> [] | Some b \<Rightarrow> if b = [] then [] else [b]))"
  by (simp add: restore_docking_state_def restore_docking_state_body_def handled_def Let_def
           split: option.splits)

lemma layout_only_ids:
  "layout_only d d' \<Longrightarrow> map dock_id (children d') = map dock_id (children d)"
proof -
  assume "layout_only d d'"
  then have "map dock_widget (children d') = map dock_widget (children d)"
    by (simp add: layout_only_def)
  then have "map (\<lambda>w. case w of None \<Rightarrow> None | Some w \<Rightarrow> w_widget_id w) (map dock_widget (children d'))
             = map (\<lambda>w. case w of None \<Rightarrow> None | Some w \<Rightarrow> w_widget_id w) (map dock_widget (children d))"
    by simp
  then show ?thesis by (simp add: dock_id_def [abs_def] comp_def)
qed

lemma observe_placed:
  "applies inst \<Longrightarrow> wi_geometry inst = Some g
     \<Longrightarrow> observe_dock (placed inst dk) = (dock_id dk, normalize_geometry g)"
proof -
  assume ap: "applies inst" and g: "wi_geometry inst = Some g"
  from ap g have "geometry_of (qrect_of (normalize_geometry g)) = normalize_geometry g"
    by (intro geometry_of_qrect_of) (simp_all add: applies_def Let_def)
  with ap g show ?thesis
    by (simp add: observe_dock_def placed_def show_dock_def place_at_def dock_id_def)
qed

lemma restore_record:
  assumes r: "list_all (restorable e) (di_widgets info)"
    and g: "list_all (\<lambda>w. wi_geometry w \<noteq> None) (di_widgets info)"
    and ap: "list_all applies (di_widgets info)"
  shows "observe_dashboard (restore_dashboard_layout e idx (DashboardTab t) info)
           = (t, map (\<lambda>w. (Some (wi_module_name w), normalize_geometry (the (wi_geometry w))))
                   (di_widgets info))"
    and "applied_states (restore_dashboard_layout e idx (DashboardTab t) info)
           = (case di_state info of
                None \<Rightarrow> []
              | Some h \<Rightarrow>
                  if di_widgets info = [] \<or> h = [] then []
                  else (case fromhex h of None \<Rightarrow> [] | Some b \<Rightarrow> if b = [] then [] else [b]))"
proof -
  let ?ws = "di_widgets info"
  let ?d3 = "restore_dashboard_layout e idx (DashboardTab t) info"
  obtain d1 docks where cw: "create_widgets e idx (DashboardTab t) ?ws = (d1, docks)"
    by (cases "create_widgets e idx (DashboardTab t) ?ws")
  then have f: "fold (restore_instance e idx) ?ws (DashboardTab t, []) = (d1, docks)"
    by (simp add: create_widgets_fold)
  from create_restorable [OF f r] have
    ids1: "map dock_id (children d1) = map (\<lambda>inst. Some (wi_module_name inst)) ?ws"
    and refs1: "map dock_ref (children d1) = [0 ..< length ?ws]"
    and docks: "docks = zip [0 ..< length ?ws] ?ws"
    by (auto simp: DashboardTab_def new_ref_def)
  from create_shape [OF f] obtain created where
    t1: "tab_text d1 = t" and log1: "qt_log d1 = created" "list_all is_creation created"
    by (auto simp: DashboardTab_def)
  let ?d2 = "restore_docking_state e info docks d1"
  have lay: "layout_only d1 ?d2" by (rule restore_docking_state_layout)
  have refs2: "map dock_ref (children ?d2) = [0 ..< length ?ws]"
    using lay refs1 by (simp add: layout_only_def)
  have ids2: "map dock_id (children ?d2) = map (\<lambda>inst. Some (wi_module_name inst)) ?ws"
    using layout_only_ids [OF lay] ids1 by simp
  have len2: "length (children ?d2) = length ?ws"
    using refs2 by (metis length_map length_upt minus_nat.diff_0)
  have d3: "?d3 = fold ensure_visible (zip (map dock_ref (children ?d2)) ?ws) ?d2"
    using cw docks refs2 by (simp add: restore_dashboard_layout_fold)
  have "children ?d3 = [] @ map (\<lambda>(dk, inst). placed inst dk) (zip (children ?d2) ?ws)"
    unfolding d3
  proof (rule fold_ensure_visible_all)
    show "children ?d2 = children ?d2 @ []" by simp
    show "distinct (map dock_ref (children ?d2 @ []))" using refs2 by simp
    show "length ?ws = length (children ?d2)" using len2 by simp
    show "list_all applies ?ws" by (rule ap)
  qed
  then have ch3: "children ?d3 = map (\<lambda>(dk, inst). placed inst dk) (zip (children ?d2) ?ws)"
    by simp
  have t3: "tab_text ?d3 = t"
    using t1 lay by (simp add: d3 layout_only_def)
  have "map observe_dock (children ?d3)
          = map (\<lambda>w. (Some (wi_module_name w), normalize_geometry (the (wi_geometry w)))) ?ws"
  proof (rule nth_equalityI)
    show "length (map observe_dock (children ?d3))
            = length (map (\<lambda>w. (Some (wi_module_name w), normalize_geometry (the (wi_geometry w)))) ?ws)"
      using len2 by (simp add: ch3)
  next
    fix i assume "i < length (map observe_dock (children ?d3))"
    then have i: "i < length ?ws" using len2 by (simp add: ch3)
    from g i obtain gi where gi: "wi_geometry (?ws ! i) = Some gi"
      by (auto simp: list_all_length)
    from ap i have api: "applies (?ws ! i)" by (simp add: list_all_length)
    have "dock_id (children ?d2 ! i) = map dock_id (children ?d2) ! i"
      using i len2 by simp
    also have "\<dots> = Some (wi_module_name (?ws ! i))"
      using i by (simp add: ids2)
    finally have id: "dock_id (children ?d2 ! i) = Some (wi_module_name (?ws ! i))" .
    have "map observe_dock (children ?d3) ! i = observe_dock (placed (?ws ! i) (children ?d2 ! i))"
      using i len2 by (simp add: ch3)
    also have "\<dots> = (Some (wi_module_name (?ws ! i)), normalize_geometry gi)"
      using observe_placed [OF api gi] id by simp
    finally show "map observe_dock (children ?d3) ! i
            = map (\<lambda>w. (Some (wi_module_name w), normalize_geometry (the (wi_geometry w)))) ?ws ! i"
      using i gi by simp
  qed
  with t3 show "observe_dashboard ?d3
           = (t, map (\<lambda>w. (Some (wi_module_name w), normalize_geometry (the (wi_geometry w)))) ?ws)"
    by (simp add: observe_dashboard_def)
  have a1: "applied_states d1 = []"
    using log1 applied_creation [OF log1(2)] by (simp add: applied_states_def)
  have empty: "docks = [] \<longleftrightarrow> ?ws = []" using docks by auto
  show "applied_states ?d3
           = (case di_state info of
                None \<Rightarrow> []
              | Some h \<Rightarrow>
                  if ?ws = [] \<or> h = [] then []
                  else (case fromhex h of None \<Rightarrow> [] | Some b \<Rightarrow> if b = [] then [] else [b]))"
    using cw a1 empty
    by (simp add: restore_dashboard_layout_fold applied_restore_docking_state split: option.splits)
qed

lemma restore_saved_record:
  assumes "list_all (restorable_dock e) (children d)"
  shows "observe_dashboard (restore_dashboard_layout e idx (DashboardTab (tab_text d)) (saved_record e d))
           = clamped (observe_dashboard d)
         \<and> applied_states (restore_dashboard_layout e idx (DashboardTab (tab_text d)) (saved_record e d))
           = blob_to_apply e d"
proof -
  note facts = saved_widgets_facts [OF assms]
  from restore_record(1) [OF facts(1) facts(3) facts(5), of idx "tab_text d"] facts(2)
  have obs: "observe_dashboard (restore_dashboard_layout e idx (DashboardTab (tab_text d)) (saved_record e d))
           = clamped (observe_dashboard d)"
    by (simp add: clamped_def observe_dashboard_def)
  have empty: "di_widgets (saved_record e d) = [] \<longleftrightarrow> children d = []"
    using facts(4) by (metis length_0_conv)
  from restore_record(2) [OF facts(1) facts(3) facts(5), of idx "tab_text d"]
  have "applied_states (restore_dashboard_layout e idx (DashboardTab (tab_text d)) (saved_record e d))
           = blob_to_apply e d"
    by (simp add: saved_state empty fromhex_hex hex_empty blob_to_apply_def)
  with obs show ?thesis by simp
qed

lemma fold_restore_saved:
  "fold (restore_entry e) (map (\<lambda>d. DashboardDict (saved_record e d)) ds) (mw, n) = (mw', n')
   \<Longrightarrow> list_all (\<lambda>d. list_all (restorable_dock e) (children d)) ds
   \<Longrightarrow> map observe_dashboard (tabs mw') = map observe_dashboard (tabs mw) @ map (\<lambda>d. clamped (observe_dashboard d)) ds
       \<and> map applied_states (tabs mw') = map applied_states (tabs mw) @ map (blob_to_apply e) ds
       \<and> n' = n + length ds"
proof (induction ds arbitrary: mw n)
  case Nil
  then show ?case by simp
next
  case (Cons d ds)
  let ?d' = "restore_dashboard_layout e (length (tabs mw)) (DashboardTab (tab_text d)) (saved_record e d)"
  from Cons.prems(1) have rest:
    "fold (restore_entry e) (map (\<lambda>d. DashboardDict (saved_record e d)) ds) (addTab ?d' mw, n + 1) = (mw', n')"
    by (simp add: restore_entry_Dict saved_title)
  from Cons.prems(2) have wf: "list_all (restorable_dock e) (children d)"
    and wfs: "list_all (\<lambda>d. list_all (restorable_dock e) (children d)) ds" by simp_all
  from Cons.IH [OF rest wfs] restore_saved_record [OF wf, of "length (tabs mw)"]
  show ?case by (simp add: addTab_def)
qed

lemma show_all_observe: "observe_dashboard (show_all d) = observe_dashboard d"
proof -
  have step: "observe_dashboard (setVisible r d) = observe_dashboard d" for r d
  proof -
    have "map observe_dock (children (update_dock r show_dock d)) = map observe_dock (children d)"
      by (rule update_dock_maps) (simp add: observe_dock_def show_dock_def dock_id_def)
    then show ?thesis by (simp add: observe_dashboard_def setVisible_def)
  qed
  have "observe_dashboard (fold setVisible is d) = observe_dashboard d" for "is"
    by (induction "is" arbitrary: d) (simp_all add: step)
  then show ?thesis by (simp add: show_all_def)
qed

lemma round_trip:
  assumes "well_formed e mw"
  shows "observe (restore_layout e (Some (save_layout e mw)) mw0) = map clamped (observe mw)"
    and "map applied_states (tabs (restore_layout e (Some (save_layout e mw)) mw0))
           = map (blob_to_apply e) (tabs mw)"
proof -
  let ?es = "map (\<lambda>d. DashboardDict (saved_record e d)) (tabs mw)"
  have sl: "save_layout e mw = Decoded ?es"
    by (simp add: save_layout_def saved_record_def)
  from assms have ne: "tabs mw \<noteq> []"
    and wf: "list_all (\<lambda>d. list_all (restorable_dock e) (children d)) (tabs mw)"
    by (simp_all add: well_formed_def)
  obtain mw1 n where f: "fold (restore_entry e) ?es (mw0\<lparr>tabs := []\<rparr>, 0) = (mw1, n)"
    by (cases "fold (restore_entry e) ?es (mw0\<lparr>tabs := []\<rparr>, 0)")
  from fold_restore_saved [OF f wf] have
    o1: "map observe_dashboard (tabs mw1) = map (\<lambda>d. clamped (observe_dashboard d)) (tabs mw)"
    and a1: "map applied_states (tabs mw1) = map (blob_to_apply e) (tabs mw)"
    and n: "n = length (tabs mw)"
    by simp_all
  from o1 ne have ne1: "tabs mw1 \<noteq> []" by auto
  from n ne have n0: "n \<noteq> 0" by simp
  have res: "restore_layout e (Some (save_layout e mw)) mw0
               = mw1\<lparr>tabs := (tabs mw1)[0 := show_all (tabs mw1 ! 0)], currentIndex := 0\<rparr>"
    using f ne ne1 n0 by (simp add: restore_layout_def sl)
  have "map observe_dashboard ((tabs mw1)[0 := show_all (tabs mw1 ! 0)]) = map observe_dashboard (tabs mw1)"
    by (rule map_update_same) (simp add: show_all_observe)
  with o1 res show "observe (restore_layout e (Some (save_layout e mw)) mw0) = map clamped (observe mw)"
    by (simp add: observe_def comp_def)
  have "map applied_states ((tabs mw1)[0 := show_all (tabs mw1 ! 0)]) = map applied_states (tabs mw1)"
    by (rule map_update_same) simp
  with a1 res show "map applied_states (tabs (restore_layout e (Some (save_layout e mw)) mw0))
           = map (blob_to_apply e) (tabs mw)"
    by simp
qed

lemma wide_well_formed: "well_formed sample_env wide_window"
  by (simp add: well_formed_def wide_window_def restorable_dock_def save_dock_def wide_clock_def
        startswith_def restorable_def base_module_of_def resolve_def sample_env_def
        builtin_plugins_def plugin_def accepts_def construct_def ctor_args_for_def Let_def)

lemma wide_observed:
  "observe wide_window
     = [(''Main'', [(Some ''clock'', \<lparr>geom_x = 10, geom_y = 20, geom_width = 5000, geom_height = 600\<rparr>)])]"
  by (simp add: observe_def observe_dashboard_def observe_dock_def wide_window_def wide_clock_def
        dock_id_def geometry_of_def)

subsection \<open>Auxiliary facts: more sample data\<close>

lemma calculator_base: "base_module_of ''calculator'' = ''calculator''"
  by (simp add: base_module_of_def startswith_def)

lemma clock_base: "base_module_of ''clock'' = ''clock''"
  by (simp add: base_module_of_def startswith_def)

lemma allocate_first: "allocate_dock_name [] n = (''dock_'' @ n, 1)"
  by (simp add: allocate_dock_name_def next_dock_name.simps)

lemma mixed_created:
  "create_widgets sample_env 0 (DashboardTab ''Work'') (di_widgets mixed_record)
     = (\<lparr>tab_text = ''Work'',
         children = [\<lparr>dock_ref = 0, objectName = ''dock_custom_list'', windowTitle = ''Groceries'',
                      dock_widget = Some \<lparr>w_class = CustomListWidget,
                                           w_widget_id = Some ''custom_list_groceries'',
                                           w_list_title = Some ''Groceries''\<rparr>,
                      place = sample_place\<rparr>,
                     \<lparr>dock_ref = 1, objectName = ''dock_calculator'', windowTitle = ''Calculator'',
                      dock_widget = Some \<lparr>w_class = CalculatorWidget,
                                           w_widget_id = Some ''calculator'',
                                           w_list_title = None\<rparr>,
                      place = sample_place\<rparr>],
         qt_log = [AddDockWidget ''dock_custom_list'', AddDockWidget ''dock_calculator'']\<rparr>,
        [(0, groceries)])"
proof -
  have first: "fold (restore_instance sample_env 0) [ghost, groceries] (DashboardTab ''Work'', [])
     = (\<lparr>tab_text = ''Work'',
         children = [\<lparr>dock_ref = 0, objectName = ''dock_custom_list'', windowTitle = ''Groceries'',
                      dock_widget = Some \<lparr>w_class = CustomListWidget,
                                           w_widget_id = Some ''custom_list_groceries'',
                                           w_list_title = Some ''Groceries''\<rparr>,
                      place = sample_place\<rparr>],
         qt_log = [AddDockWidget ''dock_custom_list'']\<rparr>,
        [(0, groceries)])"
    using work_created by (simp add: create_widgets_fold work_record_def)
  have names: "allocate_dock_name [''dock_custom_list''] ''calculator'' = (''dock_calculator'', 1)"
    by (simp add: allocate_dock_name_def next_dock_name.simps)
  show ?thesis
    by (simp add: create_widgets_fold mixed_record_def first [simplified])
       (simp add: restore_instance_unfold calculator_entry_def calculator_base resolve_def
          sample_env_def builtin_plugins_def plugin_def add_widget_in_def names display_title_of_def
          ctor_args_for_def construct_def fixed_id_def allocate_widget_id_def set_widget_id_def
          save_state_raises_def new_ref_def Let_def sample_place_def)
qed

lemma far_created:
  "create_widgets startup_env 0 (DashboardTab ''Work'') (di_widgets far_record)
     = (\<lparr>tab_text = ''Work'',
         children = [\<lparr>dock_ref = 0, objectName = ''dock_clock'', windowTitle = ''Clock'',
                      dock_widget = Some \<lparr>w_class = ClockWidget, w_widget_id = Some ''clock'',
                                           w_list_title = None\<rparr>,
                      place = sample_place\<lparr>pl_visible := False\<rparr>\<rparr>],
         qt_log = [AddDockWidget ''dock_clock'']\<rparr>,
        [(0, far_clock)])"
  by (simp add: create_widgets_fold far_record_def restore_instance_unfold far_clock_def clock_base
        resolve_def startup_env_def sample_env_def builtin_plugins_def plugin_def add_widget_in_def
        DashboardTab_def allocate_first display_title_of_def ctor_args_for_def construct_def
        fixed_id_def allocate_widget_id_def set_widget_id_def save_state_raises_def new_ref_def
        assign_id_at_def update_dock_def Let_def)
     (simp add: sample_place_def)

lemma far_not_applies: "\<not> applies far_clock"
  by (simp add: applies_def far_clock_def normalize_geometry_def fits_c_int_def Let_def)

lemma groceries_applies: "applies groceries"
  by (simp add: applies_def groceries_def normalize_geometry_def fits_c_int_def Let_def)

lemma far_restored:
  "restore_dashboard_layout_body startup_env 0 (DashboardTab ''Work'') far_record
     = (\<lparr>tab_text = ''Work'',
         children = [\<lparr>dock_ref = 0, objectName = ''dock_clock'', windowTitle = ''Clock'',
                      dock_widget = Some \<lparr>w_class = ClockWidget, w_widget_id = Some ''clock'',
                                           w_list_title = None\<rparr>,
                      place = sample_place\<lparr>pl_visible := False\<rparr>\<rparr>],
         qt_log = [AddDockWidget ''dock_clock'']\<rparr>, None)"
  by (simp add: restore_dashboard_layout_body_fold far_created)
     (simp add: restore_docking_state_def far_record_def ensure_visible_unfold far_not_applies)

lemma mixed_restored:
  "restore_dashboard_layout_body sample_env 0 (DashboardTab ''Work'') mixed_record
     = (\<lparr>tab_text = ''Work'',
         children = [\<lparr>dock_ref = 1, objectName = ''dock_calculator'', windowTitle = ''Calculator'',
                      dock_widget = Some \<lparr>w_class = CalculatorWidget,
                                           w_widget_id = Some ''calculator'',
                                           w_list_title = None\<rparr>,
                      place = sample_place\<lparr>pl_visible := False\<rparr>\<rparr>,
                     \<lparr>dock_ref = 0, objectName = ''dock_custom_list'', windowTitle = ''Groceries'',
                      dock_widget = Some \<lparr>w_class = CustomListWidget,
                                           w_widget_id = Some ''custom_list_groceries'',
                                           w_list_title = Some ''Groceries''\<rparr>,
                      place = \<lparr>pl_area = 2, pl_floating = False, pl_visible = True,
                               pl_geometry = \<lparr>rect_x = 0, rect_y = 10, rect_width = 2000,
                                              rect_height = 100\<rparr>\<rparr>\<rparr>],
         qt_log = [AddDockWidget ''dock_custom_list'', AddDockWidget ''dock_calculator'',
                   RestoreState [0x0a, 0x0b], SetVisible 0,
                   SetGeometry 0 \<lparr>geom_x = 0, geom_y = 10, geom_width = 2000, geom_height = 100\<rparr>,
                   SetVisible 0, Raise 0]\<rparr>, None)"
proof -
  have state: "di_state mixed_record = Some ''0a0b''" by (simp add: mixed_record_def)
  have geo: "wi_geometry groceries = Some \<lparr>geom_x = - 5, geom_y = 10, geom_width = 5000, geom_height = 50\<rparr>"
    by (simp add: groceries_def)
  show ?thesis
    by (simp add: restore_dashboard_layout_body_fold mixed_created)
       (simp add: restore_docking_state_def restore_docking_state_body_def handled_def state
          hexval_def is_ascii_space_def isVisible_def the_dock_def restoreState_def enumerate_eq_zip
          reapply_visibility_def setVisible_def update_dock_def show_dock_def
          ensure_visible_unfold groceries_applies geo normalize_geometry_def place_at_def
          qrect_of_def raise_dock_def sample_env_def sample_place_def Let_def)
qed

subsection \<open>C1: saving and restoring the workspace\<close>

text \<open>
  C1, as stated: restoring a saved workspace gives back the same dashboards, the same widget
  ids in the same order and the same geometry. The geometry is not kept when it lies outside
  the bounds of the last loop of \<^verbatim>\<open>restore_dashboard_layout\<close>: a clock saved 5000 wide comes
  back 2000 wide.
\<close>

theorem C1_counterexample:
  "well_formed sample_env wide_window
   \<and> observe wide_window
       = [(''Main'', [(Some ''clock'', \<lparr>geom_x = 10, geom_y = 20, geom_width = 5000, geom_height = 600\<rparr>)])]
   \<and> observe (restore_layout sample_env (Some (save_layout sample_env wide_window)) empty_window)
       = [(''Main'', [(Some ''clock'', \<lparr>geom_x = 10, geom_y = 20, geom_width = 2000, geom_height = 600\<rparr>)])]
   \<and> observe (restore_layout sample_env (Some (save_layout sample_env wide_window)) empty_window)
       \<noteq> observe wide_window"
proof -
  from round_trip(1) [OF wide_well_formed, of empty_window]
  have "observe (restore_layout sample_env (Some (save_layout sample_env wide_window)) empty_window)
       = [(''Main'', [(Some ''clock'', \<lparr>geom_x = 10, geom_y = 20, geom_width = 2000, geom_height = 600\<rparr>)])]"
    by (simp add: wide_observed clamped_def normalize_geometry_def)
  with wide_well_formed wide_observed show ?thesis by simp
qed

text \<open>
  C1, amended. A workspace is well formed when it has a dashboard and each of its docks holds a
  widget whose id is set and is restorable: it resolves to a registered class that can be
  constructed, whose \<^verbatim>\<open>save_state\<close> does not raise and whose \<^verbatim>\<open>widget_id\<close> can be assigned.
  Saving such a workspace and restoring the saved document, into any window, yields the same
  dashboards in the same order with the same titles, in each the same widget ids in the same
  order, and for each widget the saved geometry clamped (x and y raised to 0, width into 100
  to 2000, height into 100 to 1200). The blob of each dashboard decodes from its hex text to
  the same bytes, and it is what \<^verbatim>\<open>restoreState\<close> receives, once, when the dashboard has docks
  and the blob is not empty.
\<close>

theorem C1_round_trip_clamped:
  assumes "well_formed e mw"
  shows "observe (restore_layout e (Some (save_layout e mw)) mw0) = map clamped (observe mw)
       \<and> map applied_states (tabs (restore_layout e (Some (save_layout e mw)) mw0))
           = map (blob_to_apply e) (tabs mw)
       \<and> (\<forall>d \<in> set (tabs mw). fromhex (hex (qt_saveState e d)) = Some (qt_saveState e d))"
  using round_trip [OF assms] by (simp add: fromhex_hex)

theorem C1_round_trip_clamped_witness:
  "well_formed sample_env wide_window
   \<and> observe (restore_layout sample_env (Some (save_layout sample_env wide_window)) empty_window)
       = [(''Main'', [(Some ''clock'', \<lparr>geom_x = 10, geom_y = 20, geom_width = 2000, geom_height = 600\<rparr>)])]
   \<and> map applied_states (tabs (restore_layout sample_env (Some (save_layout sample_env wide_window)) empty_window))
       = [[[0x0a, 0x0b]]]"
proof -
  have blobs: "map (blob_to_apply sample_env) (tabs wide_window) = [[[0x0a, 0x0b]]]"
    by (simp add: blob_to_apply_def wide_window_def sample_env_def)
  have obs: "map clamped (observe wide_window)
       = [(''Main'', [(Some ''clock'', \<lparr>geom_x = 10, geom_y = 20, geom_width = 2000, geom_height = 600\<rparr>)])]"
    by (simp add: wide_observed clamped_def normalize_geometry_def)
  from C1_round_trip_clamped [OF wide_well_formed, of empty_window] wide_well_formed
  show ?thesis by (simp only: blobs obs)
qed

subsection \<open>C2: nothing stored\<close>

text \<open>
  C2: when the value stored under the workspace key is absent, cannot be decoded, or is the
  empty list, \<^verbatim>\<open>restore_layout\<close> adds exactly one dashboard, the default one, with no widget in
  it, and restores nothing else. At start-up the window has no tab yet, so this is its only
  dashboard.
\<close>

theorem C2_default_dashboard:
  assumes "stored = None \<or> stored = Some Undecodable \<or> stored = Some (Decoded [])"
  shows "tabs (restore_layout e stored mw)
           = tabs mw @ [\<lparr>tab_text = new_dashboard_title e mw, children = [], qt_log = []\<rparr>]"
  using assms
  by (auto simp: restore_layout_def add_dashboard_def addTab_def DashboardTab_def)

theorem C2_default_dashboard_witness:
  "(None = None \<or> None = Some Undecodable \<or> None = Some (Decoded []))
   \<and> tabs (restore_layout sample_env None empty_window)
       = [\<lparr>tab_text = ''Dashboard 1'', children = [], qt_log = []\<rparr>]"
  using C2_default_dashboard [of None sample_env empty_window]
  by (simp add: empty_window_def new_dashboard_title_def sample_env_def str_of_nat.simps digit_char_def)

subsection \<open>C3: an entry whose module is not registered\<close>

text \<open>
  C3: when a saved dashboard record has an entry that is not registered (its id is empty, or
  the registry has no plugin with a widget class under the kind of the id), the restore skips
  that entry and goes on. The entry is not among the restored ones, whose number is therefore
  smaller than the number of entries. No exception leaves the body of
  \<^verbatim>\<open>restore_dashboard_layout\<close>, so that its outermost \<^verbatim>\<open>except\<close> clause is not even entered.
  Every entry that is registered with a class the host can construct and save is restored: it
  is in the list of restored docks, and its dock, on the dashboard at the end, carries a widget
  of the registered class with the persisted id. When the registry holds classes that can be
  constructed the way the host constructs them (as the built-in one does), the restored entries
  are, in order, exactly the registered ones, except those a calculator is registered for (its
  \<^verbatim>\<open>save_state\<close> raises inside \<^verbatim>\<open>add_widget\<close>, after the dock was made); and the docks on the
  dashboard at the end are the ones it had, and one for each registered entry, with the class
  registered for it.
\<close>

theorem C3_unregistered_skipped:
  assumes "bad \<in> set (di_widgets info)"
    and "registered_for (plugins e) (wi_module_name bad) = None"
  shows "bad \<notin> snd ` set (restored_docks e idx d info)
       \<and> length (restored_docks e idx d info) < length (di_widgets info)
       \<and> snd (restore_dashboard_layout_body e idx d info) = None
       \<and> (\<forall>inst \<in> set (di_widgets info).
             restores e inst \<longrightarrow>
               (\<exists>r dk. (r, inst) \<in> set (restored_docks e idx d info)
                   \<and> the_dock r (restore_dashboard_layout e idx d info) = Some dk
                   \<and> dock_id dk = Some (wi_module_name inst)
                   \<and> dock_class dk = registered_for (plugins e) (wi_module_name inst)))
       \<and> (consistent e \<longrightarrow>
             map snd (restored_docks e idx d info) = filter (counted e) (di_widgets info)
             \<and> mset (map dock_class (children (restore_dashboard_layout e idx d info)))
                 = mset (map dock_class (children d))
                   + mset (map (\<lambda>inst. registered_for (plugins e) (wi_module_name inst))
                            (filter (registered e) (di_widgets info))))"
proof -
  let ?ws = "di_widgets info"
  obtain d1 docks where cw: "create_widgets e idx d ?ws = (d1, docks)"
    by (cases "create_widgets e idx d ?ws")
  then have f: "fold (restore_instance e idx) ?ws (d, []) = (d1, docks)"
    by (simp add: create_widgets_fold)
  have rd: "restored_docks e idx d info = docks"
    using cw by (simp add: restored_docks_def)
  from assms(2) have unres: "\<not> resolvable e bad"
    using registered_resolvable [of e bad] by (simp add: registered_def)
  from create_restored_resolvable [OF f] have "\<forall>p \<in> set docks. resolvable e (snd p)" by simp
  with unres have skipped: "bad \<notin> snd ` set (restored_docks e idx d info)"
    by (auto simp: rd)
  from create_shape [OF f] have "length docks \<le> length (filter (resolvable e) ?ws)"
    by auto
  moreover from assms(1) unres have "length (filter (resolvable e) ?ws) < length ?ws"
    by (rule length_filter_less)
  ultimately have count: "length (restored_docks e idx d info) < length ?ws"
    by (simp add: rd)
  have quiet: "snd (restore_dashboard_layout_body e idx d info) = None"
    by (simp add: restore_dashboard_layout_body_fold split: prod.splits)
  have each: "\<exists>r dk. (r, inst) \<in> set (restored_docks e idx d info)
                   \<and> the_dock r (restore_dashboard_layout e idx d info) = Some dk
                   \<and> dock_id dk = Some (wi_module_name inst)
                   \<and> dock_class dk = registered_for (plugins e) (wi_module_name inst)"
    if mem: "inst \<in> set ?ws" and ok: "restores e inst" for inst
  proof -
    from ok have rest: "restorable e inst" by (simp add: restores_restorable)
    then have res: "resolvable e inst"
      by (auto simp: restorable_def resolvable_def Let_def split: option.splits)
    from create_restores_each [OF f mem rest] obtain r dk where
      r: "(r, inst) \<in> set docks" "the_dock r d1 = Some dk"
         "dock_id dk = Some (wi_module_name inst)" "dock_class dk = registered_class e inst"
      by blast
    from r(1) have mem': "(r, inst) \<in> set (restored_docks e idx d info)" by (simp add: rd)
    let ?d2 = "restore_docking_state e info docks d1"
    from restored_dock_final [OF mem'] cw rd
    have fin: "the_dock r (restore_dashboard_layout e idx d info) = map_option (placed inst) (the_dock r ?d2)"
      and pres: "the_dock r ?d2 \<noteq> None"
      by simp_all
    have lay: "layout_only d1 ?d2" by (rule restore_docking_state_layout)
    have same: "map_option dock_widget (the_dock r ?d2) = map_option dock_widget (the_dock r d1)"
    proof -
      from lay have eq: "map dock_ref (children ?d2) = map dock_ref (children d1)"
        "map dock_widget (children ?d2) = map dock_widget (children d1)"
        by (simp_all add: layout_only_def)
      have "map_option dock_widget (find (\<lambda>dk. dock_ref dk = r) xs)
              = map_option dock_widget (find (\<lambda>dk. dock_ref dk = r) ys)"
        if "map dock_ref xs = map dock_ref ys" "map dock_widget xs = map dock_widget ys"
        for xs ys :: "dock list"
        using that
      proof (induction xs arbitrary: ys)
        case Nil
        then show ?case by simp
      next
        case (Cons x xs)
        then obtain y ys' where ys: "ys = y # ys'" by (cases ys) auto
        with Cons.prems have "dock_ref x = dock_ref y" "dock_widget x = dock_widget y"
          "map dock_ref xs = map dock_ref ys'" "map dock_widget xs = map dock_widget ys'"
          by simp_all
        with Cons.IH [of ys'] ys show ?case by simp
      qed
      from this [OF eq] show ?thesis by (simp add: the_dock_def)
    qed
    from pres obtain dk2 where dk2: "the_dock r ?d2 = Some dk2" by auto
    with same r(2) have w2: "dock_widget dk2 = dock_widget dk" by simp
    have pw: "dock_widget (placed inst dk2) = dock_widget dk2"
      by (simp add: placed_def show_dock_def place_at_def split: option.splits)
    from fin dk2 have "the_dock r (restore_dashboard_layout e idx d info) = Some (placed inst dk2)"
      by simp
    moreover have "dock_id (placed inst dk2) = Some (wi_module_name inst)"
      using r(3) w2 pw by (simp add: dock_id_def)
    moreover have "dock_class (placed inst dk2) = registered_for (plugins e) (wi_module_name inst)"
      using r(4) w2 pw registered_for_class [OF res] by (simp add: dock_class_def)
    ultimately show ?thesis using mem' by blast
  qed
  have whole: "map snd (restored_docks e idx d info) = filter (counted e) ?ws
             \<and> mset (map dock_class (children (restore_dashboard_layout e idx d info)))
                 = mset (map dock_class (children d))
                   + mset (map (\<lambda>inst. registered_for (plugins e) (wi_module_name inst))
                            (filter (registered e) ?ws))"
    if con: "consistent e"
  proof -
    have cf: "counted e = (\<lambda>inst. resolvable e inst
                 \<and> (base_module_of (wi_module_name inst) = ''custom_list''
                    \<or> base_module_of (wi_module_name inst) = ''tree_list''
                    \<or> (registered_class e inst \<noteq> Some CalculatorWidget
                        \<and> registered_class e inst \<noteq> Some ScientificCalculatorWidget)))"
      by (intro ext) (rule counted_resolvable)
    from create_counted [OF f con] have a: "map snd (restored_docks e idx d info) = filter (counted e) ?ws"
      by (simp add: rd cf)
    from create_classes [OF f con] obtain new where
      new: "children d1 = children d @ new"
           "map dock_class new = map (registered_class e) (filter (resolvable e) ?ws)"
      by blast
    have rf: "filter (registered e) ?ws = filter (resolvable e) ?ws"
      by (simp add: registered_resolvable [abs_def])
    have cls: "map (\<lambda>inst. registered_for (plugins e) (wi_module_name inst)) (filter (resolvable e) ?ws)
                 = map (registered_class e) (filter (resolvable e) ?ws)"
      by (rule map_cong) (simp_all add: registered_for_class)
    have dc: "map dock_class xs = map (map_option w_class) (map dock_widget xs)" for xs
      by (simp add: dock_class_def [abs_def])
    have "mset (map dock_class (children (restore_dashboard_layout e idx d info)))
            = image_mset (map_option w_class)
                (image_mset dock_widget (mset (children (restore_dashboard_layout e idx d info))))"
      by (simp add: dock_class_def [abs_def] multiset.map_comp comp_def)
    also have "\<dots> = image_mset (map_option w_class) (image_mset dock_widget (mset (children d1)))"
      using restore_dashboard_layout_widgets [of e idx d info] cw by simp
    also have "\<dots> = mset (map dock_class (children d1))"
      by (simp add: dock_class_def [abs_def] multiset.map_comp comp_def)
    also have "\<dots> = mset (map dock_class (children d)) + mset (map dock_class new)"
      using new(1) by simp
    finally have b: "mset (map dock_class (children (restore_dashboard_layout e idx d info)))
                 = mset (map dock_class (children d))
                   + mset (map (\<lambda>inst. registered_for (plugins e) (wi_module_name inst))
                            (filter (registered e) ?ws))"
      by (simp only: new(2) rf cls)
    from a b show ?thesis by simp
  qed
  from skipped count quiet each whole show ?thesis by blast
qed

theorem C3_unregistered_skipped_witness:
  "ghost \<in> set (di_widgets mixed_record)
   \<and> registered_for (plugins sample_env) (wi_module_name ghost) = None
   \<and> consistent sample_env
   \<and> restores sample_env groceries
   \<and> di_widgets mixed_record = [ghost, groceries, calculator_entry]
   \<and> restored_docks sample_env 0 (DashboardTab ''Work'') mixed_record = [(0, groceries)]
   \<and> length (restored_docks sample_env 0 (DashboardTab ''Work'') mixed_record)
       < length (di_widgets mixed_record)
   \<and> filter (counted sample_env) (di_widgets mixed_record) = [groceries]
   \<and> filter (registered sample_env) (di_widgets mixed_record) = [groceries, calculator_entry]
   \<and> restore_dashboard_layout_body sample_env 0 (DashboardTab ''Work'') mixed_record
       = (\<lparr>tab_text = ''Work'',
           children = [\<lparr>dock_ref = 1, objectName = ''dock_calculator'', windowTitle = ''Calculator'',
                        dock_widget = Some \<lparr>w_class = CalculatorWidget,
                                             w_widget_id = Some ''calculator'',
                                             w_list_title = None\<rparr>,
                        place = sample_place\<lparr>pl_visible := False\<rparr>\<rparr>,
                       \<lparr>dock_ref = 0, objectName = ''dock_custom_list'', windowTitle = ''Groceries'',
                        dock_widget = Some \<lparr>w_class = CustomListWidget,
                                             w_widget_id = Some ''custom_list_groceries'',
                                             w_list_title = Some ''Groceries''\<rparr>,
                        place = \<lparr>pl_area = 2, pl_floating = False, pl_visible = True,
                                 pl_geometry = \<lparr>rect_x = 0, rect_y = 10, rect_width = 2000,
                                                rect_height = 100\<rparr>\<rparr>\<rparr>],
           qt_log = [AddDockWidget ''dock_custom_list'', AddDockWidget ''dock_calculator'',
                     RestoreState [0x0a, 0x0b], SetVisible 0,
                     SetGeometry 0 \<lparr>geom_x = 0, geom_y = 10, geom_width = 2000, geom_height = 100\<rparr>,
                     SetVisible 0, Raise 0]\<rparr>, None)"
proof -
  have mem: "ghost \<in> set (di_widgets mixed_record)" by (simp add: mixed_record_def)
  have bad: "registered_for (plugins sample_env) (wi_module_name ghost) = None"
    by (simp add: registered_for_def kind_of_id_def known_kinds_def startswith_def ghost_def
          sample_env_def builtin_plugins_def)
  have ok: "restores sample_env groceries"
    by (simp add: restores_def registered_for_def kind_of_id_def known_kinds_def startswith_def
          groceries_def sample_env_def builtin_plugins_def plugin_def Let_def)
  have ws: "di_widgets mixed_record = [ghost, groceries, calculator_entry]"
    by (simp add: mixed_record_def)
  have docks: "restored_docks sample_env 0 (DashboardTab ''Work'') mixed_record = [(0, groceries)]"
    by (simp add: restored_docks_def mixed_created)
  have cnt: "filter (counted sample_env) (di_widgets mixed_record) = [groceries]"
    by (simp add: ws counted_def registered_for_def kind_of_id_def known_kinds_def startswith_def
          ghost_def groceries_def calculator_entry_def sample_env_def builtin_plugins_def plugin_def)
  have reg: "filter (registered sample_env) (di_widgets mixed_record) = [groceries, calculator_entry]"
    by (simp add: ws registered_def registered_for_def kind_of_id_def known_kinds_def startswith_def
          ghost_def groceries_def calculator_entry_def sample_env_def builtin_plugins_def plugin_def)
  from C3_unregistered_skipped [OF mem bad, of 0 "DashboardTab ''Work''"]
  have less: "length (restored_docks sample_env 0 (DashboardTab ''Work'') mixed_record)
                < length (di_widgets mixed_record)"
    by blast
  from mem bad consistent_sample ok ws docks less cnt reg mixed_restored show ?thesis
    by (simp only: simp_thms)
qed

subsection \<open>C4: renaming a custom list\<close>

text \<open>
  C4 asks that a rename moves every key stored under the old id to the new id. The code means
  to (\<^verbatim>\<open># Move settings to new widget ID if it changed\<close>), but the setter of \<^verbatim>\<open>widget_id\<close>, run
  before the move, has already replaced the columns in memory by what the store holds under the
  new id, which is nothing: the columns written under \<^verbatim>\<open>custom_list_bar\<close> are the default
  column alone, and those of \<^verbatim>\<open>custom_list_foo\<close> are overwritten by \<^verbatim>\<open>"[]"\<close>. The items do move.
\<close>

theorem C4_rename_loses_columns:
  "get_widget_setting foo_store ''custom_list_foo'' ''columns'' = Some (Dumped foo_columns)
   \<and> columns foo_list = foo_columns
   \<and> get_widget_setting foo_store ''custom_list_bar'' ''columns'' = None
   \<and> (case edit_title (''Bar'', True) (foo_store, foo_list) of
        (store, w) \<Rightarrow>
          cl_widget_id w = ''custom_list_bar''
          \<and> get_widget_setting store ''custom_list_bar'' ''columns'' = Some (Dumped (JList [title_column]))
          \<and> get_widget_setting store ''custom_list_bar'' ''items'' = Some (Dumped foo_items)
          \<and> get_widget_setting store ''custom_list_foo'' ''columns'' = Some (Dumped (JList []))
          \<and> get_widget_setting store ''custom_list_foo'' ''items'' = Some (Dumped (JList [])))
   \<and> JList [title_column] \<noteq> foo_columns"
  by (simp add: edit_title_def widget_id_setter_def load_columns_def load_items_def
        save_columns_def save_items_def get_widget_setting_def set_widget_setting_def
        foo_store_def foo_list_def sanitize_Bar strip_nonempty_def is_space_def
        foo_columns_def Let_def)

subsection \<open>C5: names and identifiers given by \<^verbatim>\<open>add_widget\<close>\<close>

text \<open>
  C5, as stated, gives every kind that supports multiple instances the id "base, underscore,
  sanitised title", and on a collision a numbered id. The code does neither: the web view
  supports multiple instances and gets its module name as id, and a second custom list added
  with the same title gets the object name \<^verbatim>\<open>dock_custom_list_1\<close> and the id
  \<^verbatim>\<open>custom_list_custom_list_2\<close>, not \<^verbatim>\<open>custom_list_1\<close>.
\<close>

theorem C5_counterexample:
  "map_option pi_supports_multiple (map_of builtin_plugins ''web_view'') = Some True
   \<and> map dock_id (children (fst (add_widget_in sample_env 0 (DashboardTab ''Main'')
                                     WebViewWidget ''web_view'' ''My Page'' 2)))
       = [Some ''web_view'']
   \<and> ''web_view'' @ ''_'' @ sanitize ''My Page'' = ''web_view_my_page''
   \<and> map dock_id (children (fst (add_widget_in sample_env 0 one_list
                                     CustomListWidget ''custom_list'' ''Custom List'' 2)))
       = [Some ''custom_list_custom_list'', Some ''custom_list_custom_list_2'']"
proof -
  have a: "map_option pi_supports_multiple (map_of builtin_plugins ''web_view'') = Some True"
    by (simp add: builtin_plugins_def plugin_def)
  have al: "allocate_dock_name [] ''web_view'' = (''dock_web_view'', 1)"
    by (simp add: allocate_dock_name_def next_dock_name.simps)
  have b: "map dock_id (children (fst (add_widget_in sample_env 0 (DashboardTab ''Main'')
                                     WebViewWidget ''web_view'' ''My Page'' 2)))
       = [Some ''web_view'']"
    by (simp add: add_widget_in_def DashboardTab_def al display_title_of_def ctor_args_for_def
          construct_def allocate_widget_id_def set_widget_id_def save_state_raises_def
          dock_id_def Let_def)
  have c: "map dock_id (children (fst (add_widget_in sample_env 0 one_list
                                     CustomListWidget ''custom_list'' ''Custom List'' 2)))
       = [Some ''custom_list_custom_list'', Some ''custom_list_custom_list_2'']"
    by (simp add: add_second_list)
       (simp add: one_list_def dock_id_def custom_list_widget_def sanitize_Custom_List_2
          sanitize_def replace_space_def lower_def lower_char_def)
  from a b c show ?thesis by (simp add: sanitize_My_Page)
qed

text \<open>
  C5, amended. \<^verbatim>\<open>add_widget\<close> gives the dock an object name that no live dock of the dashboard
  has: \<^verbatim>\<open>dock_B\<close> when it is free (the counter stays 1), otherwise the first free one of
  \<^verbatim>\<open>dock_B_1\<close>, \<^verbatim>\<open>dock_B_2\<close>, and so on (the counter ends one above its number). The title shown
  is the requested one, followed by a space and the counter when the counter is not 1. The id
  is chosen by module name, not by a capability flag: for \<^verbatim>\<open>custom_list\<close>, \<^verbatim>\<open>code_viewer\<close> and
  \<^verbatim>\<open>wysiwyg_editor\<close> it is the module name, an underscore and the shown title in lower case with
  spaces replaced by underscores; for \<^verbatim>\<open>tree_list\<close> it is \<^verbatim>\<open>treelist_d\<close>, the tab index, an
  underscore and the counter; for every other module, among them every built-in kind that does
  not support multiple instances, it is the module name itself. The widget carries that id
  when it was constructed and is a tree list exactly when the module is \<^verbatim>\<open>tree_list\<close>.
\<close>

theorem C5_allocation:
  assumes "add_widget_in e i d c B T a = (d', r)"
    and "allocate_dock_name (map objectName (children d)) B = (dock_name, counter)"
  shows "objectName (last (children d')) = dock_name
       \<and> dock_name \<notin> set (map objectName (children d))
       \<and> (counter = 1 \<longrightarrow> dock_name = ''dock_'' @ B)
       \<and> (counter \<noteq> 1 \<longrightarrow> dock_name = numbered (''dock_'' @ B) (counter - 1)
             \<and> ''dock_'' @ B \<in> set (map objectName (children d))
             \<and> (\<forall>k. 1 \<le> k \<and> k < counter - 1
                    \<longrightarrow> numbered (''dock_'' @ B) k \<in> set (map objectName (children d))))
       \<and> windowTitle (last (children d'))
            = (if counter = 1 then T else T @ '' '' @ str_of_nat counter)
       \<and> (B \<noteq> [] \<and> (B = ''tree_list'' \<longleftrightarrow> c = TreeListWidget) \<and> dock_widget (last (children d')) \<noteq> None
            \<longrightarrow> dock_id (last (children d'))
                  = Some (allocate_widget_id B (display_title_of T counter) i counter))
       \<and> (B \<in> {''custom_list'', ''code_viewer'', ''wysiwyg_editor''}
            \<longrightarrow> allocate_widget_id B (display_title_of T counter) i counter
                  = B @ ''_'' @ sanitize (display_title_of T counter))
       \<and> (B = ''tree_list''
            \<longrightarrow> allocate_widget_id B (display_title_of T counter) i counter
                  = ''treelist_d'' @ str_of_nat i @ ''_'' @ str_of_nat counter)
       \<and> (B \<notin> {''tree_list'', ''custom_list'', ''code_viewer'', ''wysiwyg_editor''}
            \<longrightarrow> allocate_widget_id B (display_title_of T counter) i counter = B)
       \<and> (\<forall>(name, info) \<in> set builtin_plugins.
             \<not> pi_supports_multiple info
             \<longrightarrow> allocate_widget_id name (display_title_of T counter) i counter = name)"
proof -
  have ids: "\<forall>(name, info) \<in> set builtin_plugins.
             \<not> pi_supports_multiple info
             \<longrightarrow> allocate_widget_id name (display_title_of T counter) i counter = name"
    by (simp add: builtin_plugins_def plugin_def allocate_widget_id_def)
  from allocate_dock_name_spec [OF assms(2)] add_widget_in_names [OF assms] ids
  show ?thesis
    by (simp add: display_title_of_def allocate_widget_id_def)
qed

theorem C5_allocation_witness:
  "add_widget_in sample_env 0 one_list CustomListWidget ''custom_list'' ''Custom List'' 2
     = (one_list\<lparr>children := children one_list @
                     [\<lparr>dock_ref = 1, objectName = ''dock_custom_list_1'', windowTitle = ''Custom List 2'',
                       dock_widget = Some (custom_list_widget ''Custom List 2'' None),
                       place = sample_place\<rparr>],
                  qt_log := qt_log one_list @ [AddDockWidget ''dock_custom_list_1'']\<rparr>,
        Inr 1)
   \<and> allocate_dock_name (map objectName (children one_list)) ''custom_list'' = (''dock_custom_list_1'', 2)
   \<and> ''dock_custom_list_1'' \<notin> set (map objectName (children one_list))
   \<and> ''dock_custom_list_1'' = numbered ''dock_custom_list'' 1
   \<and> ''dock_custom_list'' \<in> set (map objectName (children one_list))
   \<and> allocate_widget_id ''custom_list'' (display_title_of ''Custom List'' 2) 0 2
        = ''custom_list_custom_list_2''"
proof -
  have names: "map objectName (children one_list) = [''dock_custom_list'']"
    by (simp add: one_list_def)
  have title: "display_title_of ''Custom List'' 2 = ''Custom List 2''"
    by (simp add: display_title_of_def str_of_nat.simps digit_char_def)
  from C5_allocation [OF add_second_list allocate_second_list]
  have "allocate_widget_id ''custom_list'' (display_title_of ''Custom List'' 2) 0 2
          = ''custom_list'' @ ''_'' @ sanitize (display_title_of ''Custom List'' 2)"
    by simp
  then have "allocate_widget_id ''custom_list'' (display_title_of ''Custom List'' 2) 0 2
          = ''custom_list_custom_list_2''"
    by (simp add: title sanitize_Custom_List_2)
  with add_second_list allocate_second_list show ?thesis
    by (simp add: names numbered_def str_of_nat.simps digit_char_def)
qed

subsection \<open>C6: resolution of the base module\<close>

text \<open>
  C6, as stated: restore recovers the base module by a longest-prefix match against the
  registered module names. It does not: the identifier \<^verbatim>\<open>treelist_d0_1\<close>, which \<^verbatim>\<open>add_widget\<close>
  gives the first tree list of the first dashboard, has no registered module name as a prefix,
  and the code resolves it to \<^verbatim>\<open>tree_list\<close>. Were the tree list also registered under
  \<^verbatim>\<open>treelist\<close>, the longest registered prefix would be that name, still not \<^verbatim>\<open>tree_list\<close>.
\<close>

theorem C6_counterexample:
  "allocate_widget_id ''tree_list'' ''Tree List'' 0 1 = ''treelist_d0_1''
   \<and> base_module_of ''treelist_d0_1'' = ''tree_list''
   \<and> longest_prefix_match (map fst builtin_plugins) ''treelist_d0_1'' = None
   \<and> longest_prefix_match (''treelist'' # map fst builtin_plugins) ''treelist_d0_1'' = Some ''treelist''"
  by (simp add: allocate_widget_id_def str_of_nat.simps digit_char_def base_module_of_def
        startswith_def longest_prefix_match_def builtin_plugins_def)

text \<open>
  C6, amended: the base module is found by testing four fixed prefixes, and the registry is not
  consulted. An identifier that begins with one of them resolves to the module of that prefix
  whatever follows it, so a title that itself begins with the prefix of another kind changes
  nothing; an identifier that begins with none of the four is its own base module; and no
  identifier begins with two of the four, so the order of the tests does not matter.
\<close>

theorem C6_fixed_prefixes:
  "base_module_of (''custom_list_'' @ t) = ''custom_list''
   \<and> base_module_of (''code_viewer_'' @ t) = ''code_viewer''
   \<and> base_module_of (''treelist_'' @ t) = ''tree_list''
   \<and> base_module_of (''wysiwyg_editor_'' @ t) = ''wysiwyg_editor''
   \<and> (list_all (\<lambda>p. \<not> startswith m p) known_prefixes \<longrightarrow> base_module_of m = m)
   \<and> length (filter (startswith m) known_prefixes) \<le> 1"
proof -
  have "length (filter (startswith m) known_prefixes) \<le> 1"
  proof (cases m)
    case Nil
    then show ?thesis by (simp add: known_prefixes_def startswith_def)
  next
    case outer: (Cons a m')
    show ?thesis
    proof (cases m')
      case Nil
      with outer show ?thesis by (simp add: known_prefixes_def startswith_def)
    next
      case (Cons b m'')
      with outer show ?thesis
        by (auto simp: known_prefixes_def startswith_def)
    qed
  qed
  moreover have "list_all (\<lambda>p. \<not> startswith m p) known_prefixes \<longrightarrow> base_module_of m = m"
    by (simp add: known_prefixes_def base_module_of_def)
  ultimately show ?thesis
    by (simp add: base_module_of_def startswith_def)
qed

theorem C6_fixed_prefixes_witness:
  "list_all (\<lambda>p. \<not> startswith ''clock'' p) known_prefixes
   \<and> base_module_of ''clock'' = ''clock''
   \<and> base_module_of ''custom_list_code_viewer_notes'' = ''custom_list''
   \<and> base_module_of ''code_viewer_treelist_d0_1'' = ''code_viewer''
   \<and> filter (startswith ''custom_list_code_viewer_notes'') known_prefixes = [''custom_list_'']"
proof -
  have none: "list_all (\<lambda>p. \<not> startswith ''clock'' p) known_prefixes"
    by (simp add: known_prefixes_def startswith_def)
  have one: "filter (startswith ''custom_list_code_viewer_notes'') known_prefixes = [''custom_list_'']"
    by (simp add: known_prefixes_def startswith_def)
  from C6_fixed_prefixes [of "''code_viewer_notes''" "''clock''"] none
  have a: "base_module_of ''clock'' = ''clock''"
    and b: "base_module_of ''custom_list_code_viewer_notes'' = ''custom_list''"
    by simp_all
  from C6_fixed_prefixes [of "''treelist_d0_1''" "''clock''"]
  have c: "base_module_of ''code_viewer_treelist_d0_1'' = ''code_viewer''"
    by simp
  from none a b c one show ?thesis by simp
qed

subsection \<open>C7: geometry is clamped, then the dock is shown\<close>

text \<open>
  C7, as stated: every restored widget that has a persisted geometry gets the clamped geometry
  and is then shown. The x and y of the document are integers of any size and are clamped from
  below only. When one of them is 2147483648 or more, \<^verbatim>\<open>setGeometry\<close> raises \<^verbatim>\<open>OverflowError\<close>,
  the \<^verbatim>\<open>except\<close> clause of the round prints it and the loop goes on to the next dock: no
  geometry is set, and \<^verbatim>\<open>setVisible(True)\<close> is not reached. At start-up, when a new dock is
  not visible, such a dock stays hidden.
\<close>

theorem C7_counterexample:
  "restored_docks startup_env 0 (DashboardTab ''Work'') far_record = [(0, far_clock)]
   \<and> wi_geometry far_clock
       = Some \<lparr>geom_x = 2147483648, geom_y = 0, geom_width = 300, geom_height = 200\<rparr>
   \<and> snd (ensure_visible_body (0, far_clock)
            (fst (create_widgets startup_env 0 (DashboardTab ''Work'') (di_widgets far_record))))
       = Some OverflowError
   \<and> restore_dashboard_layout startup_env 0 (DashboardTab ''Work'') far_record
       = \<lparr>tab_text = ''Work'',
          children = [\<lparr>dock_ref = 0, objectName = ''dock_clock'', windowTitle = ''Clock'',
                       dock_widget = Some \<lparr>w_class = ClockWidget, w_widget_id = Some ''clock'',
                                            w_list_title = None\<rparr>,
                       place = sample_place\<lparr>pl_visible := False\<rparr>\<rparr>],
          qt_log = [AddDockWidget ''dock_clock'']\<rparr>
   \<and> \<not> visible_at 0 (restore_dashboard_layout startup_env 0 (DashboardTab ''Work'') far_record)"
proof -
  have a: "restored_docks startup_env 0 (DashboardTab ''Work'') far_record = [(0, far_clock)]"
    by (simp add: restored_docks_def far_created)
  have b: "wi_geometry far_clock
       = Some \<lparr>geom_x = 2147483648, geom_y = 0, geom_width = 300, geom_height = 200\<rparr>"
    by (simp add: far_clock_def)
  have c: "snd (ensure_visible_body (0, far_clock)
            (fst (create_widgets startup_env 0 (DashboardTab ''Work'') (di_widgets far_record))))
       = Some OverflowError"
    by (simp add: ensure_visible_body_def b setGeometry_def normalize_geometry_def fits_c_int_def)
  have d: "restore_dashboard_layout startup_env 0 (DashboardTab ''Work'') far_record
       = \<lparr>tab_text = ''Work'',
          children = [\<lparr>dock_ref = 0, objectName = ''dock_clock'', windowTitle = ''Clock'',
                       dock_widget = Some \<lparr>w_class = ClockWidget, w_widget_id = Some ''clock'',
                                            w_list_title = None\<rparr>,
                       place = sample_place\<lparr>pl_visible := False\<rparr>\<rparr>],
          qt_log = [AddDockWidget ''dock_clock'']\<rparr>"
    by (simp add: restore_dashboard_layout_def far_restored)
  have e: "\<not> visible_at 0 (restore_dashboard_layout startup_env 0 (DashboardTab ''Work'') far_record)"
    by (simp add: d visible_at_def isVisible_def the_dock_def)
  from a b c d e show ?thesis by simp
qed

text \<open>
  C7, amended. For every restored widget (every entry of the list \<^verbatim>\<open>docks\<close>) that has a
  persisted geometry, the numbers the last loop computes are x and y raised to 0, the width
  clamped into 100 to 2000 and the height into 100 to 1200. When the x and the y so computed
  are below 2147483648, the calls the loop makes on the dock are \<^verbatim>\<open>setGeometry\<close> with these four
  numbers, then \<^verbatim>\<open>setVisible(True)\<close>, then \<^verbatim>\<open>raise_()\<close>, and the dock ends visible. Otherwise
  the loop makes no call on the dock, which is as visible at the end as it was before the loop.
\<close>

theorem C7_clamped_or_skipped:
  assumes "(r, inst) \<in> set (restored_docks e idx d info)" and "wi_geometry inst = Some g"
  shows "(let x = max 0 (geom_x g); y = max 0 (geom_y g);
              w = min (max 100 (geom_width g)) 2000; h = min (max 100 (geom_height g)) 1200;
              before = restore_docking_state e info (restored_docks e idx d info)
                         (fst (create_widgets e idx d (di_widgets info)));
              after = restore_dashboard_layout e idx d info;
              calls = calls_on r (drop (length (qt_log before)) (qt_log after))
          in 0 \<le> x \<and> 0 \<le> y \<and> 100 \<le> w \<and> w \<le> 2000 \<and> 100 \<le> h \<and> h \<le> 1200
             \<and> (x < 2 ^ 31 \<and> y < 2 ^ 31 \<longrightarrow>
                  calls = [SetGeometry r \<lparr>geom_x = x, geom_y = y, geom_width = w, geom_height = h\<rparr>,
                           SetVisible r, Raise r]
                  \<and> visible_at r after)
             \<and> (\<not> (x < 2 ^ 31 \<and> y < 2 ^ 31) \<longrightarrow>
                  calls = [] \<and> (visible_at r after \<longleftrightarrow> visible_at r before)))"
proof -
  let ?before = "restore_docking_state e info (restored_docks e idx d info)
                   (fst (create_widgets e idx d (di_widgets info)))"
  let ?after = "restore_dashboard_layout e idx d info"
  from restored_dock_final [OF assms(1)] obtain dk where
    dk: "the_dock r ?before = Some dk"
    and fin: "the_dock r ?after = Some (placed inst dk)"
    and calls: "calls_on r (drop (length (qt_log ?before)) (qt_log ?after)) = round_calls (r, inst)"
    by auto
  have ap: "applies inst \<longleftrightarrow> max 0 (geom_x g) < 2 ^ 31 \<and> max 0 (geom_y g) < 2 ^ 31"
    using assms(2) by (auto simp: applies_def normalize_geometry_def fits_c_int_def Let_def)
  have ng: "normalize_geometry g
              = \<lparr>geom_x = max 0 (geom_x g), geom_y = max 0 (geom_y g),
                 geom_width = min (max 100 (geom_width g)) 2000,
                 geom_height = min (max 100 (geom_height g)) 1200\<rparr>"
    by (simp add: normalize_geometry_def)
  have vis: "visible_at r ?after \<longleftrightarrow> (if applies inst then True else visible_at r ?before)"
    using dk fin
    by (simp add: visible_at_def isVisible_def placed_def show_dock_def place_at_def
          split: option.splits)
  from calls ap ng vis assms(2) show ?thesis
    by (simp add: Let_def round_calls_def)
qed

theorem C7_clamped_or_skipped_witness:
  "(0, groceries) \<in> set (restored_docks sample_env 0 (DashboardTab ''Work'') mixed_record)
   \<and> wi_geometry groceries = Some \<lparr>geom_x = - 5, geom_y = 10, geom_width = 5000, geom_height = 50\<rparr>
   \<and> max 0 (- 5 :: int) < 2 ^ 31 \<and> max 0 (10 :: int) < 2 ^ 31
   \<and> calls_on 0
       (drop (length (qt_log (restore_docking_state sample_env mixed_record
                                (restored_docks sample_env 0 (DashboardTab ''Work'') mixed_record)
                                (fst (create_widgets sample_env 0 (DashboardTab ''Work'')
                                        (di_widgets mixed_record))))))
          (qt_log (restore_dashboard_layout sample_env 0 (DashboardTab ''Work'') mixed_record)))
       = [SetGeometry 0 \<lparr>geom_x = 0, geom_y = 10, geom_width = 2000, geom_height = 100\<rparr>,
          SetVisible 0, Raise 0]
   \<and> visible_at 0 (restore_dashboard_layout sample_env 0 (DashboardTab ''Work'') mixed_record)
   \<and> (0, far_clock) \<in> set (restored_docks startup_env 0 (DashboardTab ''Work'') far_record)
   \<and> wi_geometry far_clock
       = Some \<lparr>geom_x = 2147483648, geom_y = 0, geom_width = 300, geom_height = 200\<rparr>
   \<and> \<not> max 0 (2147483648 :: int) < 2 ^ 31
   \<and> calls_on 0
       (drop (length (qt_log (restore_docking_state startup_env far_record
                                (restored_docks startup_env 0 (DashboardTab ''Work'') far_record)
                                (fst (create_widgets startup_env 0 (DashboardTab ''Work'')
                                        (di_widgets far_record))))))
          (qt_log (restore_dashboard_layout startup_env 0 (DashboardTab ''Work'') far_record)))
       = []"
proof -
  have m1: "(0, groceries) \<in> set (restored_docks sample_env 0 (DashboardTab ''Work'') mixed_record)"
    by (simp add: restored_docks_def mixed_created)
  have g1: "wi_geometry groceries = Some \<lparr>geom_x = - 5, geom_y = 10, geom_width = 5000, geom_height = 50\<rparr>"
    by (simp add: groceries_def)
  have m2: "(0, far_clock) \<in> set (restored_docks startup_env 0 (DashboardTab ''Work'') far_record)"
    by (simp add: restored_docks_def far_created)
  have g2: "wi_geometry far_clock
       = Some \<lparr>geom_x = 2147483648, geom_y = 0, geom_width = 300, geom_height = 200\<rparr>"
    by (simp add: far_clock_def)
  from C7_clamped_or_skipped [OF m1 g1] C7_clamped_or_skipped [OF m2 g2] m1 g1 m2 g2
  show ?thesis by (simp add: Let_def)
qed

subsection \<open>C8: widgets first, docking state after, visibility kept\<close>

text \<open>
  C8: the calls made on a dashboard by one restore are those that add docks, all of them made
  by the creation loop, followed by calls that add none, the application of the docking state
  among them. The visibility of each restored dock is read before \<^verbatim>\<open>restoreState\<close> runs, and a
  dock that was visible then is visible again after the block that applies the state,
  whatever the toolkit did to it.
\<close>

theorem C8_creation_before_state:
  "\<exists>created later.
      qt_log (fst (create_widgets e idx d (di_widgets info))) = qt_log d @ created
    \<and> qt_log (restore_dashboard_layout e idx d info) = qt_log d @ created @ later
    \<and> list_all is_creation created
    \<and> list_all (\<lambda>c. \<not> is_creation c) later
    \<and> (\<forall>p \<in> set (restored_docks e idx d info).
          visible_at (fst p) (fst (create_widgets e idx d (di_widgets info)))
          \<longrightarrow> visible_at (fst p)
                (restore_docking_state e info (restored_docks e idx d info)
                   (fst (create_widgets e idx d (di_widgets info)))))"
proof -
  obtain d1 docks where cw: "create_widgets e idx d (di_widgets info) = (d1, docks)"
    by (cases "create_widgets e idx d (di_widgets info)")
  then have f: "fold (restore_instance e idx) (di_widgets info) (d, []) = (d1, docks)"
    by (simp add: create_widgets_fold)
  from create_shape [OF f] obtain created where
    cr: "qt_log d1 = qt_log d @ created" "list_all is_creation created"
    by auto
  from restore_dashboard_layout_log [of e idx d info] cw obtain later where
    la: "qt_log (restore_dashboard_layout e idx d info) = qt_log d1 @ later"
        "list_all (\<lambda>c. \<not> is_creation c) later"
    by auto
  have vis: "\<forall>p \<in> set docks. visible_at (fst p) d1
               \<longrightarrow> visible_at (fst p) (restore_docking_state e info docks d1)"
  proof (intro ballI impI)
    fix p assume p: "p \<in> set docks" and v: "visible_at (fst p) d1"
    from p have "(fst p, snd p) \<in> set docks" by simp
    then show "visible_at (fst p) (restore_docking_state e info docks d1)"
      using v by (rule restore_docking_state_visible)
  qed
  from cr la vis cw show ?thesis
    by (auto simp: restored_docks_def)
qed

theorem C8_creation_before_state_witness:
  "(0, groceries) \<in> set (restored_docks sample_env 0 (DashboardTab ''Work'') work_record)
   \<and> visible_at 0 (fst (create_widgets sample_env 0 (DashboardTab ''Work'') (di_widgets work_record)))
   \<and> \<not> visible_at 0 (restoreState sample_env [0x0a, 0x0b]
                       (fst (create_widgets sample_env 0 (DashboardTab ''Work'') (di_widgets work_record))))
   \<and> visible_at 0 (restore_docking_state sample_env work_record
                     (restored_docks sample_env 0 (DashboardTab ''Work'') work_record)
                     (fst (create_widgets sample_env 0 (DashboardTab ''Work'') (di_widgets work_record))))"
proof -
  have mem: "(0, groceries) \<in> set (restored_docks sample_env 0 (DashboardTab ''Work'') work_record)"
    by (simp add: restored_docks_def work_created)
  have before: "visible_at 0 (fst (create_widgets sample_env 0 (DashboardTab ''Work'') (di_widgets work_record)))"
    by (simp add: work_created visible_at_def isVisible_def the_dock_def sample_place_def)
  have hidden: "\<not> visible_at 0 (restoreState sample_env [0x0a, 0x0b]
                       (fst (create_widgets sample_env 0 (DashboardTab ''Work'') (di_widgets work_record))))"
    by (simp only: work_created fst_conv)
       (simp add: visible_at_def isVisible_def the_dock_def restoreState_def sample_env_def
          enumerate_eq_zip)
  from C8_creation_before_state [of sample_env 0 "DashboardTab ''Work''" work_record] mem before
  have "visible_at 0 (restore_docking_state sample_env work_record
                     (restored_docks sample_env 0 (DashboardTab ''Work'') work_record)
                     (fst (create_widgets sample_env 0 (DashboardTab ''Work'') (di_widgets work_record))))"
    by force
  with mem before hidden show ?thesis by simp
qed

subsection \<open>C9: a record from which no widget is restored\<close>

text \<open>
  C9, as stated: when no widget of a non-empty record is restored, the dashboard restore
  reports failure and the caller replaces the dashboard by the default one. The code keeps the
  dashboard: \<^verbatim>\<open>restore_dashboard_layout\<close> returns nothing, and \<^verbatim>\<open>restore_layout\<close> counts the
  dashboard as restored. A record titled Work whose only entry is not registered yields the
  empty dashboard Work, not the default dashboard.
\<close>

theorem C9_counterexample:
  "di_widgets ghost_record \<noteq> []
   \<and> restored_docks sample_env 0 (DashboardTab ''Work'') ghost_record = []
   \<and> tabs (restore_layout sample_env (Some (Decoded [DashboardDict ghost_record])) empty_window)
       = [\<lparr>tab_text = ''Work'', children = [], qt_log = []\<rparr>]
   \<and> tabs (add_dashboard sample_env empty_window)
       = [\<lparr>tab_text = ''Dashboard 1'', children = [], qt_log = []\<rparr>]"
proof -
  have a: "restored_docks sample_env 0 (DashboardTab ''Work'') ghost_record = []"
    by (simp add: restored_docks_def create_widgets_fold ghost_record_def
          restore_instance_unresolvable [OF ghost_unresolvable])
  have b: "tabs (restore_layout sample_env (Some (Decoded [DashboardDict ghost_record])) empty_window)
       = [\<lparr>tab_text = ''Work'', children = [], qt_log = []\<rparr>]"
  proof -
    have t: "di_title ghost_record = Some ''Work''" by (simp add: ghost_record_def)
    show ?thesis
      by (simp add: restore_layout_def restore_entry_Dict empty_window_def t
            ghost_record_restored addTab_def show_all_def)
         (simp add: DashboardTab_def)
  qed
  have c: "tabs (add_dashboard sample_env empty_window)
       = [\<lparr>tab_text = ''Dashboard 1'', children = [], qt_log = []\<rparr>]"
    by (simp add: add_dashboard_def addTab_def DashboardTab_def empty_window_def
          new_dashboard_title_def sample_env_def str_of_nat.simps digit_char_def)
  from a b c show ?thesis by (simp add: ghost_record_def)
qed

text \<open>
  C9, amended: \<^verbatim>\<open>restore_layout\<close> opens one dashboard for every record of a non-empty document,
  in order and under the saved title (or \<^verbatim>\<open>Dashboard\<close>), however many widgets of the record
  were restored. The single default dashboard is created only when the document yields no
  dashboard at all, that is, when none of its elements is a record.
\<close>

theorem C9_dashboard_kept:
  assumes "es \<noteq> []"
  shows "map tab_text (tabs (restore_layout e (Some (Decoded es)) mw))
           = (if saved_titles es = [] then [new_dashboard_title e (mw\<lparr>tabs := []\<rparr>)]
              else saved_titles es)"
proof -
  obtain mw1 n where f: "fold (restore_entry e) es (mw\<lparr>tabs := []\<rparr>, 0) = (mw1, n)"
    by (cases "fold (restore_entry e) es (mw\<lparr>tabs := []\<rparr>, 0)")
  from fold_restore_entry_titles [OF f] have
    t: "map tab_text (tabs mw1) = saved_titles es" and n: "n = length (saved_titles es)"
    by simp_all
  show ?thesis
  proof (cases "saved_titles es = []")
    case True
    with t n have "tabs mw1 = []" "n = 0" by simp_all
    with assms f True show ?thesis
      by (simp add: restore_layout_def add_dashboard_def addTab_def DashboardTab_def
            new_dashboard_title_def)
  next
    case False
    with t n have ne: "tabs mw1 \<noteq> []" "n \<noteq> 0" by auto
    have "map tab_text ((tabs mw1)[0 := show_all (tabs mw1 ! 0)]) = map tab_text (tabs mw1)"
      by (rule map_update_same) (simp add: show_all_title)
    with assms f False ne t show ?thesis
      by (simp add: restore_layout_def)
  qed
qed

theorem C9_dashboard_kept_witness:
  "[DashboardDict ghost_record] \<noteq> []
   \<and> map tab_text (tabs (restore_layout sample_env (Some (Decoded [DashboardDict ghost_record])) empty_window))
       = [''Work'']"
  using C9_dashboard_kept [of "[DashboardDict ghost_record]" sample_env empty_window]
  by (simp add: saved_titles_Cons ghost_record_def saved_titles_def List.map_filter_def)

subsection \<open>C10: saved entries are always visible\<close>

text \<open>
  C10: every widget record written by \<^verbatim>\<open>save_dashboard_layout\<close> has \<^verbatim>\<open>visible\<close> true, whether
  or not the dock was visible when it was captured.
\<close>

theorem C10_saved_visible:
  "\<forall>info \<in> set (di_widgets (save_dashboard_layout e d)). wi_visible info"
  by (auto simp: save_dashboard_layout_def Let_def set_map_filter dest: save_dock_visible)

theorem C10_saved_visible_witness:
  "\<not> pl_visible (place hidden_clock)
   \<and> the (save_dock hidden_clock)
       \<in> set (di_widgets (save_dashboard_layout sample_env ((DashboardTab ''Main'')\<lparr>children := [hidden_clock]\<rparr>)))
   \<and> wi_visible (the (save_dock hidden_clock))"
proof -
  have mem: "the (save_dock hidden_clock)
       \<in> set (di_widgets (save_dashboard_layout sample_env ((DashboardTab ''Main'')\<lparr>children := [hidden_clock]\<rparr>)))"
    by (simp add: save_dashboard_layout_def DashboardTab_def List.map_filter_def save_dock_def
          hidden_clock_def startswith_def)
  have "\<not> pl_visible (place hidden_clock)"
    by (simp add: hidden_clock_def sample_place_def)
  with mem C10_saved_visible [of sample_env "(DashboardTab ''Main'')\<lparr>children := [hidden_clock]\<rparr>"]
  show ?thesis by blast
qed

end

